theory Spec2Isabelle
  imports Main "HOL-Library.Sublist"
begin

unbundle bit_operations_syntax

section \<open>Python string operations used by \<^verbatim>\<open>ioc_list.py\<close>\<close>

text \<open>
  Strings are lists of characters; a character stands for a code point below 256.
  Every operation below is the Python \<^verbatim>\<open>str\<close> (or \<^verbatim>\<open>bytes\<close>) method of the same
  name, restricted to the way \<^verbatim>\<open>ioc_list.py\<close> calls it.
\<close>

text \<open>\<^verbatim>\<open>s.split(sep)\<close> for a one-character separator: never empty, \<^verbatim>\<open>"".split(",") == [""]\<close>.\<close>

fun split_chr :: "char \<Rightarrow> string \<Rightarrow> string list" where
  "split_chr sep [] = [[]]"
| "split_chr sep (c # cs) =
     (if c = sep then [] # split_chr sep cs
      else (case split_chr sep cs of x # xs \<Rightarrow> (c # x) # xs | [] \<Rightarrow> [[c]]))"

text \<open>\<^verbatim>\<open>s.split(sep, 1)\<close> for a one-character separator: cut at the first occurrence.\<close>

definition split1_chr :: "char \<Rightarrow> string \<Rightarrow> string list" where
  "split1_chr sep s =
     (if sep \<in> set s
      then [takeWhile (\<lambda>c. c \<noteq> sep) s, tl (dropWhile (\<lambda>c. c \<noteq> sep) s)]
      else [s])"

text \<open>\<^verbatim>\<open>s.rsplit(sep, 1)\<close> for a non-empty separator: cut at the last occurrence.\<close>

fun rfind_cut :: "string \<Rightarrow> string \<Rightarrow> (string \<times> string) option" where
  "rfind_cut sep [] = None"
| "rfind_cut sep (c # cs) =
     (case rfind_cut sep cs of
        Some (a, b) \<Rightarrow> Some (c # a, b)
      | None \<Rightarrow> if prefix sep (c # cs) then Some ([], drop (length sep) (c # cs)) else None)"

definition rsplit1 :: "string \<Rightarrow> string \<Rightarrow> string list" where
  "rsplit1 sep s = (case rfind_cut sep s of None \<Rightarrow> [s] | Some (a, b) \<Rightarrow> [a, b])"

text \<open>\<^verbatim>\<open>sep.join(xs)\<close>.\<close>

fun join :: "string \<Rightarrow> string list \<Rightarrow> string" where
  "join sep [] = []"
| "join sep [x] = x"
| "join sep (x # y # ys) = x @ sep @ join sep (y # ys)"

text \<open>\<^verbatim>\<open>sub in s\<close>.\<close>

fun contains :: "string \<Rightarrow> string \<Rightarrow> bool" where
  "contains sub [] = (sub = [])"
| "contains sub (c # cs) = (prefix sub (c # cs) \<or> contains sub cs)"

text \<open>
  \<^verbatim>\<open>s.replace(old, new)\<close>: left to right, non-overlapping. The counter is the number
  of characters of a match still to be skipped. An empty \<^verbatim>\<open>old\<close> matches before every
  character and at the end.
\<close>

fun replace_scan :: "string \<Rightarrow> string \<Rightarrow> nat \<Rightarrow> string \<Rightarrow> string" where
  "replace_scan old new k [] = []"
| "replace_scan old new (Suc k) (c # cs) = replace_scan old new k cs"
| "replace_scan old new 0 (c # cs) =
     (if prefix old (c # cs) then new @ replace_scan old new (length old - 1) cs
      else c # replace_scan old new 0 cs)"

definition replace :: "string \<Rightarrow> string \<Rightarrow> string \<Rightarrow> string" where
  "replace old new s =
     (if old = [] then new @ concat (map (\<lambda>c. c # new) s) else replace_scan old new 0 s)"

text \<open>\<^verbatim>\<open>s.rstrip(chars)\<close> and \<^verbatim>\<open>s.strip(chars)\<close>: the argument is a set of characters.\<close>

definition rstrip :: "string \<Rightarrow> string \<Rightarrow> string" where
  "rstrip chars s = rev (dropWhile (\<lambda>c. c \<in> set chars) (rev s))"

definition strip :: "string \<Rightarrow> string \<Rightarrow> string" where
  "strip chars s = rstrip chars (dropWhile (\<lambda>c. c \<in> set chars) s)"

text \<open>
  \<^verbatim>\<open>s.lower()\<close>: below 256 the upper-case code points are A to Z, 192 to 214 and 216 to
  222, each 32 below its lower-case form.
\<close>

definition code :: "char \<Rightarrow> nat" where
  "code c = of_char c"

definition lower_chr :: "char \<Rightarrow> char" where
  "lower_chr c =
     (if (65 \<le> code c \<and> code c \<le> 90) \<or> (192 \<le> code c \<and> code c \<le> 214) \<or>
         (216 \<le> code c \<and> code c \<le> 222)
      then char_of (code c + 32) else c)"

definition lower :: "string \<Rightarrow> string" where
  "lower s = map lower_chr s"


text \<open>
  \<^verbatim>\<open>s.split()\<close>: runs of whitespace separate the fields, none is empty. For \<^verbatim>\<open>str\<close> the
  whitespace below 256 is 9 to 13, 28 to 32, 133 and 160; for \<^verbatim>\<open>bytes\<close> 9 to 13 and 32.
\<close>

definition str_isspace :: "char \<Rightarrow> bool" where
  "str_isspace c =
     ((9 \<le> code c \<and> code c \<le> 13) \<or> (28 \<le> code c \<and> code c \<le> 32) \<or> code c = 133 \<or> code c = 160)"

definition bytes_isspace :: "char \<Rightarrow> bool" where
  "bytes_isspace c = ((9 \<le> code c \<and> code c \<le> 13) \<or> code c = 32)"

fun fields_of :: "(char \<Rightarrow> bool) \<Rightarrow> string \<Rightarrow> string \<Rightarrow> string list" where
  "fields_of sp cur [] = (if cur = [] then [] else [rev cur])"
| "fields_of sp cur (c # cs) =
     (if sp c then (if cur = [] then fields_of sp [] cs else rev cur # fields_of sp [] cs)
      else fields_of sp (c # cur) cs)"

definition str_split :: "string \<Rightarrow> string list" where
  "str_split s = fields_of str_isspace [] s"

definition bytes_split :: "string \<Rightarrow> string list" where
  "bytes_split s = fields_of bytes_isspace [] s"

text \<open>
  \<^verbatim>\<open>b.splitlines()\<close> on \<^verbatim>\<open>bytes\<close>: a line ends at LF, CR or CR LF; no empty last line.
\<close>

fun splitlines_from :: "string \<Rightarrow> string \<Rightarrow> string list" where
  "splitlines_from cur [] = (if cur = [] then [] else [rev cur])"
| "splitlines_from cur (c # cs) =
     (if code c = 13 then
        rev cur # splitlines_from [] (if cs \<noteq> [] \<and> code (hd cs) = 10 then tl cs else cs)
      else if code c = 10 then rev cur # splitlines_from [] cs
      else splitlines_from (c # cur) cs)"

definition splitlines :: "string \<Rightarrow> string list" where
  "splitlines s = splitlines_from [] s"

text \<open>
  \<^verbatim>\<open>b.decode()\<close> on \<^verbatim>\<open>bytes\<close>, which is UTF-8. \<^verbatim>\<open>utf8\<close> gives the code points of the text, or
  \<^verbatim>\<open>None\<close> for \<^verbatim>\<open>UnicodeDecodeError\<close>: sequences of one to four bytes, none longer than it
  need be, no surrogate, nothing above 1114111. \<^verbatim>\<open>decode\<close> gives the text as a string when
  every code point is below 256; a text with a code point beyond that is kept as its code
  points, since a string here cannot hold it.
\<close>

definition continues :: "char \<Rightarrow> bool" where
  "continues c = (128 \<le> code c \<and> code c < 192)"

fun utf8 :: "string \<Rightarrow> nat list option" where
  "utf8 [] = Some []"
| "utf8 (a # s) =
     (if code a < 128 then map_option ((#) (code a)) (utf8 s)
      else if 194 \<le> code a \<and> code a < 224 then
        (case s of
           b # s1 \<Rightarrow>
             if continues b
             then map_option ((#) (64 * (code a - 192) + (code b - 128))) (utf8 s1)
             else None
         | _ \<Rightarrow> None)
      else if 224 \<le> code a \<and> code a < 240 then
        (case s of
           b # c # s2 \<Rightarrow>
             if continues b \<and> continues c \<and> (code a = 224 \<longrightarrow> 160 \<le> code b) \<and>
                (code a = 237 \<longrightarrow> code b < 160)
             then map_option
                    ((#) (4096 * (code a - 224) + 64 * (code b - 128) + (code c - 128))) (utf8 s2)
             else None
         | _ \<Rightarrow> None)
      else if 240 \<le> code a \<and> code a < 245 then
        (case s of
           b # c # d # s3 \<Rightarrow>
             if continues b \<and> continues c \<and> continues d \<and> (code a = 240 \<longrightarrow> 144 \<le> code b) \<and>
                (code a = 244 \<longrightarrow> code b < 144)
             then map_option
                    ((#) (262144 * (code a - 240) + 4096 * (code b - 128) + 64 * (code c - 128) +
                          (code d - 128))) (utf8 s3)
             else None
         | _ \<Rightarrow> None)
      else None)"

datatype decoded = Decoded string | Beyond "nat list" | NotUtf8

definition decode :: "string \<Rightarrow> decoded" where
  "decode b =
     (case utf8 b of
        None \<Rightarrow> NotUtf8
      | Some points \<Rightarrow>
          if list_all (\<lambda>n. n < 256) points then Decoded (map char_of points) else Beyond points)"

text \<open>
  \<^verbatim>\<open>re.sub(r"\W\w.", "-", s)\<close>: a non-word character, a word character and any character
  but LF become one hyphen, from the left, without overlap.
\<close>

definition is_word :: "char \<Rightarrow> bool" where
  "is_word c =
     ((48 \<le> code c \<and> code c \<le> 57) \<or> (65 \<le> code c \<and> code c \<le> 90) \<or> code c = 95 \<or>
      (97 \<le> code c \<and> code c \<le> 122) \<or> code c = 170 \<or> code c = 178 \<or> code c = 179 \<or>
      code c = 181 \<or> code c = 185 \<or> code c = 186 \<or> (188 \<le> code c \<and> code c \<le> 190) \<or>
      (192 \<le> code c \<and> code c \<le> 214) \<or> (216 \<le> code c \<and> code c \<le> 246) \<or> 248 \<le> code c)"

fun re_sub_Wwdot :: "string \<Rightarrow> string" where
  "re_sub_Wwdot (a # b # c # rest) =
     (if \<not> is_word a \<and> is_word b \<and> code c \<noteq> 10 then CHR ''-'' # re_sub_Wwdot rest
      else a # re_sub_Wwdot (b # c # rest))"
| "re_sub_Wwdot s = s"

section \<open>\<^verbatim>\<open>uuid.UUID(hex, version=4)\<close> and its \<^verbatim>\<open>str\<close>\<close>

text \<open>
  \<^verbatim>\<open>int(s, 16)\<close>: whitespace (9 to 13, 32, 133, 160) around, one optional sign, an optional
  \<^verbatim>\<open>0x\<close> that may be followed by one underscore, then hexadecimal digits with single
  underscores between them. \<^verbatim>\<open>None\<close> is \<^verbatim>\<open>ValueError\<close>.
\<close>

definition int_isspace :: "char \<Rightarrow> bool" where
  "int_isspace c = ((9 \<le> code c \<and> code c \<le> 13) \<or> code c = 32 \<or> code c = 133 \<or> code c = 160)"

definition digit16 :: "char \<Rightarrow> nat option" where
  "digit16 c =
     (if 48 \<le> code c \<and> code c \<le> 57 then Some (code c - 48)
      else if 97 \<le> code c \<and> code c \<le> 102 then Some (code c - 87)
      else if 65 \<le> code c \<and> code c \<le> 70 then Some (code c - 55)
      else None)"

text \<open>
  The digit scan: \<^verbatim>\<open>prev\<close> says that the last character was an underscore, \<^verbatim>\<open>n\<close> counts
  the digits. The result is the value, the number of digits and the unread rest.
\<close>

fun scan_digits16 :: "bool \<Rightarrow> nat \<Rightarrow> nat \<Rightarrow> string \<Rightarrow> (nat \<times> nat \<times> string) option" where
  "scan_digits16 prev n acc [] = (if prev then None else Some (acc, n, []))"
| "scan_digits16 prev n acc (c # cs) =
     (if c = CHR ''_'' then (if prev then None else scan_digits16 True n acc cs)
      else (case digit16 c of
              Some d \<Rightarrow> scan_digits16 False (Suc n) (16 * acc + d) cs
            | None \<Rightarrow> if prev then None else Some (acc, n, c # cs)))"

definition skip_sign :: "string \<Rightarrow> bool \<times> string" where
  "skip_sign s =
     (case s of
        [] \<Rightarrow> (False, s)
      | c # cs \<Rightarrow>
          if c = CHR ''+'' then (False, cs) else if c = CHR ''-'' then (True, cs) else (False, s))"

definition skip_0x :: "string \<Rightarrow> string" where
  "skip_0x s =
     (case s of
        a # b # cs \<Rightarrow>
          if a = CHR ''0'' \<and> (b = CHR ''x'' \<or> b = CHR ''X'')
          then (case cs of [] \<Rightarrow> cs | u # cs' \<Rightarrow> if u = CHR ''_'' then cs' else cs)
          else s
      | _ \<Rightarrow> s)"

definition int16 :: "string \<Rightarrow> int option" where
  "int16 s =
     (case skip_sign (dropWhile int_isspace s) of
        (neg, s2) \<Rightarrow>
          (case skip_0x s2 of
             [] \<Rightarrow> None
           | c # cs \<Rightarrow>
               if c = CHR ''_'' then None
               else (case scan_digits16 False 0 0 (c # cs) of
                       None \<Rightarrow> None
                     | Some (v, n, rest) \<Rightarrow>
                         if n = 0 then None
                         else if dropWhile int_isspace rest \<noteq> [] then None
                         else Some (if neg then - int v else int v))))"

text \<open>
  The constructor with \<^verbatim>\<open>hex\<close> and \<^verbatim>\<open>version\<close>: the value of \<^verbatim>\<open>self.int\<close>, or \<^verbatim>\<open>None\<close> for
  \<^verbatim>\<open>ValueError\<close>. \<^verbatim>\<open>set_version\<close> writes the variant and the version into the number.
\<close>

definition set_version :: "int \<Rightarrow> int \<Rightarrow> int" where
  "set_version i version =
     ((((i AND NOT (push_bit 48 0xC000)) OR push_bit 48 0x8000)
         AND NOT (push_bit 64 0xF000)) OR push_bit 76 version)"

definition UUID :: "string \<Rightarrow> int \<Rightarrow> int option" where
  "UUID hex version =
     (case replace ''-'' [] (strip ''{}'' (replace ''uuid:'' [] (replace ''urn:'' [] hex))) of h \<Rightarrow>
        if length h \<noteq> 32 then None
        else (case int16 h of
                None \<Rightarrow> None
              | Some i \<Rightarrow>
                  if \<not> (0 \<le> i \<and> i < push_bit 128 1) then None
                  else if \<not> (1 \<le> version \<and> version \<le> 5) then None
                  else Some (set_version i version)))"

text \<open>\<^verbatim>\<open>'%032x' % n\<close> for \<^verbatim>\<open>n >= 0\<close>, and \<^verbatim>\<open>str(u)\<close>.\<close>

definition hexchar :: "nat \<Rightarrow> char" where
  "hexchar d = ''0123456789abcdef'' ! d"

fun hex_nat :: "nat \<Rightarrow> string" where
  "hex_nat n = (if n < 16 then [hexchar n] else hex_nat (n div 16) @ [hexchar (n mod 16)])"

declare hex_nat.simps [simp del]

definition fmt_032x :: "nat \<Rightarrow> string" where
  "fmt_032x n = replicate (32 - length (hex_nat n)) CHR ''0'' @ hex_nat n"

definition uuid_str :: "int \<Rightarrow> string" where
  "uuid_str i =
     (case fmt_032x (nat i) of h \<Rightarrow>
        take 8 h @ ''-'' @ take 4 (drop 8 h) @ ''-'' @ take 4 (drop 12 h) @ ''-'' @
        take 4 (drop 16 h) @ ''-'' @ drop 20 h)"

text \<open>
  Lines 195 to 204: \<^verbatim>\<open>str(_uuid.UUID(uuid, version=4))[:8]\<close>, or the name unchanged on
  \<^verbatim>\<open>ValueError\<close>.
\<close>

definition uuid_display :: "string \<Rightarrow> string" where
  "uuid_display uuid_full =
     (case UUID uuid_full 4 of Some u \<Rightarrow> take 8 (uuid_str u) | None \<Rightarrow> uuid_full)"

section \<open>IPv4 short form\<close>

text \<open>
  The exceptions that the listing can end with. \<^verbatim>\<open>WideText\<close> is none of them: it marks a
  listing that goes on with a text that has a code point above 255, which no string
  here can hold; nothing is said about the rows of such a listing.
\<close>

datatype py_error =
    KeyError string
  | IndexError
  | UnboundLocalError string
  | ZFSException string
  | JSONDecodeError
  | UnicodeDecodeError
  | FileNotFoundError string
  | Raised string
  | WideText "nat list"

text \<open>\<^verbatim>\<open>xs[i]\<close> on a list, for a non-negative index.\<close>

definition index :: "'a list \<Rightarrow> nat \<Rightarrow> py_error + 'a" where
  "index xs i = (if i < length xs then Inr (xs ! i) else Inl IndexError)"

text \<open>
  The list comprehension \<^verbatim>\<open>[item.split("|")[1].split("/")[0] for item in ...]\<close>: the first
  item without a \<^verbatim>\<open>|\<close> raises \<^verbatim>\<open>IndexError\<close>.
\<close>

fun ip4_items :: "string list \<Rightarrow> py_error + string list" where
  "ip4_items [] = Inr []"
| "ip4_items (item # items) =
     (case index (split_chr CHR ''|'' item) 1 of
        Inl e \<Rightarrow> Inl e
      | Inr a \<Rightarrow>
          (case ip4_items items of
             Inl e \<Rightarrow> Inl e
           | Inr as \<Rightarrow> Inr (hd (split_chr CHR ''/'' a) # as)))"

definition short_ip4_of :: "string \<Rightarrow> string" where
  "short_ip4_of full_ip4 =
     (case ip4_items (split_chr CHR '','' full_ip4) of
        Inr as \<Rightarrow> join '','' as
      | Inl e \<Rightarrow> if full_ip4 \<noteq> ''none'' then full_ip4 else ''-'')"

section \<open>Release strings\<close>

text \<open>Lines 219 to 224: the full and the short release.\<close>

definition release_forms :: "string \<Rightarrow> string \<times> string" where
  "release_forms release =
     (if contains ''HBSD'' release then
        (case replace ''--SD'' ''-STABLE-HBSD'' (re_sub_Wwdot release) of full_release \<Rightarrow>
           (full_release, rstrip ''-HBSD'' full_release))
      else (release, join ''-'' (take 2 (split_chr CHR ''-'' release))))"

section \<open>The collaborators of \<^verbatim>\<open>IOCList\<close>\<close>

text \<open>
  A configuration is a dictionary from keys to strings. A child dataset of the store
  carries its name and the value of its \<^verbatim>\<open>mountpoint\<close> property.
\<close>

type_synonym conf = "string \<rightharpoonup> string"

record dataset =
  name :: string
  mountpoint :: string

text \<open>
  What running a command gave: its output on a zero exit, \<^verbatim>\<open>CalledProcessError\<close> with the
  text \<^verbatim>\<open>str(e)\<close> on a non-zero exit, or any other exception that the call raises (the
  program is not there, say).
\<close>

datatype proc_result = Exit0 string | CalledProcessError string | Raises py_error

text \<open>
  \<^verbatim>\<open>zfs.get_dataset(n).properties["origin"]\<close>: the dataset may not exist; the property may
  be falsy.
\<close>

datatype origin_lookup = NoSuchDataset | OriginProperty "string option"

text \<open>
  \<^verbatim>\<open>open(f"{mountpoint}/config.json")\<close> followed by \<^verbatim>\<open>json.load\<close>, as \<^verbatim>\<open>list_all_quick\<close>
  tells the outcomes apart.
\<close>

datatype quick_conf = ConfLoaded conf | ConfFileNotFound | ConfOtherError

text \<open>
  \<^verbatim>\<open>plugin/ui.json\<close>: missing, not JSON, or an object with the optional keys
  \<^verbatim>\<open>adminportal\<close> and \<^verbatim>\<open>adminportal_placeholders\<close> (its items in file order).
\<close>

datatype ui_file =
    UiNotFound
  | UiNotJSON
  | UiData "string option" "(string \<times> string) list option"

text \<open>\<^verbatim>\<open>IOCJson(mountpoint).json_plugin_get_value(path)\<close>.\<close>

datatype plugin_value = PluginValue string | PluginKeyError | CommandFailed "string list"

text \<open>
  Everything \<^verbatim>\<open>ioc_list.py\<close> asks of the host and of the modules that are not part of this
  file. \<^verbatim>\<open>json_get_value_all\<close> is \<^verbatim>\<open>IOCJson(mountpoint).json_get_value('all')\<close>, with \<^verbatim>\<open>None\<close>
  for any exception or \<^verbatim>\<open>SystemExit\<close>; \<^verbatim>\<open>default_props\<close> are the keys of
  \<^verbatim>\<open>IOCJson().json_get_value('all', default=True)\<close>; \<^verbatim>\<open>logit\<close> tells whether
  \<^verbatim>\<open>ioc_common.logit\<close> returns for a level and a message (it raises otherwise);
  \<^verbatim>\<open>check_output\<close> runs a command line, for \<^verbatim>\<open>ioc_common.checkoutput\<close> (the output as
  text) and for \<^verbatim>\<open>subprocess.check_output\<close> (the output as bytes).
\<close>

record world =
  json_get_value_all :: "string \<Rightarrow> conf option"
  default_props :: "string list"
  open_config_json :: "string \<Rightarrow> quick_conf"
  logit :: "string \<Rightarrow> string \<Rightarrow> bool"
  check_output :: "string list \<Rightarrow> proc_result"
  get_dataset_origin :: "string \<Rightarrow> origin_lookup"
  geteuid :: nat
  open_ui_json :: "string \<Rightarrow> ui_file"
  json_plugin_get_value :: "string \<Rightarrow> string list \<Rightarrow> plugin_value"

text \<open>The attributes of \<^verbatim>\<open>IOCList\<close> that the listing reads.\<close>

record ioclist =
  list_type :: string
  header :: bool
  full :: bool
  plugin :: bool
  quick :: bool

definition basejail_only :: "ioclist \<Rightarrow> bool" where
  "basejail_only l = (if list_type l \<noteq> ''basejail'' then False else True)"

text \<open>Exceptions as values: \<^verbatim>\<open>Inl\<close> is a raised exception that nothing catches.\<close>

definition bind :: "py_error + 'a \<Rightarrow> ('a \<Rightarrow> py_error + 'b) \<Rightarrow> py_error + 'b" where
  "bind m f = (case m of Inl e \<Rightarrow> Inl e | Inr x \<Rightarrow> f x)"

text \<open>\<^verbatim>\<open>conf[k]\<close> and \<^verbatim>\<open>conf.get(k, d)\<close>.\<close>

definition getitem :: "conf \<Rightarrow> string \<Rightarrow> py_error + string" where
  "getitem conf k = (case conf k of None \<Rightarrow> Inl (KeyError k) | Some v \<Rightarrow> Inr v)"

definition get :: "conf \<Rightarrow> string \<Rightarrow> string \<Rightarrow> string" where
  "get conf k d = (case conf k of None \<Rightarrow> d | Some v \<Rightarrow> v)"

section \<open>\<^verbatim>\<open>IOCList.list_get_jid\<close>\<close>

definition list_get_jid_argv :: "string \<Rightarrow> string list" where
  "list_get_jid_argv uuid = [''jls'', ''-j'', ''ioc-'' @ replace ''.'' ''_'' uuid]"

definition list_get_jid :: "world \<Rightarrow> string \<Rightarrow> py_error + (bool \<times> string)" where
  "list_get_jid w uuid =
     (case check_output w (list_get_jid_argv uuid) of
        Exit0 out \<Rightarrow> bind (index (str_split out) 5) (\<lambda>jid. Inr (True, jid))
      | CalledProcessError e \<Rightarrow> Inr (False, ''-'')
      | Raises e \<Rightarrow> Inl e)"

section \<open>\<^verbatim>\<open>IOCList.list_all\<close>\<close>

text \<open>Lines 175 to 185: the configuration made up for a corrupt jail.\<close>

definition corrupt_conf :: "world \<Rightarrow> dataset \<Rightarrow> conf" where
  "corrupt_conf w jail =
     ((\<lambda>x. if x \<in> set (default_props w) then Some ''N/A'' else None)
        (''host_hostuuid'' \<mapsto> last (split_chr CHR ''/'' (name jail)),
         ''release'' \<mapsto> ''N/A''))"

text \<open>Lines 241 to 255: the template a jail was cloned from.\<close>

definition template_of :: "world \<Rightarrow> dataset \<Rightarrow> string \<Rightarrow> py_error + string" where
  "template_of w jail conf_type =
     bind (if conf_type = ''template'' then Inr ''-''
           else (case get_dataset_origin w (name jail @ ''/root'') of
                   NoSuchDataset \<Rightarrow> Inl (ZFSException (name jail @ ''/root''))
                 | OriginProperty None \<Rightarrow> Inr ''-''
                 | OriginProperty (Some v) \<Rightarrow>
                     if v \<noteq> [] then Inr (last (rsplit1 ''/'' (hd (rsplit1 ''/root@'' v))))
                     else Inr ''-''))
       (\<lambda>template.
          if contains ''release'' (lower template) \<or> contains ''stable'' (lower template)
          then Inr ''-'' else Inr template)"

text \<open>
  Lines 257 to 280: the address of a jail with DHCP. \<^verbatim>\<open>status\<close> is the local variable of
  that name, \<^verbatim>\<open>None\<close> while nothing was assigned to it. The result is the commands run,
  \<^verbatim>\<open>short_ip4\<close> and \<^verbatim>\<open>full_ip4\<close>.
\<close>

definition dhcp_interface :: "string \<Rightarrow> string" where
  "dhcp_interface interfaces =
     (case hd (split_chr CHR '':'' (hd (split_chr CHR '','' interfaces))) of interface \<Rightarrow>
        if interface = ''vnet0'' then replace ''vnet'' ''epair'' interface @ ''b'' else interface)"

definition ifconfig_argv :: "string \<Rightarrow> string \<Rightarrow> string list" where
  "ifconfig_argv uuid_full interface =
     [''jexec'', ''ioc-'' @ replace ''.'' ''_'' uuid_full, ''ifconfig'', interface, ''inet'']"

definition dhcp_resolve ::
  "world \<Rightarrow> conf \<Rightarrow> bool option \<Rightarrow> string \<Rightarrow> string \<Rightarrow> string \<Rightarrow>
   py_error + (string list list \<times> string \<times> string)" where
  "dhcp_resolve w conf status uuid_full short_ip4 full_ip4 =
     bind (getitem conf ''dhcp'') (\<lambda>dhcp.
       if dhcp \<noteq> ''on'' then Inr ([], short_ip4, full_ip4)
       else (case status of
               None \<Rightarrow> Inl (UnboundLocalError ''status'')
             | Some st \<Rightarrow>
                 if st \<and> geteuid w = 0 then
                   bind (getitem conf ''interfaces'') (\<lambda>interfaces.
                     case dhcp_interface interfaces of interface \<Rightarrow>
                       (case check_output w (ifconfig_argv uuid_full interface) of
                          CalledProcessError e \<Rightarrow>
                            Inr ([ifconfig_argv uuid_full interface],
                                 ''DHCP'' @ ''(Network Issue)'', ''DHCP - Network Issue:'' @ e)
                        | Exit0 out \<Rightarrow>
                            bind (index (splitlines out) 2) (\<lambda>line.
                            bind (index (bytes_split line) 1) (\<lambda>field.
                              (case decode field of
                                 NotUtf8 \<Rightarrow> Inl UnicodeDecodeError
                               | Beyond points \<Rightarrow> Inl (WideText points)
                               | Decoded addr \<Rightarrow>
                                   Inr ([ifconfig_argv uuid_full interface],
                                        ''DHCP'', interface @ ''|'' @ addr))))
                        | Raises e \<Rightarrow> Inl e))
                 else if \<not> st then Inr ([], ''DHCP'', ''DHCP (not running)'')
                 else if geteuid w \<noteq> 0
                 then Inr ([], ''DHCP'', ''DHCP (running -- address requires root)'')
                 else Inr ([], short_ip4, full_ip4)))"

text \<open>Lines 291 to 320: the portal of a plugin.\<close>

fun placeholders ::
  "world \<Rightarrow> string \<Rightarrow> string \<Rightarrow> (string \<times> string) list \<Rightarrow> py_error + string" where
  "placeholders w mp admin_portal [] = Inr admin_portal"
| "placeholders w mp admin_portal ((placeholder, prop) # ph) =
     (case json_plugin_get_value w mp (split_chr CHR ''.'' prop) of
        PluginValue v \<Rightarrow> placeholders w mp (replace placeholder v admin_portal) ph
      | PluginKeyError \<Rightarrow> Inr admin_portal
      | CommandFailed message \<Rightarrow>
          if geteuid w = 0
          then (case decode (join '' '' message) of
                  NotUtf8 \<Rightarrow> Inl UnicodeDecodeError
                | Beyond points \<Rightarrow> Inl (WideText points)
                | Decoded portal \<Rightarrow> Inr portal)
          else Inr ''Admin Portal requires root'')"

definition portal_ip :: "string \<Rightarrow> string" where
  "portal_ip full_ip4 =
     (case split1_chr CHR ''|'' full_ip4 of ip \<Rightarrow>
        if \<not> contains ''DHCP'' full_ip4
        then hd (split1_chr CHR ''/'' (if length ip \<noteq> 1 then ip ! 1 else ip ! 0))
        else ''DHCP'')"

definition admin_portal_of :: "world \<Rightarrow> string \<Rightarrow> string \<Rightarrow> py_error + string" where
  "admin_portal_of w mp full_ip4 =
     (case open_ui_json w mp of
        UiNotFound \<Rightarrow> Inr ''-''
      | UiNotJSON \<Rightarrow> Inl JSONDecodeError
      | UiData adminportal adminportal_placeholders \<Rightarrow>
          (case adminportal of
             None \<Rightarrow> Inl (KeyError ''adminportal'')
           | Some url \<Rightarrow>
               (case adminportal_placeholders of
                  None \<Rightarrow> Inr (replace ''%%IP%%'' (portal_ip full_ip4) url)
                | Some ph \<Rightarrow>
                    placeholders w mp (replace ''%%IP%%'' (portal_ip full_ip4) url) ph)))"

text \<open>
  The local variables of one turn of the loop, as they stand at line 282. The variables
  \<^verbatim>\<open>status\<close> and \<^verbatim>\<open>jid\<close> live on from one turn to the next.
\<close>

record fields =
  jid :: string
  uuid :: string
  boot :: string
  state :: string
  jail_type :: string
  full_release :: string
  short_release :: string
  full_ip4 :: string
  short_ip4 :: string
  ip6 :: string
  template :: string

type_synonym locals = "bool option \<times> string option"

text \<open>Lines 166 to 187: the configuration, \<^verbatim>\<open>state\<close> and \<^verbatim>\<open>jid\<close>.\<close>

definition load_conf :: "world \<Rightarrow> dataset \<Rightarrow> string option \<Rightarrow> conf \<times> string \<times> string option" where
  "load_conf w jail jid0 =
     (case json_get_value_all w (mountpoint jail) of
        Some conf \<Rightarrow> (conf, [], jid0)
      | None \<Rightarrow> (corrupt_conf w jail, ''CORRUPT'', Some ''-''))"

text \<open>Lines 232 to 239.\<close>

definition run_state ::
  "world \<Rightarrow> string \<Rightarrow> string \<Rightarrow> locals \<Rightarrow> py_error + (locals \<times> string list list \<times> string)" where
  "run_state w state0 uuid_full loc =
     (if state0 \<noteq> ''CORRUPT''
      then bind (list_get_jid w uuid_full) (\<lambda>r.
             case r of (st, j) \<Rightarrow>
               Inr ((Some st, Some j), [list_get_jid_argv uuid_full], if st then ''up'' else ''down''))
      else Inr (loc, [], state0))"

text \<open>
  Lines 165 to 280. \<^verbatim>\<open>None\<close> for the fields is the \<^verbatim>\<open>continue\<close> of line 190. The attribute
  \<^verbatim>\<open>full\<close> is the one \<^verbatim>\<open>list_all\<close> has set at line 161.
\<close>

definition jail_fields ::
  "world \<Rightarrow> ioclist \<Rightarrow> locals \<Rightarrow> dataset \<Rightarrow>
   py_error + (locals \<times> string list list \<times> fields option)" where
  "jail_fields w l loc jail =
     (case load_conf w jail (snd loc) of
        (conf, state0, jid0) \<Rightarrow>
          if basejail_only l \<and> get conf ''basejail'' ''no'' \<noteq> ''yes''
          then Inr ((fst loc, jid0), [], None)
          else
            bind (getitem conf ''host_hostuuid'') (\<lambda>uuid_full.
            bind (getitem conf ''ip4_addr'') (\<lambda>ip4_addr.
            bind (getitem conf ''ip6_addr'') (\<lambda>ip6_addr.
            bind (getitem conf ''boot'') (\<lambda>boot.
            bind (getitem conf ''type'') (\<lambda>jail_type.
            bind (getitem conf ''release'') (\<lambda>release.
            bind (run_state w state0 uuid_full (fst loc, jid0)) (\<lambda>r.
            case r of (loc1, calls1, state1) \<Rightarrow>
            bind (template_of w jail jail_type) (\<lambda>template.
            bind (dhcp_resolve w conf (fst loc1) uuid_full (short_ip4_of ip4_addr)
                    (if ip4_addr = ''none'' then ''-'' else ip4_addr)) (\<lambda>d.
            case d of (calls2, short1, full1) \<Rightarrow>
            bind (case snd loc1 of None \<Rightarrow> Inl (UnboundLocalError ''jid'') | Some j \<Rightarrow> Inr j)
              (\<lambda>jid.
                Inr (loc1, calls1 @ calls2,
                     Some \<lparr>jid = jid,
                           uuid = (if \<not> full l then uuid_display uuid_full else uuid_full),
                           boot = boot, state = state1, jail_type = jail_type,
                           full_release = fst (release_forms release),
                           short_release = snd (release_forms release),
                           full_ip4 = full1, short_ip4 = short1,
                           ip6 = (if ip6_addr = ''none'' then ''-'' else ip6_addr),
                           template = template\<rparr>))))))))))))"

text \<open>Lines 164 to 330: one turn of the loop; the row appended to \<^verbatim>\<open>jail_list\<close>, if any.\<close>

definition list_all_jail ::
  "world \<Rightarrow> ioclist \<Rightarrow> locals \<Rightarrow> dataset \<Rightarrow>
   py_error + (locals \<times> string list list \<times> string list option)" where
  "list_all_jail w l loc jail =
     bind (jail_fields w l loc jail) (\<lambda>r.
       case r of
         (loc1, calls, None) \<Rightarrow> Inr (loc1, calls, None)
       | (loc1, calls, Some f) \<Rightarrow>
           if full l \<and> plugin l then
             (if jail_type f \<noteq> ''plugin'' \<and> jail_type f \<noteq> ''pluginv2''
              then Inr (loc1, calls, None)
              else bind (admin_portal_of w (mountpoint jail) (full_ip4 f)) (\<lambda>admin_portal.
                     Inr (loc1, calls,
                          Some [jid f, uuid f, boot f, state f, jail_type f, full_release f,
                                full_ip4 f, ip6 f, template f, admin_portal])))
           else if full l then
             Inr (loc1, calls,
                  Some [jid f, uuid f, boot f, state f, jail_type f, full_release f,
                        full_ip4 f, ip6 f, template f])
           else Inr (loc1, calls, Some [jid f, uuid f, state f, short_release f, short_ip4 f]))"

text \<open>The loop: \<^verbatim>\<open>jail_list\<close> and the commands run, in order.\<close>

fun list_all_loop ::
  "world \<Rightarrow> ioclist \<Rightarrow> locals \<Rightarrow> dataset list \<Rightarrow>
   py_error + (string list list \<times> string list list)" where
  "list_all_loop w l loc [] = Inr ([], [])"
| "list_all_loop w l loc (jail # jails) =
     bind (list_all_jail w l loc jail) (\<lambda>r.
       case r of (loc1, calls, row) \<Rightarrow>
         bind (list_all_loop w l loc1 jails) (\<lambda>r'.
           case r' of (jail_list, calls') \<Rightarrow>
             Inr ((case row of None \<Rightarrow> jail_list | Some x \<Rightarrow> x # jail_list), calls @ calls')))"

text \<open>
  What a listing returns: the rows themselves, or the table drawn from the rows under
  their header row.
\<close>

datatype listing = Rows "string list list" | Table "string list list"

text \<open>
  \<^verbatim>\<open>list_all\<close> (\<^verbatim>\<open>list_all_ioc\<close> here, the list library has a \<^verbatim>\<open>list_all\<close> of its own). The
  key that \<^verbatim>\<open>ioc_common.ioc_sort\<close> returns is a parameter; \<^verbatim>\<open>list.sort\<close> is stable.
\<close>

definition list_all_ioc ::
  "world \<Rightarrow> ioclist \<Rightarrow> (string list \<Rightarrow> 'k::linorder) \<Rightarrow> dataset list \<Rightarrow> py_error + listing" where
  "list_all_ioc w l0 key jails =
     (case l0\<lparr>full := (if plugin l0 then True else full l0)\<rparr> of l \<Rightarrow>
        bind (list_all_loop w l (None, None) jails) (\<lambda>r.
          case sort_key key (fst r) of jail_list \<Rightarrow>
            if \<not> header l then Inr (Rows jail_list)
            else if full l then
              (if plugin l
               then Inr (Table ([''JID'', ''NAME'', ''BOOT'', ''STATE'', ''TYPE'', ''RELEASE'',
                                 ''IP4'', ''IP6'', ''TEMPLATE'', ''PORTAL''] # jail_list))
               else Inr (Table ([''JID'', ''NAME'', ''BOOT'', ''STATE'', ''TYPE'', ''RELEASE'',
                                 ''IP4'', ''IP6'', ''TEMPLATE''] # jail_list)))
            else Inr (Table ([''JID'', ''NAME'', ''STATE'', ''RELEASE'', ''IP4''] # jail_list))))"

section \<open>\<^verbatim>\<open>IOCList.list_all_quick\<close>\<close>

text \<open>Lines 124 to 129.\<close>

definition quick_corrupt_conf :: "string \<Rightarrow> conf" where
  "quick_corrupt_conf mp =
     [''host_hostuuid'' \<mapsto> last (rsplit1 ''/'' mp) @ '' - CORRUPTED'',
      ''ip4_addr'' \<mapsto> ''N/A'', ''dhcp'' \<mapsto> ''N/A'']"

definition missing_message :: "string \<Rightarrow> string" where
  "missing_message mp =
     last (rsplit1 ''/'' mp) @ '' is missing its configuration file.'' @ [char_of (10::nat)] @
     ''Please run just '' @ [char_of (39::nat)] @ ''list'' @ [char_of (39::nat)] @
     '' instead to create it.''"

text \<open>
  One turn of the loop of \<^verbatim>\<open>list_all_quick\<close>. The local variable \<^verbatim>\<open>conf\<close> lives on from one
  turn to the next; it is \<^verbatim>\<open>None\<close> while nothing was assigned to it.
\<close>

definition list_all_quick_jail ::
  "world \<Rightarrow> ioclist \<Rightarrow> conf option \<Rightarrow> dataset \<Rightarrow> py_error + (conf option \<times> string list option)" where
  "list_all_quick_jail w l conf0 jail =
     bind (case open_config_json w (mountpoint jail) of
             ConfLoaded c \<Rightarrow> Inr (Some c)
           | ConfFileNotFound \<Rightarrow>
               if logit w ''EXCEPTION'' (missing_message (mountpoint jail)) then Inr conf0
               else Inl (Raised (missing_message (mountpoint jail)))
           | ConfOtherError \<Rightarrow> Inr (Some (quick_corrupt_conf (mountpoint jail))))
       (\<lambda>conf1.
          case conf1 of
            None \<Rightarrow> Inl (UnboundLocalError ''conf'')
          | Some conf \<Rightarrow>
              bind (getitem conf ''host_hostuuid'') (\<lambda>uuid.
                case get conf ''ip4_addr'' ''none'' of ip4 \<Rightarrow>
                  if basejail_only l \<and> get conf ''basejail'' ''no'' \<noteq> ''yes''
                  then Inr (conf1, None)
                  else Inr (conf1, Some [uuid, if get conf ''dhcp'' ''off'' \<noteq> ''on'' then ip4 else ''DHCP''])))"

fun list_all_quick_loop ::
  "world \<Rightarrow> ioclist \<Rightarrow> conf option \<Rightarrow> dataset list \<Rightarrow> py_error + string list list" where
  "list_all_quick_loop w l conf0 [] = Inr []"
| "list_all_quick_loop w l conf0 (jail # jails) =
     bind (list_all_quick_jail w l conf0 jail) (\<lambda>r.
       case r of (conf1, row) \<Rightarrow>
         bind (list_all_quick_loop w l conf1 jails) (\<lambda>jail_list.
           Inr (case row of None \<Rightarrow> jail_list | Some x \<Rightarrow> x # jail_list)))"

definition list_all_quick :: "world \<Rightarrow> ioclist \<Rightarrow> dataset list \<Rightarrow> py_error + listing" where
  "list_all_quick w l jails =
     bind (list_all_quick_loop w l None jails) (\<lambda>jail_list.
       if \<not> header l then Inr (Rows jail_list)
       else Inr (Table ([''NAME'', ''IP4''] # jail_list)))"

text \<open>The rows of jails in what a listing returned, without the header row.\<close>

definition records_of :: "listing \<Rightarrow> string list list" where
  "records_of out = (case out of Rows rs \<Rightarrow> rs | Table rs \<Rightarrow> tl rs)"

section \<open>Notions of the specification\<close>

text \<open>
  An entry \<^verbatim>\<open>interface|address/prefix\<close> of the raw IPv4 value, as the interface, the
  address and what follows the address (nothing, or \<^verbatim>\<open>/prefix\<close>). The interface and the
  address hold no comma and no \<^verbatim>\<open>|\<close>, the address holds no \<^verbatim>\<open>/\<close>.
\<close>

definition ip4_entry :: "string \<times> string \<times> string \<Rightarrow> string" where
  "ip4_entry e = (case e of (iface, addr, sfx) \<Rightarrow> iface @ ''|'' @ addr @ sfx)"

definition ip4_entry_ok :: "string \<times> string \<times> string \<Rightarrow> bool" where
  "ip4_entry_ok e =
     (case e of (iface, addr, sfx) \<Rightarrow>
        CHR '','' \<notin> set iface \<and> CHR ''|'' \<notin> set iface \<and>
        CHR '','' \<notin> set addr \<and> CHR ''|'' \<notin> set addr \<and> CHR ''/'' \<notin> set addr \<and>
        CHR '','' \<notin> set sfx \<and> (sfx = [] \<or> hd sfx = CHR ''/''))"

text \<open>
  The canonical form of a unique identifier: 36 characters, hexadecimal digits in groups
  of 8, 4, 4, 4 and 12 with a hyphen between the groups.
\<close>

definition is_hexdigit :: "char \<Rightarrow> bool" where
  "is_hexdigit c = (digit16 c \<noteq> None)"

definition canonical_uuid :: "string \<Rightarrow> bool" where
  "canonical_uuid s =
     (length s = 36 \<and>
      list_all is_hexdigit (take 8 s) \<and> s ! 8 = CHR ''-'' \<and>
      list_all is_hexdigit (take 4 (drop 9 s)) \<and> s ! 13 = CHR ''-'' \<and>
      list_all is_hexdigit (take 4 (drop 14 s)) \<and> s ! 18 = CHR ''-'' \<and>
      list_all is_hexdigit (take 4 (drop 19 s)) \<and> s ! 23 = CHR ''-'' \<and>
      list_all is_hexdigit (drop 24 s))"

text \<open>The number a string of hexadecimal digits denotes, and a number in a fixed width.\<close>

definition hexval :: "string \<Rightarrow> nat" where
  "hexval s = foldl (\<lambda>a c. 16 * a + the (digit16 c)) 0 s"

fun hexw :: "nat \<Rightarrow> nat \<Rightarrow> string" where
  "hexw 0 n = []"
| "hexw (Suc k) n = hexw k (n div 16) @ [hexchar (n mod 16)]"

text \<open>
  The last segment of a path, and the names that mark a base image: those in which the
  word \<^verbatim>\<open>release\<close> or the word \<^verbatim>\<open>stable\<close> stands somewhere, each of its letters small or
  capital. \<^verbatim>\<open>spells\<close> reads a word at the head of a name, \<^verbatim>\<open>mentions\<close> looks for it at every
  place.
\<close>

definition final_segment :: "string \<Rightarrow> string" where
  "final_segment p = rev (takeWhile (\<lambda>c. c \<noteq> CHR ''/'') (rev p))"

fun spells :: "string \<Rightarrow> string \<Rightarrow> string \<Rightarrow> bool" where
  "spells [] [] s = True"
| "spells (a # as) (A # As) (c # cs) = ((c = a \<or> c = A) \<and> spells as As cs)"
| "spells small capital s = False"

fun mentions :: "string \<Rightarrow> string \<Rightarrow> string \<Rightarrow> bool" where
  "mentions small capital [] = spells small capital []"
| "mentions small capital (c # cs) = (spells small capital (c # cs) \<or> mentions small capital cs)"

definition base_image_name :: "string \<Rightarrow> bool" where
  "base_image_name t = (mentions ''release'' ''RELEASE'' t \<or> mentions ''stable'' ''STABLE'' t)"

text \<open>
  The placeholders of a portal: \<^verbatim>\<open>resolvable\<close> says that every lookup gives a value,
  \<^verbatim>\<open>resolved\<close> is the URL after those replacements.
\<close>

definition resolved :: "world \<Rightarrow> string \<Rightarrow> string \<Rightarrow> (string \<times> string) list \<Rightarrow> string" where
  "resolved w mp url ph =
     foldl (\<lambda>u kp. case json_plugin_get_value w mp (split_chr CHR ''.'' (snd kp)) of
                      PluginValue v \<Rightarrow> replace (fst kp) v u | _ \<Rightarrow> u) url ph"

definition resolvable :: "world \<Rightarrow> string \<Rightarrow> (string \<times> string) list \<Rightarrow> bool" where
  "resolvable w mp ph =
     list_all (\<lambda>kp. case json_plugin_get_value w mp (split_chr CHR ''.'' (snd kp)) of
                      PluginValue v \<Rightarrow> True | _ \<Rightarrow> False) ph"

text \<open>
  What the failure of a dataset leaves in the row of that dataset. In \<^verbatim>\<open>list_all\<close>, outside
  the plugin view: a configuration that does not load gives the row of placeholders; a
  probe that exits with a non-zero status gives the jail id \<^verbatim>\<open>-\<close> and the state \<^verbatim>\<open>down\<close>; an
  \<^verbatim>\<open>ifconfig\<close> that exits with a non-zero status gives the address \<^verbatim>\<open>DHCP(Network Issue)\<close>, or
  \<^verbatim>\<open>DHCP - Network Issue:\<close> and the error in the full view. The second column is the name of
  the jail in every case. In \<^verbatim>\<open>list_all_quick\<close>: a file that does not parse gives the last
  segment of the mountpoint with \<^verbatim>\<open> - CORRUPTED\<close> and the address \<^verbatim>\<open>N/A\<close>.
\<close>

definition absorbed :: "world \<Rightarrow> ioclist \<Rightarrow> dataset \<Rightarrow> string list \<Rightarrow> bool" where
  "absorbed w l jail row =
     ((json_get_value_all w (mountpoint jail) = None \<longrightarrow>
         (\<exists>t. row =
            (if full l
             then [''-'', final_segment (name jail), ''N/A'', ''CORRUPT'', ''N/A'', ''N/A'',
                   ''N/A'', ''N/A'', t]
             else [''-'', uuid_display (final_segment (name jail)), ''CORRUPT'', ''N/A'',
                   ''N/A'']))) \<and>
      (\<forall>conf u. json_get_value_all w (mountpoint jail) = Some conf \<and>
           conf ''host_hostuuid'' = Some u \<longrightarrow>
         row ! 1 = (if full l then u else uuid_display u) \<and>
         (\<forall>e. check_output w (list_get_jid_argv u) = CalledProcessError e \<longrightarrow>
            row ! 0 = ''-'' \<and> row ! (if full l then 3 else 2) = ''down'') \<and>
         (\<forall>out i e. check_output w (list_get_jid_argv u) = Exit0 out \<and> geteuid w = 0 \<and>
               conf ''dhcp'' = Some ''on'' \<and> conf ''interfaces'' = Some i \<and>
               check_output w (ifconfig_argv u (dhcp_interface i)) = CalledProcessError e \<longrightarrow>
            row ! (if full l then 6 else 4) =
              (if full l then ''DHCP - Network Issue:'' @ e else ''DHCP(Network Issue)''))))"

definition absorbed_quick :: "world \<Rightarrow> dataset \<Rightarrow> string list \<Rightarrow> bool" where
  "absorbed_quick w jail row =
     ((open_config_json w (mountpoint jail) = ConfOtherError \<longrightarrow>
         row = [final_segment (mountpoint jail) @ '' - CORRUPTED'', ''N/A'']) \<and>
      (\<forall>c u. open_config_json w (mountpoint jail) = ConfLoaded c \<and>
           c ''host_hostuuid'' = Some u \<longrightarrow> row ! 0 = u))"

text \<open>
  What the listing needs beyond a configuration that loads and a command that exits with
  zero or not: the keys it reads, the fields it indexes, an address that decodes to a
  text of characters below 256, no other exception from a command, the root dataset, and
  in the plugin view a portal descriptor with its URL and, for root, messages of failed
  commands that decode likewise. For the quick listing: the file exists, and a file that
  loads has the name.
\<close>

definition full_inputs_ok :: "world \<Rightarrow> ioclist \<Rightarrow> dataset list \<Rightarrow> bool" where
  "full_inputs_ok w l jails =
     ((\<forall>jail\<in>set jails. \<forall>conf. json_get_value_all w (mountpoint jail) = Some conf \<longrightarrow>
         {''host_hostuuid'', ''ip4_addr'', ''ip6_addr'', ''boot'', ''type'', ''release'',
          ''dhcp'', ''interfaces''} \<subseteq> dom conf) \<and>
      {''ip4_addr'', ''ip6_addr'', ''boot'', ''type'', ''dhcp''} \<subseteq> set (default_props w) \<and>
      (\<forall>u out. check_output w (list_get_jid_argv u) = Exit0 out \<longrightarrow>
         5 < length (str_split out)) \<and>
      (\<forall>u i out. check_output w (ifconfig_argv u i) = Exit0 out \<longrightarrow>
         2 < length (splitlines out) \<and> 1 < length (bytes_split (splitlines out ! 2)) \<and>
         (\<exists>a. decode (bytes_split (splitlines out ! 2) ! 1) = Decoded a)) \<and>
      (\<forall>argv e. check_output w argv \<noteq> Raises e) \<and>
      (\<forall>jail\<in>set jails. get_dataset_origin w (name jail @ ''/root'') \<noteq> NoSuchDataset) \<and>
      (plugin l \<longrightarrow>
         (\<forall>jail\<in>set jails. open_ui_json w (mountpoint jail) \<noteq> UiNotJSON \<and>
            (\<forall>p. open_ui_json w (mountpoint jail) \<noteq> UiData None p) \<and>
            (geteuid w = 0 \<longrightarrow>
               (\<forall>path m. json_plugin_get_value w (mountpoint jail) path = CommandFailed m \<longrightarrow>
                  (\<exists>a. decode (join '' '' m) = Decoded a))))))"

definition quick_inputs_ok :: "world \<Rightarrow> dataset list \<Rightarrow> bool" where
  "quick_inputs_ok w jails =
     (\<forall>jail\<in>set jails. open_config_json w (mountpoint jail) \<noteq> ConfFileNotFound \<and>
        (\<forall>c. open_config_json w (mountpoint jail) = ConfLoaded c \<longrightarrow>
           c ''host_hostuuid'' \<noteq> None))"

section \<open>An example host\<close>

text \<open>
  Four datasets under \<^verbatim>\<open>zroot/iocage/jails\<close>: \<^verbatim>\<open>web.1\<close> runs, is a clone of the template \<^verbatim>\<open>tpl\<close>
  and has a static address; \<^verbatim>\<open>bad\<close> has a configuration that does not load; \<^verbatim>\<open>dh\<close> uses
  DHCP and is down; \<^verbatim>\<open>plug\<close> is a plugin that uses DHCP and runs. The caller is root.
\<close>

definition ex_conf :: conf where
  "ex_conf =
     [''host_hostuuid'' \<mapsto> ''web.1'', ''ip4_addr'' \<mapsto> ''vnet0|10.0.0.5/24'',
      ''ip6_addr'' \<mapsto> ''none'', ''boot'' \<mapsto> ''on'', ''type'' \<mapsto> ''jail'',
      ''release'' \<mapsto> ''11.2-RELEASE-p4'', ''dhcp'' \<mapsto> ''off'',
      ''interfaces'' \<mapsto> ''vnet0:bridge0'', ''basejail'' \<mapsto> ''yes'']"

definition ex_ifconfig :: string where
  "ex_ifconfig =
     ''epair0b: flags=8843 metric 0 mtu 1500'' @ [char_of (10::nat)] @
     ''options=8'' @ [char_of (10::nat)] @
     ''inet 10.0.0.9 netmask 0xffffff00 broadcast 10.0.0.255'' @ [char_of (10::nat)]"

definition ex_world :: world where
  "ex_world =
     \<lparr>json_get_value_all = (\<lambda>mp.
        if mp = ''/iocage/jails/web.1'' then Some ex_conf
        else if mp = ''/iocage/jails/dh''
        then Some (ex_conf(''host_hostuuid'' \<mapsto> ''dh'', ''dhcp'' \<mapsto> ''on'', ''basejail'' \<mapsto> ''no''))
        else if mp = ''/iocage/jails/plug''
        then Some (ex_conf(''host_hostuuid'' \<mapsto> ''plug'', ''dhcp'' \<mapsto> ''on'', ''type'' \<mapsto> ''pluginv2''))
        else None),
      default_props = [''host_hostuuid'', ''ip4_addr'', ''ip6_addr'', ''boot'', ''type'',
                       ''release'', ''dhcp'', ''interfaces'', ''basejail''],
      open_config_json = (\<lambda>mp.
        if mp = ''/iocage/jails/web.1'' then ConfLoaded ex_conf
        else if mp = ''/iocage/jails/bad'' then ConfOtherError
        else ConfFileNotFound),
      logit = (\<lambda>level message. False),
      check_output = (\<lambda>argv.
        if argv = [''jls'', ''-j'', ''ioc-web_1'']
        then Exit0 ''   JID  IP Address      Hostname      Path     7  10.0.0.5  web.1  /iocage/jails/web.1/root''
        else if argv = [''jls'', ''-j'', ''ioc-plug'']
        then Exit0 ''   JID  IP Address      Hostname      Path     9  -  plug  /iocage/jails/plug/root''
        else if argv = [''jexec'', ''ioc-plug'', ''ifconfig'', ''epair0b'', ''inet'']
        then Exit0 ex_ifconfig
        else CalledProcessError ''Command returned non-zero exit status 1.''),
      get_dataset_origin = (\<lambda>n.
        if n = ''zroot/iocage/jails/web.1/root''
        then OriginProperty (Some ''zroot/iocage/templates/tpl/root@web.1'')
        else if n = ''zroot/iocage/jails/bad/root''
        then OriginProperty (Some ''zroot/iocage/releases/11.2-RELEASE/root@bad'')
        else OriginProperty None),
      geteuid = 0,
      open_ui_json = (\<lambda>mp.
        if mp = ''/iocage/jails/plug''
        then UiData (Some ''http://%%IP%%:%%PORT%%/admin'') (Some [(''%%PORT%%'', ''net.port'')])
        else UiNotFound),
      json_plugin_get_value = (\<lambda>mp path.
        if path = [''net'', ''port''] then PluginValue ''8080'' else PluginKeyError)\<rparr>"

definition ex_list :: ioclist where
  "ex_list = \<lparr>list_type = ''all'', header = False, full = False, plugin = False, quick = False\<rparr>"

definition ex_jail :: "string \<Rightarrow> dataset" where
  "ex_jail n = \<lparr>name = ''zroot/iocage/jails/'' @ n, mountpoint = ''/iocage/jails/'' @ n\<rparr>"

definition ex_web :: fields where
  "ex_web = \<lparr>jid = ''7'', uuid = ''web.1'', boot = ''on'', state = ''up'', jail_type = ''jail'',
            full_release = ''11.2-RELEASE-p4'', short_release = ''11.2-RELEASE'',
            full_ip4 = ''vnet0|10.0.0.5/24'', short_ip4 = ''10.0.0.5'', ip6 = ''-'',
            template = ''tpl''\<rparr>"

definition ex_dh :: fields where
  "ex_dh = \<lparr>jid = ''-'', uuid = ''dh'', boot = ''on'', state = ''down'', jail_type = ''jail'',
            full_release = ''11.2-RELEASE-p4'', short_release = ''11.2-RELEASE'',
            full_ip4 = ''DHCP (not running)'', short_ip4 = ''DHCP'', ip6 = ''-'',
            template = ''-''\<rparr>"

definition ex_plug :: fields where
  "ex_plug = \<lparr>jid = ''9'', uuid = ''plug'', boot = ''on'', state = ''up'', jail_type = ''pluginv2'',
            full_release = ''11.2-RELEASE-p4'', short_release = ''11.2-RELEASE'',
            full_ip4 = ''epair0b|10.0.0.9'', short_ip4 = ''DHCP'', ip6 = ''-'',
            template = ''-''\<rparr>"

definition ex_plugin_view :: ioclist where
  "ex_plugin_view = ex_list\<lparr>full := True, plugin := True\<rparr>"

definition ex_jails :: "dataset list" where
  "ex_jails = [ex_jail ''web.1'', ex_jail ''bad'', ex_jail ''dh'', ex_jail ''plug'']"

definition ex_basejail :: ioclist where
  "ex_basejail = ex_list\<lparr>list_type := ''basejail''\<rparr>"

text \<open>
  A second host, which has more: \<^verbatim>\<open>dh\<close> is a clone of the release \<^verbatim>\<open>11.2-RELEASE\<close>, \<^verbatim>\<open>tmpl\<close> is a
  template cloned from \<^verbatim>\<open>tpl\<close>, and there are four plugins that are down: \<^verbatim>\<open>pstat\<close> with a
  static address and a portal whose second placeholder is unknown, \<^verbatim>\<open>pdown\<close> with DHCP and a
  portal without placeholders, \<^verbatim>\<open>pfail\<close> with a portal whose placeholder names a command that
  fails, and \<^verbatim>\<open>pnone\<close> without a portal.
\<close>

definition ex_host :: world where
  "ex_host = ex_world
     \<lparr>json_get_value_all := (\<lambda>mp.
        if mp = ''/iocage/jails/tmpl''
        then Some (ex_conf(''host_hostuuid'' \<mapsto> ''tmpl'', ''type'' \<mapsto> ''template''))
        else if mp = ''/iocage/jails/pstat''
        then Some (ex_conf(''host_hostuuid'' \<mapsto> ''pstat'', ''type'' \<mapsto> ''plugin''))
        else if mp = ''/iocage/jails/pdown''
        then Some (ex_conf(''host_hostuuid'' \<mapsto> ''pdown'', ''type'' \<mapsto> ''plugin'', ''dhcp'' \<mapsto> ''on''))
        else if mp = ''/iocage/jails/pfail''
        then Some (ex_conf(''host_hostuuid'' \<mapsto> ''pfail'', ''type'' \<mapsto> ''plugin''))
        else if mp = ''/iocage/jails/pnone''
        then Some (ex_conf(''host_hostuuid'' \<mapsto> ''pnone'', ''type'' \<mapsto> ''plugin''))
        else json_get_value_all ex_world mp),
      get_dataset_origin := (\<lambda>n.
        if n = ''zroot/iocage/jails/dh/root''
        then OriginProperty (Some ''zroot/iocage/releases/11.2-RELEASE/root@dh'')
        else if n = ''zroot/iocage/jails/tmpl/root''
        then OriginProperty (Some ''zroot/iocage/templates/tpl/root@tmpl'')
        else get_dataset_origin ex_world n),
      open_ui_json := (\<lambda>mp.
        if mp = ''/iocage/jails/pstat''
        then UiData (Some ''http://%%IP%%:%%PORT%%/%%PATH%%'')
               (Some [(''%%PORT%%'', ''net.port''), (''%%PATH%%'', ''web.path'')])
        else if mp = ''/iocage/jails/pdown'' then UiData (Some ''http://%%IP%%/'') None
        else if mp = ''/iocage/jails/pfail''
        then UiData (Some ''http://%%IP%%/'') (Some [(''%%STATUS%%'', ''svc.status'')])
        else open_ui_json ex_world mp),
      json_plugin_get_value := (\<lambda>mp path.
        if path = [''svc'', ''status''] then CommandFailed [''service'', ''failed'']
        else json_plugin_get_value ex_world mp path)\<rparr>"

text \<open>The first host when \<^verbatim>\<open>jexec\<close> exits with a non-zero status.\<close>

definition ex_no_net :: world where
  "ex_no_net = ex_world
     \<lparr>check_output := (\<lambda>argv.
        if take 1 argv = [''jexec'']
        then CalledProcessError ''Command returned non-zero exit status 1.''
        else check_output ex_world argv)\<rparr>"

definition ex_pdown :: fields where
  "ex_pdown = ex_dh\<lparr>uuid := ''pdown'', jail_type := ''plugin''\<rparr>"

definition ex_down :: "string \<Rightarrow> string \<Rightarrow> fields" where
  "ex_down n t =
     \<lparr>jid = ''-'', uuid = n, boot = ''on'', state = ''down'', jail_type = t,
      full_release = ''11.2-RELEASE-p4'', short_release = ''11.2-RELEASE'',
      full_ip4 = ''vnet0|10.0.0.5/24'', short_ip4 = ''10.0.0.5'', ip6 = ''-'',
      template = ''-''\<rparr>"

section \<open>Splitting and joining\<close>

lemma split_chr_nonempty: "split_chr sep s \<noteq> []"
  by (induction s) (auto split: list.splits)

lemma split_chr_free: "sep \<notin> set s \<Longrightarrow> split_chr sep s = [s]"
  by (induction s) auto

lemma split_chr_append:
  "sep \<notin> set a \<Longrightarrow> split_chr sep (a @ sep # b) = a # split_chr sep b"
  by (induction a) auto

lemma hd_split_chr: "hd (split_chr sep s) = takeWhile (\<lambda>c. c \<noteq> sep) s"
  by (induction s) (auto split: list.splits simp: split_chr_nonempty)

lemma takeWhile_free: "c \<notin> set a \<Longrightarrow> takeWhile (\<lambda>x. x \<noteq> c) a = a"
  by (induction a) auto

lemma split_chr_join:
  "xs \<noteq> [] \<Longrightarrow> \<forall>x \<in> set xs. sep \<notin> set x \<Longrightarrow> split_chr sep (join [sep] xs) = xs"
proof (induction xs)
  case Nil
  then show ?case by simp
next
  case (Cons x xs)
  show ?case
  proof (cases xs)
    case Nil
    with Cons.prems show ?thesis by (simp add: split_chr_free)
  next
    case (Cons y ys)
    with Cons.prems Cons.IH show ?thesis by (simp add: split_chr_append)
  qed
qed

section \<open>The short IPv4 form\<close>

lemma ip4_items_entries:
  "list_all ip4_entry_ok es \<Longrightarrow> ip4_items (map ip4_entry es) = Inr (map (\<lambda>e. fst (snd e)) es)"
proof (induction es)
  case Nil
  then show ?case by simp
next
  case (Cons e es)
  obtain i a s where e: "e = (i, a, s)" by (cases e)
  from Cons.prems e have ok: "CHR ''|'' \<notin> set i" "CHR ''|'' \<notin> set a" "CHR ''/'' \<notin> set a"
    "s = [] \<or> hd s = CHR ''/''" by (auto simp: ip4_entry_ok_def)
  have "index (split_chr CHR ''|'' (ip4_entry e)) 1 =
        Inr (takeWhile (\<lambda>c. c \<noteq> CHR ''|'') (a @ s))"
    using ok(1) split_chr_nonempty[of "CHR ''|''" "a @ s"]
    by (cases "split_chr CHR ''|'' (a @ s)")
      (auto simp: e ip4_entry_def index_def split_chr_append hd_split_chr[symmetric])
  moreover have "takeWhile (\<lambda>c. c \<noteq> CHR ''/'') (takeWhile (\<lambda>c. c \<noteq> CHR ''|'') (a @ s)) = a"
    using ok(2,3,4) by (cases s) (auto simp: takeWhile_append takeWhile_free)
  ultimately show ?case using Cons by (simp add: hd_split_chr e)
qed

lemma ip4_items_no_bar:
  assumes "CHR ''|'' \<notin> set raw"
  shows "\<exists>e. ip4_items (split_chr CHR '','' raw) = Inl e"
proof -
  obtain x xs where s: "split_chr CHR '','' raw = x # xs"
    using split_chr_nonempty[of "CHR '',''" raw] by (cases "split_chr CHR '','' raw") auto
  have "x = takeWhile (\<lambda>c. c \<noteq> CHR '','') raw"
    using hd_split_chr[of "CHR '',''" raw] s by simp
  then have "CHR ''|'' \<notin> set x" using assms by (metis set_takeWhileD)
  then show ?thesis using s by (simp add: split_chr_free index_def)
qed

lemma ip4_entries_no_comma:
  "list_all ip4_entry_ok es \<Longrightarrow> \<forall>x\<in>set (map ip4_entry es). CHR '','' \<notin> set x"
  by (auto simp: list_all_iff ip4_entry_ok_def ip4_entry_def)

text \<open>
  C4. The short IPv4 form of a comma-joined list of \<^verbatim>\<open>interface|address/prefix\<close> entries is
  the comma-joined list of the addresses; the short form of \<^verbatim>\<open>none\<close> is \<^verbatim>\<open>-\<close>; any other
  raw value without a \<^verbatim>\<open>|\<close> is its own short form.
\<close>

theorem short_ip4_extraction:
  "(list_all ip4_entry_ok es \<longrightarrow>
      short_ip4_of (join '','' (map ip4_entry es)) = join '','' (map (\<lambda>e. fst (snd e)) es)) \<and>
   short_ip4_of ''none'' = ''-'' \<and>
   (CHR ''|'' \<notin> set raw \<and> raw \<noteq> ''none'' \<longrightarrow> short_ip4_of raw = raw)"
proof (intro conjI impI)
  assume ok: "list_all ip4_entry_ok es"
  show "short_ip4_of (join '','' (map ip4_entry es)) = join '','' (map (\<lambda>e. fst (snd e)) es)"
  proof (cases es)
    case Nil
    then show ?thesis by (simp add: short_ip4_of_def index_def)
  next
    case (Cons e es')
    then have "split_chr CHR '','' (join '','' (map ip4_entry es)) = map ip4_entry es"
      using split_chr_join[of "map ip4_entry es" "CHR '',''"] ip4_entries_no_comma[OF ok]
      by simp
    then show ?thesis using ip4_items_entries[OF ok] by (simp add: short_ip4_of_def)
  qed
next
  show "short_ip4_of ''none'' = ''-''" by (simp add: short_ip4_of_def index_def)
next
  assume "CHR ''|'' \<notin> set raw \<and> raw \<noteq> ''none''"
  then show "short_ip4_of raw = raw"
    using ip4_items_no_bar[of raw] by (auto simp: short_ip4_of_def)
qed

theorem short_ip4_extraction_witness:
  "list_all ip4_entry_ok [(''vnet0'', ''10.0.0.5'', ''/24''), (''vnet1'', ''10.0.0.6'', [])] \<and>
   short_ip4_of ''vnet0|10.0.0.5/24,vnet1|10.0.0.6'' = ''10.0.0.5,10.0.0.6'' \<and>
   CHR ''|'' \<notin> set ''10.0.0.7'' \<and> ''10.0.0.7'' \<noteq> ''none'' \<and>
   short_ip4_of ''10.0.0.7'' = ''10.0.0.7''"
  using short_ip4_extraction
    [of "[(''vnet0'', ''10.0.0.5'', ''/24''), (''vnet1'', ''10.0.0.6'', [])]" "''10.0.0.7''"]
  by (simp add: ip4_entry_ok_def ip4_entry_def)

section \<open>Unique identifiers\<close>

lemma small_bit: "0 \<le> k \<Longrightarrow> k < 2 ^ m \<Longrightarrow> m \<le> j \<Longrightarrow> \<not> bit (k::int) j"
  by (metis bit_take_bit_iff not_less take_bit_int_eq_self)

lemma push_bit_small:
  "0 \<le> k \<Longrightarrow> k < 2 ^ m \<Longrightarrow> s + m \<le> j \<Longrightarrow> \<not> bit (push_bit s (k::int)) j"
  unfolding bit_push_bit_iff using small_bit[of k m "j - s"] by auto

lemma version_bits_high:
  assumes "\<not> bit i j" "\<not> bit (push_bit 48 b) j" "\<not> bit (push_bit 76 d) j"
  shows "bit ((((i AND NOT a) OR push_bit 48 b) AND NOT c) OR push_bit 76 d) j = bit (i::int) j"
  using assms by (simp add: bit_and_iff bit_or_iff bit_not_iff)

lemma version_bits_keep:
  assumes "\<not> bit a j" "\<not> bit (push_bit 48 b) j" "\<not> bit c j" "\<not> bit (push_bit 76 d) j"
  shows "bit ((((i AND NOT a) OR push_bit 48 b) AND NOT c) OR push_bit 76 d) j = bit (i::int) j"
  using assms by (simp add: bit_and_iff bit_or_iff bit_not_iff)

lemma set_version_drop: "drop_bit 96 (set_version i 4) = drop_bit 96 i"
proof (rule bit_eqI)
  fix n
  have a: "\<not> bit (push_bit 48 (0xC000::int)) (96 + n)" by (rule push_bit_small[where m=16]) simp_all
  have b: "\<not> bit (push_bit 48 (0x8000::int)) (96 + n)" by (rule push_bit_small[where m=16]) simp_all
  have c: "\<not> bit (push_bit 64 (0xF000::int)) (96 + n)" by (rule push_bit_small[where m=16]) simp_all
  have d: "\<not> bit (push_bit 76 (4::int)) (96 + n)" by (rule push_bit_small[where m=3]) simp_all
  show "bit (drop_bit 96 (set_version i 4)) n = bit (drop_bit 96 i) n"
    by (simp only: set_version_def bit_drop_bit_eq o_def version_bits_keep[OF a b c d])
qed

lemma set_version_nonneg: "0 \<le> i \<Longrightarrow> 0 \<le> set_version i 4"
  by (simp add: set_version_def)

lemma set_version_high: "0 \<le> i \<Longrightarrow> i < 2 ^ 128 \<Longrightarrow> \<not> bit (set_version i 4) (128 + n)"
proof -
  assume i: "0 \<le> i" "i < 2 ^ 128"
  have b: "\<not> bit (push_bit 48 (0x8000::int)) (128 + n)" by (rule push_bit_small[where m=16]) simp_all
  have d: "\<not> bit (push_bit 76 (4::int)) (128 + n)" by (rule push_bit_small[where m=3]) simp_all
  have e: "\<not> bit i (128 + n)" using i by (rule small_bit) simp
  show ?thesis
    unfolding set_version_def version_bits_high[OF e b d] by (rule e)
qed

lemma set_version_bound:
  assumes "0 \<le> i" "i < 2 ^ 128"
  shows "set_version i 4 < 2 ^ 128"
proof -
  have "take_bit 128 (set_version i 4) = set_version i 4"
  proof (rule bit_eqI)
    fix n
    show "bit (take_bit 128 (set_version i 4)) n = bit (set_version i 4) n"
    proof (cases "n < 128")
      case True
      then show ?thesis by (simp add: bit_take_bit_iff)
    next
      case False
      then obtain m where "n = 128 + m" using le_Suc_ex not_less by blast
      then show ?thesis using set_version_high[OF assms, of m] by (simp add: bit_take_bit_iff)
    qed
  qed
  then show ?thesis by (simp add: take_bit_int_eq_self_iff)
qed

lemma hex_nat_hexw: "0 < k \<Longrightarrow> n < 16 ^ k \<Longrightarrow> replicate (k - length (hex_nat n)) CHR ''0'' @ hex_nat n = hexw k n \<and> length (hex_nat n) \<le> k"
proof (induction k arbitrary: n)
  case 0 then show ?case by simp
next
  case (Suc k)
  show ?case
  proof (cases "n < 16")
    case True
    have z: "hexw k 0 = replicate k CHR ''0''" for k
      by (induction k) (simp_all add: hexchar_def replicate_append_same)
    from True show ?thesis by (simp add: hex_nat.simps[of n] z)
  next
    case False
    then have k: "0 < k" using Suc.prems by (cases k) auto
    have "n div 16 < 16 ^ k" using Suc.prems by (simp add: less_mult_imp_div_less mult.commute)
    from Suc.IH[OF k this] False show ?thesis
      by (simp add: hex_nat.simps[of n] Suc_diff_le)
  qed
qed

lemma length_hexw: "length (hexw m x) = m"
  by (induction m arbitrary: x) auto

lemma take_hexw: "take j (hexw (j + k) n) = hexw j (n div 16 ^ k)"
proof (induction k arbitrary: n)
  case 0 then show ?case by (simp add: length_hexw)
next
  case (Suc k)
  then show ?case using Suc[of "n div 16"] by (simp add: div_mult2_eq length_hexw)
qed


lemma code_inj: "code c = code d \<Longrightarrow> c = d"
  by (simp add: code_def)

lemma code_chr [simp]:
  "code CHR ''-'' = 45" "code CHR ''_'' = 95" "code CHR ''+'' = 43" "code CHR ''{'' = 123" "code CHR ''}'' = 125"
  "code CHR '':'' = 58" "code CHR ''x'' = 120" "code CHR ''X'' = 88"
  by (simp_all add: code_def)

lemma hexdigit_not:
  assumes "is_hexdigit c"
  shows "c \<noteq> CHR ''-''" "c \<noteq> CHR ''_''" "c \<noteq> CHR ''+''" "c \<noteq> CHR ''{''" "c \<noteq> CHR ''}''"
    "c \<noteq> CHR '':''" "c \<noteq> CHR ''x''" "c \<noteq> CHR ''X''" "\<not> int_isspace c"
  using assms by (auto simp: is_hexdigit_def digit16_def int_isspace_def split: if_splits)

lemma digit16_less: "digit16 c = Some d \<Longrightarrow> d < 16"
  by (auto simp: digit16_def split: if_splits)

lemma hexdigit_codes:
  assumes "digit16 c = Some d"
  shows "code c \<in> {48, 49, 50, 51, 52, 53, 54, 55, 56, 57, 65, 66, 67, 68, 69, 70,
                     97, 98, 99, 100, 101, 102}"
  using assms by (simp add: digit16_def split: if_splits) arith+

lemma char_of_code: "code c = k \<Longrightarrow> c = char_of k"
  by (auto simp: code_def)

lemma char_of_hex:
  "char_of (48::nat) = CHR ''0''" "char_of (49::nat) = CHR ''1''" "char_of (50::nat) = CHR
  ''2''" "char_of (51::nat) = CHR ''3''" "char_of (52::nat) = CHR ''4''" "char_of (53::nat)
  = CHR ''5''" "char_of (54::nat) = CHR ''6''" "char_of (55::nat) = CHR ''7''" "char_of
  (56::nat) = CHR ''8''" "char_of (57::nat) = CHR ''9''" "char_of (65::nat) = CHR ''A''"
  "char_of (66::nat) = CHR ''B''" "char_of (67::nat) = CHR ''C''" "char_of (68::nat) = CHR
  ''D''" "char_of (69::nat) = CHR ''E''" "char_of (70::nat) = CHR ''F''" "char_of (97::nat)
  = CHR ''a''" "char_of (98::nat) = CHR ''b''" "char_of (99::nat) = CHR ''c''" "char_of
  (100::nat) = CHR ''d''" "char_of (101::nat) = CHR ''e''" "char_of (102::nat) = CHR ''f''"
  by (rule code_inj, simp add: code_def)+

lemma hexdigit_chars:
  assumes "digit16 c = Some d"
  shows "c \<in> set ''0123456789ABCDEFabcdef''"
  using hexdigit_codes[OF assms]
  by (elim insertE emptyE) (drule char_of_code, simp add: char_of_hex)+

lemma hexchar_digit16: "digit16 c = Some d \<Longrightarrow> hexchar d = lower_chr c"
  using hexdigit_chars[of c d]
  by (auto simp: digit16_def hexchar_def lower_chr_def code_def char_of_hex)


lemma hexval_snoc: "hexval (s @ [c]) = 16 * hexval s + the (digit16 c)"
  by (simp add: hexval_def)

lemma hexval_less: "list_all is_hexdigit s \<Longrightarrow> hexval s < 16 ^ length s"
proof (induction s rule: rev_induct)
  case Nil
  then show ?case by (simp add: hexval_def)
next
  case (snoc c s)
  then obtain d where d: "digit16 c = Some d" by (auto simp: is_hexdigit_def)
  from snoc have "hexval s < 16 ^ length s" by simp
  then show ?case using digit16_less[OF d] by (simp add: hexval_snoc d)
qed

lemma hexval_append:
  "hexval (a @ b) = hexval a * 16 ^ length b + hexval b"
proof (induction b rule: rev_induct)
  case Nil
  then show ?case by (simp add: hexval_def)
next
  case (snoc c b)
  have "hexval (a @ b @ [c]) = 16 * hexval (a @ b) + the (digit16 c)"
    using hexval_snoc[of "a @ b" c] by simp
  then show ?case using snoc by (simp add: hexval_snoc algebra_simps)
qed

lemma hexw_hexval: "list_all is_hexdigit s \<Longrightarrow> hexw (length s) (hexval s) = lower s"
proof (induction s rule: rev_induct)
  case Nil
  then show ?case by (simp add: lower_def)
next
  case (snoc c s)
  then obtain d where d: "digit16 c = Some d" by (auto simp: is_hexdigit_def)
  have "hexw (length s) (hexval s) = lower s" using snoc by simp
  then show ?case
    using digit16_less[OF d] hexchar_digit16[OF d] by (simp add: hexval_snoc d lower_def)
qed

lemma scan_hexdigits:
  "list_all is_hexdigit s \<Longrightarrow>
   scan_digits16 False n acc s =
     Some (foldl (\<lambda>a c. 16 * a + the (digit16 c)) acc s, n + length s, [])"
proof (induction s arbitrary: n acc)
  case Nil
  then show ?case by simp
next
  case (Cons c s)
  then obtain d where d: "digit16 c = Some d" by (auto simp: is_hexdigit_def)
  have "c \<noteq> CHR ''_''" using Cons.prems hexdigit_not(2)[of c] by simp
  then show ?case using Cons d by simp
qed

lemma int16_hexdigits:
  assumes "list_all is_hexdigit s" "s \<noteq> []"
  shows "int16 s = Some (int (hexval s))"
proof -
  obtain c cs where s: "s = c # cs" using assms(2) by (cases s) auto
  have c: "is_hexdigit c" using assms(1) s by simp
  have 1: "dropWhile int_isspace s = s" using hexdigit_not(9)[OF c] s by simp
  have 2: "skip_sign s = (False, s)" using hexdigit_not(1,3)[OF c] s by (simp add: skip_sign_def)
  have 3: "skip_0x s = s"
  proof (cases cs)
    case Nil
    then show ?thesis using s by (simp add: skip_0x_def)
  next
    case (Cons b cs')
    then have "is_hexdigit b" using assms(1) s by simp
    then show ?thesis using hexdigit_not(7,8)[of b] s Cons by (simp add: skip_0x_def)
  qed
  have 4: "scan_digits16 False 0 0 (c # cs) = Some (hexval s, Suc (length cs), [])"
    using scan_hexdigits[OF assms(1), of 0 0] s
    by (simp add: hexval_def del: scan_digits16.simps)
  have "int16 s = (case s of [] \<Rightarrow> None
           | c # cs \<Rightarrow>
               if c = CHR ''_'' then None
               else (case scan_digits16 False 0 0 (c # cs) of
                       None \<Rightarrow> None
                     | Some (v, n, rest) \<Rightarrow>
                         if n = 0 then None
                         else if dropWhile int_isspace rest \<noteq> [] then None
                         else Some (if False then - int v else int v)))"
    by (simp only: int16_def 1 2 3 prod.case)
  also have "\<dots> = Some (int (hexval s))"
    using hexdigit_not(2)[OF c] by (subst s) (simp add: 4 del: scan_digits16.simps)
  finally show ?thesis .
qed


lemma replace_scan_absent: "c \<in> set old \<Longrightarrow> c \<notin> set s \<Longrightarrow> replace_scan old new 0 s = s"
proof (induction s)
  case Nil
  then show ?case by simp
next
  case (Cons x xs)
  have "\<not> prefix old (x # xs)" using Cons.prems set_mono_prefix by fastforce
  then show ?case using Cons by simp
qed

lemma replace_absent: "c \<in> set old \<Longrightarrow> c \<notin> set s \<Longrightarrow> replace old new s = s"
  using replace_scan_absent[of c old s new] by (auto simp: replace_def)

lemma replace_chr_empty: "replace [c] [] s = filter (\<lambda>x. x \<noteq> c) s"
  by (induction s) (auto simp: replace_def)

lemma dropWhile_id: "s \<noteq> [] \<Longrightarrow> \<not> P (hd s) \<Longrightarrow> dropWhile P s = s"
  by (cases s) auto

lemma strip_id:
  assumes "s \<noteq> []" "hd s \<notin> set chars" "last s \<notin> set chars"
  shows "strip chars s = s"
proof -
  have "dropWhile (\<lambda>c. c \<in> set chars) (rev s) = rev s"
    using assms by (intro dropWhile_id) (simp_all add: hd_rev)
  then show ?thesis using assms by (simp add: strip_def rstrip_def dropWhile_id)
qed

lemma drop_cut:
  "k + m < length s \<Longrightarrow> drop k s = take m (drop k s) @ s ! (k + m) # drop (Suc (k + m)) s"
  by (metis Cons_nth_drop_Suc add.commute append_take_drop_id drop_drop)

lemma canonical_uuid_split:
  assumes "canonical_uuid s"
  obtains a b c d e where
    "s = a @ CHR ''-'' # b @ CHR ''-'' # c @ CHR ''-'' # d @ CHR ''-'' # e"
    "a = take 8 s" "length a = 8" "length (b @ c @ d @ e) = 24"
    "list_all is_hexdigit a" "list_all is_hexdigit (b @ c @ d @ e)"
proof -
  from assms have len: "length s = 36" by (simp add: canonical_uuid_def)
  have 1: "s = take 8 s @ s ! 8 # drop 9 s" using drop_cut[of 0 8 s] len by simp
  have 2: "drop 9 s = take 4 (drop 9 s) @ s ! 13 # drop 14 s" using drop_cut[of 9 4 s] len by simp
  have 3: "drop 14 s = take 4 (drop 14 s) @ s ! 18 # drop 19 s" using drop_cut[of 14 4 s] len by simp
  have 4: "drop 19 s = take 4 (drop 19 s) @ s ! 23 # drop 24 s" using drop_cut[of 19 4 s] len by simp
  have "s = take 8 s @ CHR ''-'' # take 4 (drop 9 s) @ CHR ''-'' # take 4 (drop 14 s) @
         CHR ''-'' # take 4 (drop 19 s) @ CHR ''-'' # drop 24 s"
    using assms 1 2 3 4 by (metis canonical_uuid_def)
  moreover have "length (take 4 (drop 9 s) @ take 4 (drop 14 s) @ take 4 (drop 19 s) @ drop 24 s) = 24"
    using len by simp
  moreover have "list_all is_hexdigit (take 4 (drop 9 s) @ take 4 (drop 14 s) @ take 4 (drop 19 s) @ drop 24 s)"
    using assms by (simp add: canonical_uuid_def)
  moreover have "length (take 8 s) = 8" "list_all is_hexdigit (take 8 s)"
    using assms len by (simp_all add: canonical_uuid_def)
  ultimately show ?thesis using that by blast
qed

lemma filter_hexdigits: "list_all is_hexdigit s \<Longrightarrow> filter (\<lambda>x. x \<noteq> CHR ''-'') s = s"
  using hexdigit_not(1) by (induction s) auto

lemma hexdigits_set: "list_all is_hexdigit s \<Longrightarrow> x \<in> set s \<Longrightarrow> is_hexdigit x"
  by (simp add: list_all_iff)


lemma pow16: "(16::nat) ^ 32 = 2 ^ 128" "(16::nat) ^ 24 = 2 ^ 96"
  by simp_all

lemma canonical_uuid_display:
  assumes "canonical_uuid s"
  shows "uuid_display s = lower (take 8 s)"
proof -
  from assms obtain a b c d e where
    s: "s = a @ CHR ''-'' # b @ CHR ''-'' # c @ CHR ''-'' # d @ CHR ''-'' # e"
    and a: "a = take 8 s" "length a = 8" "list_all is_hexdigit a"
    and r: "length (b @ c @ d @ e) = 24" "list_all is_hexdigit (b @ c @ d @ e)"
    by (rule canonical_uuid_split)
  define h where "h = a @ b @ c @ d @ e"
  have hx: "list_all is_hexdigit h" "length h = 32" "h \<noteq> []"
    using a r by (auto simp: h_def)
  have sx: "x \<in> set s \<Longrightarrow> is_hexdigit x \<or> x = CHR ''-''" for x
    using a(3) r(2) by (subst (asm) s) (auto simp: list_all_iff)
  have colon: "CHR '':'' \<notin> set s" using sx hexdigit_not(6) by fastforce
  have "s \<noteq> []" using s by simp
  have hds: "is_hexdigit (hd s)" using a(2,3) by (subst s) (cases a, auto)
  have le: "is_hexdigit (last s)"
  proof -
    have len: "length s = 36" using assms by (simp add: canonical_uuid_def)
    then have "drop 24 s \<noteq> []" by simp
    then have "last (drop 24 s) \<in> set (drop 24 s)" by (rule last_in_set)
    moreover have "last (drop 24 s) = last s" using len by (simp add: last_drop)
    ultimately show ?thesis using assms by (auto simp: canonical_uuid_def list_all_iff)
  qed
  have n1: "replace ''uuid:'' [] (replace ''urn:'' [] s) = s"
    using colon by (simp add: replace_absent[of "CHR '':''"])
  have n2: "strip ''{}'' s = s"
    using hds le hexdigit_not(4,5) \<open>s \<noteq> []\<close> by (intro strip_id) auto
  have n3: "replace ''-'' [] s = h"
    using a(3) r(2) unfolding replace_chr_empty h_def
    by (subst s) (simp add: filter_hexdigits)
  have i16: "int16 h = Some (int (hexval h))" using hx by (simp add: int16_hexdigits)
  have hv: "hexval h < 2 ^ 128" using hexval_less[OF hx(1)] hx(2) by (simp add: pow16)
  then have hvi: "int (hexval h) < 2 ^ 128" by (metis of_nat_less_iff of_nat_numeral of_nat_power)
  have U: "UUID s 4 = Some (set_version (int (hexval h)) 4)"
    using hvi by (simp add: UUID_def n1 n2 n3 hx(2) i16 set_version_def push_bit_eq_mult)
  let ?v = "set_version (int (hexval h)) 4"
  have v0: "0 \<le> ?v" by (simp add: set_version_nonneg)
  have v1: "?v < 2 ^ 128" by (rule set_version_bound[OF _ hvi]) simp
  have nv: "nat ?v < 16 ^ 32" using v0 v1 unfolding pow16 by (metis nat_less_iff of_nat_numeral of_nat_power)
  have f: "fmt_032x (nat ?v) = hexw 32 (nat ?v)"
    using hex_nat_hexw[of 32 "nat ?v"] nv by (simp add: fmt_032x_def)
  have "nat ?v div 16 ^ 24 = nat (drop_bit 96 ?v)"
    using v0 by (simp add: drop_bit_eq_div nat_div_distrib pow16 nat_power_eq)
  also have "\<dots> = nat (drop_bit 96 (int (hexval h)))" by (simp add: set_version_drop)
  also have "\<dots> = hexval h div 16 ^ 24"
    by (simp add: drop_bit_eq_div nat_div_distrib pow16 nat_power_eq)
  also have "\<dots> = hexval a"
    using hexval_append[of a "b @ c @ d @ e"] hexval_less[OF r(2)] r(1) by (simp add: h_def)
  finally have top: "nat ?v div 16 ^ 24 = hexval a" .
  have "take 8 (hexw 32 (nat ?v)) = hexw 8 (hexval a)"
    using take_hexw[of 8 24 "nat ?v"] top by simp
  also have "\<dots> = lower a" using hexw_hexval[OF a(3)] a(2) by simp
  finally have "take 8 (fmt_032x (nat ?v)) = lower (take 8 s)" using f a(1) by simp
  moreover have "length (fmt_032x (nat ?v)) = 32" by (simp add: f length_hexw)
  moreover have "length (lower (take 8 s)) = 8" using a(1,2) by (simp add: lower_def)
  ultimately show ?thesis by (simp add: uuid_display_def U uuid_str_def)
qed

text \<open>
  C3, as the code has it. The name shown outside the full view is the first 8 characters
  of the canonical lower-case form (the first 8 characters of the name, in lower case)
  for every name in the canonical hyphenated form, the first 8 characters of
  \<^verbatim>\<open>str(UUID(name, version=4))\<close> for every name the constructor accepts, whatever its
  form, and the name itself for every name the constructor rejects.
\<close>

theorem uuid_display_shortening:
  "(canonical_uuid s \<longrightarrow> uuid_display s = lower (take 8 s)) \<and>
   (\<forall>u. UUID s 4 = Some u \<longrightarrow> uuid_display s = take 8 (uuid_str u)) \<and>
   (UUID s 4 = None \<longrightarrow> uuid_display s = s)"
  using canonical_uuid_display[of s] by (simp add: uuid_display_def)

lemma uuid_normal_32:
  "replace ''-'' [] (strip ''{}'' (replace ''uuid:'' [] (replace ''urn:'' []
     ''0123456789abcdef0123456789abcdef''))) = ''0123456789abcdef0123456789abcdef''"
  by (simp add: replace_def strip_def rstrip_def)

lemma int16_32:
  "int16 ''0123456789abcdef0123456789abcdef'' = Some 0x0123456789abcdef0123456789abcdef"
  by (simp add: int16_def skip_sign_def skip_0x_def int_isspace_def code_def digit16_def)

lemma UUID_32:
  "UUID ''0123456789abcdef0123456789abcdef'' 4 = Some 0x0123456789ab4def8123456789abcdef"
  by (simp add: UUID_def uuid_normal_32 int16_32 set_version_def)

lemma fmt_032x_32:
  "fmt_032x 0x0123456789ab4def8123456789abcdef = ''0123456789ab4def8123456789abcdef''"
  by (simp add: fmt_032x_def hex_nat.simps hexchar_def)

lemma uuid_display_32: "uuid_display ''0123456789abcdef0123456789abcdef'' = ''01234567''"
  by (simp add: uuid_display_def UUID_32 uuid_str_def fmt_032x_32)

lemma UUID_name: "UUID ''myjail'' 4 = None"
  by (simp add: UUID_def replace_def strip_def rstrip_def)

lemma canonical_uuid_example: "canonical_uuid ''01234567-89AB-cdef-0123-456789abcdef''"
  by (simp add: canonical_uuid_def is_hexdigit_def digit16_def code_def)

theorem uuid_display_shortening_witness:
  "canonical_uuid ''01234567-89AB-cdef-0123-456789abcdef'' \<and>
   uuid_display ''01234567-89AB-cdef-0123-456789abcdef'' = ''01234567'' \<and>
   UUID ''0123456789abcdef0123456789abcdef'' 4 = Some 0x0123456789ab4def8123456789abcdef \<and>
   uuid_display ''0123456789abcdef0123456789abcdef'' =
     take 8 (uuid_str 0x0123456789ab4def8123456789abcdef) \<and>
   UUID ''myjail'' 4 = None \<and> uuid_display ''myjail'' = ''myjail''"
  using uuid_display_shortening[of "''01234567-89AB-cdef-0123-456789abcdef''"]
    uuid_display_shortening[of "''0123456789abcdef0123456789abcdef''"]
    uuid_display_shortening[of "''myjail''"]
    canonical_uuid_example UUID_32 UUID_name
  by (simp add: lower_def lower_chr_def code_def)

text \<open>
  C3 as stated fails: a name of 32 hexadecimal digits without hyphens is not in the
  fixed-length hyphenated form, and it is shown shortened, not unchanged.
\<close>

theorem uuid_display_counterexample:
  "\<not> canonical_uuid ''0123456789abcdef0123456789abcdef'' \<and>
   uuid_display ''0123456789abcdef0123456789abcdef'' = ''01234567'' \<and>
   uuid_display ''0123456789abcdef0123456789abcdef'' \<noteq> ''0123456789abcdef0123456789abcdef''"
  by (simp add: uuid_display_32 canonical_uuid_def)

section \<open>Release strings\<close>

text \<open>
  C6. A release with the marker whose rewritten full form ends in \<^verbatim>\<open>-HBSD\<close>: the short form
  loses more than that suffix, since \<^verbatim>\<open>rstrip\<close> takes its argument as a set of characters.
  With the suffix stripped the short forms would be \<^verbatim>\<open>FreeBSD\<close> and \<^verbatim>\<open>HBSD\<close>.
\<close>

theorem release_forms_rstrip:
  "release_forms ''FreeBSD.1-HBSD'' = (''FreeBSD-HBSD'', ''Free'') \<and>
   release_forms ''HBSD'' = (''HBSD'', [])"
  by (simp add: release_forms_def replace_def rstrip_def is_word_def code_def)

section \<open>One turn of the loop of \<^verbatim>\<open>list_all\<close>\<close>

lemma bind_Inr: "bind m f = Inr y \<longleftrightarrow> (\<exists>x. m = Inr x \<and> f x = Inr y)"
  by (cases m) (auto simp: bind_def)

lemma bindE:
  assumes "bind m f = Inr y"
  obtains x where "m = Inr x" "f x = Inr y"
  using assms by (cases m) (auto simp: bind_def)

lemma case_prod3E:
  assumes "(case x of (a, b, c) \<Rightarrow> F a b c) = y"
  obtains a b c where "x = (a, b, c)" "F a b c = y"
  using assms by (cases x) auto

lemma case_jidE:
  assumes "(case v of None \<Rightarrow> Inl e | Some x \<Rightarrow> Inr x) = Inr y"
  obtains "v = Some y"
  using assms by (cases v) auto

lemma getitem_Inr: "getitem conf k = Inr v \<longleftrightarrow> conf k = Some v"
  by (auto simp: getitem_def split: option.splits)

lemma jail_fields_SomeE:
  assumes "jail_fields w l loc jail = Inr (loc', calls, Some f)"
  obtains conf state0 jid0 uuid_full ip4_addr ip6_addr bootv jt rls calls1 state1 tmpl calls2
    short1 full1 j where
    "load_conf w jail (snd loc) = (conf, state0, jid0)"
    "\<not> (basejail_only l \<and> get conf ''basejail'' ''no'' \<noteq> ''yes'')"
    "conf ''host_hostuuid'' = Some uuid_full" "conf ''ip4_addr'' = Some ip4_addr"
    "conf ''ip6_addr'' = Some ip6_addr" "conf ''boot'' = Some bootv" "conf ''type'' = Some jt"
    "conf ''release'' = Some rls"
    "run_state w state0 uuid_full (fst loc, jid0) = Inr (loc', calls1, state1)"
    "template_of w jail jt = Inr tmpl"
    "dhcp_resolve w conf (fst loc') uuid_full (short_ip4_of ip4_addr)
       (if ip4_addr = ''none'' then ''-'' else ip4_addr) = Inr (calls2, short1, full1)"
    "snd loc' = Some j"
    "calls = calls1 @ calls2"
    "f = \<lparr>jid = j, uuid = (if \<not> full l then uuid_display uuid_full else uuid_full),
          boot = bootv, state = state1, jail_type = jt,
          full_release = fst (release_forms rls),
          short_release = snd (release_forms rls),
          full_ip4 = full1, short_ip4 = short1,
          ip6 = (if ip6_addr = ''none'' then ''-'' else ip6_addr), template = tmpl\<rparr>"
proof -
  obtain conf state0 jid0 where lc: "load_conf w jail (snd loc) = (conf, state0, jid0)"
    by (cases "load_conf w jail (snd loc)") auto
  have nb: "\<not> (basejail_only l \<and> get conf ''basejail'' ''no'' \<noteq> ''yes'')"
    using assms lc unfolding jail_fields_def by (simp split: if_split_asm)
  show ?thesis
    using assms nb unfolding jail_fields_def lc
    apply (simp only: prod.case if_False)
    apply (erule bindE)+
    apply (erule case_prod3E)
    apply (erule bindE)+
    apply (erule case_prod3E)
    apply (erule bindE)
    apply (erule case_jidE)
    apply (simp only: getitem_Inr sum.inject prod.inject option.inject fst_conv snd_conv)
    apply (elim conjE)
    apply hypsubst
    apply (rule that; (assumption | rule lc))
    done
qed

lemma replace_chr_chr: "replace [a] [b] s = map (\<lambda>c. if c = a then b else c) s"
  by (induction s) (auto simp: replace_def)

lemma load_conf_loaded:
  "json_get_value_all w (mountpoint jail) = Some conf \<Longrightarrow> load_conf w jail j0 = (conf, [], j0)"
  by (simp add: load_conf_def)

lemma load_conf_corrupt:
  "json_get_value_all w (mountpoint jail) = None \<Longrightarrow>
   load_conf w jail j0 = (corrupt_conf w jail, ''CORRUPT'', Some ''-'')"
  by (simp add: load_conf_def)

lemma utf8_ascii: "list_all (\<lambda>c. code c < 128) s \<Longrightarrow> utf8 s = Some (map code s)"
  by (induction s) simp_all

lemma decode_ascii: "list_all (\<lambda>c. code c < 128) s \<Longrightarrow> decode s = Decoded s"
  by (simp add: decode_def utf8_ascii list_all_iff code_def map_idI)

lemmas ex_defs = ex_world_def ex_list_def ex_jail_def ex_conf_def

lemmas eval_defs = jail_fields_def load_conf_def basejail_only_def get_def bind_def getitem_def
  run_state_def list_get_jid_def list_get_jid_argv_def replace_def str_split_def str_isspace_def
  code_def index_def template_of_def rsplit1_def lower_def lower_chr_def dhcp_resolve_def
  short_ip4_of_def release_forms_def uuid_display_def UUID_def strip_def rstrip_def
  dhcp_interface_def ifconfig_argv_def splitlines_def bytes_split_def bytes_isspace_def
  ex_ifconfig_def decode_ascii

lemma ex_web_fields:
  "jail_fields ex_world ex_list (None, None) (ex_jail ''web.1'') =
   Inr ((Some True, Some ''7''), [[''jls'', ''-j'', ''ioc-web_1'']], Some ex_web)"
  by (simp add: ex_defs ex_web_def eval_defs)

lemma ex_dh_fields:
  "jail_fields ex_world ex_list (None, None) (ex_jail ''dh'') =
   Inr ((Some False, Some ''-''), [[''jls'', ''-j'', ''ioc-dh'']], Some ex_dh)"
  by (simp add: ex_defs ex_dh_def eval_defs)

lemma ex_plug_fields:
  "jail_fields ex_world ex_list (None, None) (ex_jail ''plug'') =
   Inr ((Some True, Some ''9''),
      [[''jls'', ''-j'', ''ioc-plug''],
       [''jexec'', ''ioc-plug'', ''ifconfig'', ''epair0b'', ''inet'']], Some ex_plug)"
  by (simp add: ex_defs ex_plug_def eval_defs)

section \<open>The template a jail comes from\<close>

lemma rfind_cut_None: "sep \<noteq> [] \<Longrightarrow> hd sep \<notin> set s \<Longrightarrow> rfind_cut sep s = None"
proof (induction s)
  case Nil
  then show ?case by simp
next
  case (Cons x xs)
  then have "\<not> prefix sep (x # xs)" by (cases sep) auto
  then show ?case using Cons by simp
qed

lemma rfind_cut_no_occurrence: "sep \<noteq> [] \<Longrightarrow> \<not> contains sep s \<Longrightarrow> rfind_cut sep s = None"
  by (induction s) auto

lemma rfind_cut_last:
  assumes "sep \<noteq> []" "rfind_cut sep (tl (sep @ q)) = None"
  shows "rfind_cut sep (p @ sep @ q) = Some (p, q)"
proof (induction p)
  case Nil
  obtain c cs where sep: "sep = c # cs" using assms(1) by (cases sep) auto
  show ?case using assms(2) by (simp add: sep)
next
  case (Cons x p)
  then show ?case by simp
qed

lemma rsplit1_root:
  assumes "CHR ''/'' \<notin> set snap"
  shows "rsplit1 ''/root@'' (p @ ''/root@'' @ snap) = [p, snap]"
proof -
  have "rfind_cut ''/root@'' (tl (''/root@'' @ snap)) = None"
    using assms by (intro rfind_cut_None) auto
  then have "rfind_cut ''/root@'' (p @ ''/root@'' @ snap) = Some (p, snap)"
    by (intro rfind_cut_last) auto
  then show ?thesis by (simp add: rsplit1_def)
qed

lemma rfind_cut_chr:
  "rfind_cut [c] s = (if c \<in> set s then Some (rev (tl (dropWhile (\<lambda>x. x \<noteq> c) (rev s))), rev (takeWhile (\<lambda>x. x \<noteq> c) (rev s))) else None)"
proof (induction s)
  case Nil
  then show ?case by simp
next
  case (Cons x xs)
  show ?case
  proof (cases "c \<in> set xs")
    case True
    then show ?thesis using Cons by (simp add: takeWhile_append dropWhile_append)
  next
    case False
    then have "takeWhile (\<lambda>x. x \<noteq> c) (rev xs) = rev xs" "dropWhile (\<lambda>x. x \<noteq> c) (rev xs) = []"
      by (auto simp: takeWhile_free)
    then show ?thesis using Cons False by (auto simp: takeWhile_append dropWhile_append)
  qed
qed

lemma last_rsplit1_slash: "last (rsplit1 ''/'' p) = final_segment p"
  by (auto simp: rsplit1_def rfind_cut_chr final_segment_def takeWhile_free)

lemma split_chr_two: "c \<in> set s \<Longrightarrow> \<exists>y z zs. split_chr c s = y # z # zs"
proof (induction s)
  case Nil
  then show ?case by simp
next
  case (Cons x xs)
  show ?case
  proof (cases "x = c")
    case True
    then show ?thesis using split_chr_nonempty[of c xs] by (cases "split_chr c xs") auto
  next
    case False
    then show ?thesis using Cons by auto
  qed
qed

lemma last_split_chr: "last (split_chr c p) = rev (takeWhile (\<lambda>x. x \<noteq> c) (rev p))"
proof (induction p)
  case Nil
  then show ?case by simp
next
  case (Cons x xs)
  show ?case
  proof (cases "c \<in> set xs")
    case False
    then show ?thesis
      by (cases "x = c") (simp_all add: split_chr_free takeWhile_append takeWhile_free)
  next
    case True
    then obtain y z zs where sp: "split_chr c xs = y # z # zs" using split_chr_two by blast
    have "takeWhile (\<lambda>x. x \<noteq> c) (rev xs @ [x]) = takeWhile (\<lambda>x. x \<noteq> c) (rev xs)"
      using True by (intro takeWhile_append1[of c]) auto
    then show ?thesis using Cons sp by (cases "x = c") simp_all
  qed
qed

lemma last_split_chr_slash: "last (split_chr CHR ''/'' p) = final_segment p"
  by (simp add: last_split_chr final_segment_def)

lemma final_segment_path: "CHR ''/'' \<notin> set t \<Longrightarrow> final_segment (dir @ ''/'' @ t) = t"
  by (simp add: final_segment_def takeWhile_append takeWhile_free)

lemma final_segment_plain: "CHR ''/'' \<notin> set t \<Longrightarrow> final_segment t = t"
  by (simp add: final_segment_def takeWhile_free)

lemma char_of_caps:
  "char_of (82::nat) = CHR ''R''" "char_of (69::nat) = CHR ''E''" "char_of (76::nat) = CHR ''L''"
  "char_of (65::nat) = CHR ''A''" "char_of (83::nat) = CHR ''S''" "char_of (84::nat) = CHR ''T''"
  "char_of (66::nat) = CHR ''B''"
  by (rule code_inj, simp add: code_def)+

lemma lower_chr_small:
  assumes "97 \<le> code a" "code a \<le> 122"
  shows "lower_chr c = a \<longleftrightarrow> c = a \<or> c = char_of (code a - 32)"
proof
  assume l: "lower_chr c = a"
  show "c = a \<or> c = char_of (code a - 32)"
  proof (cases "(65 \<le> code c \<and> code c \<le> 90) \<or> (192 \<le> code c \<and> code c \<le> 214) \<or>
         (216 \<le> code c \<and> code c \<le> 222)")
    case True
    then have a: "a = char_of (code c + 32)" using l by (simp add: lower_chr_def)
    have "code c + 32 < 256" using True by auto
    then have "code a = code c + 32" unfolding a by (simp add: code_def)
    then have "code c = code a - 32" by simp
    then show ?thesis using char_of_code by blast
  next
    case False
    then show ?thesis using l by (auto simp: lower_chr_def split: if_splits)
  qed
next
  assume "c = a \<or> c = char_of (code a - 32)"
  then show "lower_chr c = a"
  proof
    assume "c = a"
    then show ?thesis using assms by (simp add: lower_chr_def)
  next
    assume c: "c = char_of (code a - 32)"
    have "code c = code a - 32" using assms unfolding c by (simp add: code_def)
    then have "65 \<le> code c" "code c \<le> 90" "code c + 32 = code a" using assms by simp_all
    then show ?thesis by (simp add: lower_chr_def code_def)
  qed
qed

lemma lower_chr_letters:
  "lower_chr c = CHR ''r'' \<longleftrightarrow> c = CHR ''r'' \<or> c = CHR ''R''"
  "lower_chr c = CHR ''e'' \<longleftrightarrow> c = CHR ''e'' \<or> c = CHR ''E''"
  "lower_chr c = CHR ''l'' \<longleftrightarrow> c = CHR ''l'' \<or> c = CHR ''L''"
  "lower_chr c = CHR ''a'' \<longleftrightarrow> c = CHR ''a'' \<or> c = CHR ''A''"
  "lower_chr c = CHR ''s'' \<longleftrightarrow> c = CHR ''s'' \<or> c = CHR ''S''"
  "lower_chr c = CHR ''t'' \<longleftrightarrow> c = CHR ''t'' \<or> c = CHR ''T''"
  "lower_chr c = CHR ''b'' \<longleftrightarrow> c = CHR ''b'' \<or> c = CHR ''B''"
  by (subst lower_chr_small; simp add: code_def char_of_caps)+

lemma prefix_lower_spells:
  assumes "list_all2 (\<lambda>a A. \<forall>c. lower_chr c = a \<longleftrightarrow> c = a \<or> c = A) small capital"
  shows "prefix small (lower s) = spells small capital s"
  using assms
proof (induction small capital arbitrary: s rule: list_all2_induct)
  case Nil
  then show ?case by simp
next
  case (Cons a as A As)
  show ?case
  proof (cases s)
    case Nil
    then show ?thesis by (simp add: lower_def)
  next
    case (Cons c cs)
    have "prefix as (lower cs) = spells as As cs" by (rule Cons.IH)
    moreover have "lower_chr c = a \<longleftrightarrow> c = a \<or> c = A" using Cons.hyps(1) by simp
    ultimately show ?thesis using Cons by (auto simp: lower_def)
  qed
qed

lemma contains_lower_mentions:
  assumes "list_all2 (\<lambda>a A. \<forall>c. lower_chr c = a \<longleftrightarrow> c = a \<or> c = A) small capital"
  shows "contains small (lower t) = mentions small capital t"
proof (induction t)
  case Nil
  show ?case using prefix_lower_spells[OF assms, of "[]"] by (simp add: lower_def)
next
  case (Cons c cs)
  show ?case using prefix_lower_spells[OF assms, of "c # cs"] Cons by (simp add: lower_def)
qed

lemma base_image_lower:
  "(contains ''release'' (lower t) \<or> contains ''stable'' (lower t)) = base_image_name t"
proof -
  have "contains ''release'' (lower t) = mentions ''release'' ''RELEASE'' t"
    by (rule contains_lower_mentions) (simp add: lower_chr_letters)
  moreover have "contains ''stable'' (lower t) = mentions ''stable'' ''STABLE'' t"
    by (rule contains_lower_mentions) (simp add: lower_chr_letters)
  ultimately show ?thesis by (simp add: base_image_name_def)
qed

lemma template_of_cases:
  assumes "template_of w jail jt = Inr t"
  shows "(jt = ''template'' \<longrightarrow> t = ''-'') \<and>
    (jt \<noteq> ''template'' \<longrightarrow>
      (case get_dataset_origin w (name jail @ ''/root'') of
         NoSuchDataset \<Rightarrow> False
       | OriginProperty None \<Rightarrow> t = ''-''
       | OriginProperty (Some v) \<Rightarrow>
           t = (if v = [] then ''-''
                else if base_image_name (final_segment (hd (rsplit1 ''/root@'' v))) then ''-''
                else final_segment (hd (rsplit1 ''/root@'' v)))))"
  using assms unfolding base_image_lower[symmetric]
  by (auto simp: template_of_def bind_def last_rsplit1_slash lower_def
      split: if_splits origin_lookup.splits option.splits)

text \<open>
  C8. A record of type \<^verbatim>\<open>template\<close> has the template \<^verbatim>\<open>-\<close>. For any other record, an origin
  \<^verbatim>\<open>p/root@snap\<close> gives the last path segment of \<^verbatim>\<open>p\<close> (an origin without \<^verbatim>\<open>/root@\<close> its own
  last segment), or \<^verbatim>\<open>-\<close> when that name holds \<^verbatim>\<open>release\<close> or \<^verbatim>\<open>stable\<close> in letters of either
  case (\<^verbatim>\<open>base_image_name\<close>, which reads the name letter by letter and uses no lower-case
  form); an absent or empty origin gives \<^verbatim>\<open>-\<close>.
\<close>

theorem template_origin_resolution:
  assumes "jail_fields w l loc jail = Inr (loc', calls, Some f)"
  shows "(jail_type f = ''template'' \<longrightarrow> template f = ''-'') \<and>
    (jail_type f \<noteq> ''template'' \<longrightarrow>
      (\<forall>p snap. get_dataset_origin w (name jail @ ''/root'') =
                  OriginProperty (Some (p @ ''/root@'' @ snap)) \<and> CHR ''/'' \<notin> set snap \<longrightarrow>
         template f = (if base_image_name (final_segment p) then ''-'' else final_segment p)) \<and>
      (\<forall>v. get_dataset_origin w (name jail @ ''/root'') = OriginProperty (Some v) \<and>
            v \<noteq> [] \<and> \<not> contains ''/root@'' v \<longrightarrow>
         template f = (if base_image_name (final_segment v) then ''-'' else final_segment v)) \<and>
      (get_dataset_origin w (name jail @ ''/root'') = OriginProperty None \<or>
       get_dataset_origin w (name jail @ ''/root'') = OriginProperty (Some []) \<longrightarrow>
         template f = ''-''))"
proof -
  from assms obtain jt tmpl where t: "template_of w jail jt = Inr tmpl"
    and f: "jail_type f = jt" "template f = tmpl"
    by (elim jail_fields_SomeE) simp
  have 1: "hd (rsplit1 ''/root@'' (p @ ''/root@'' @ snap)) = p" if "CHR ''/'' \<notin> set snap" for p snap
    using rsplit1_root[OF that, of p] by simp
  have 2: "hd (rsplit1 ''/root@'' v) = v" if "\<not> contains ''/root@'' v" for v
    using rfind_cut_no_occurrence[of "''/root@''" v] that by (simp add: rsplit1_def)
  show ?thesis
    using template_of_cases[OF t] by (auto simp: f 1 2 simp del: append.simps)
qed

lemma char_of_small:
  "char_of (114::nat) = CHR ''r''" "char_of (101::nat) = CHR ''e''" "char_of (108::nat) = CHR ''l''"
  "char_of (97::nat) = CHR ''a''" "char_of (115::nat) = CHR ''s''" "char_of (116::nat) = CHR ''t''"
  "char_of (98::nat) = CHR ''b''"
  by (rule code_inj, simp add: code_def)+

lemma ex_host_fields:
  "jail_fields ex_host ex_list (None, None) (ex_jail ''dh'') =
     Inr ((Some False, Some ''-''), [[''jls'', ''-j'', ''ioc-dh'']], Some ex_dh)"
  "jail_fields ex_host ex_list (None, None) (ex_jail ''tmpl'') =
     Inr ((Some False, Some ''-''), [[''jls'', ''-j'', ''ioc-tmpl'']],
          Some (ex_down ''tmpl'' ''template''))"
  by (simp_all add: ex_host_def ex_defs ex_dh_def ex_down_def eval_defs char_of_small)

theorem template_origin_resolution_witness:
  "jail_fields ex_world ex_list (None, None) (ex_jail ''web.1'') =
     Inr ((Some True, Some ''7''), [[''jls'', ''-j'', ''ioc-web_1'']], Some ex_web) \<and>
   jail_type ex_web \<noteq> ''template'' \<and>
   get_dataset_origin ex_world (name (ex_jail ''web.1'') @ ''/root'') =
     OriginProperty (Some (''zroot/iocage/templates/tpl'' @ ''/root@'' @ ''web.1'')) \<and>
   CHR ''/'' \<notin> set ''web.1'' \<and>
   final_segment ''zroot/iocage/templates/tpl'' = ''tpl'' \<and> \<not> base_image_name ''tpl'' \<and>
   template ex_web = ''tpl'' \<and>
   jail_fields ex_host ex_list (None, None) (ex_jail ''dh'') =
     Inr ((Some False, Some ''-''), [[''jls'', ''-j'', ''ioc-dh'']], Some ex_dh) \<and>
   jail_type ex_dh \<noteq> ''template'' \<and>
   get_dataset_origin ex_host (name (ex_jail ''dh'') @ ''/root'') =
     OriginProperty (Some (''zroot/iocage/releases/11.2-RELEASE'' @ ''/root@'' @ ''dh'')) \<and>
   CHR ''/'' \<notin> set ''dh'' \<and>
   final_segment ''zroot/iocage/releases/11.2-RELEASE'' = ''11.2-RELEASE'' \<and>
   base_image_name ''11.2-RELEASE'' \<and>
   template ex_dh = ''-'' \<and>
   jail_fields ex_host ex_list (None, None) (ex_jail ''tmpl'') =
     Inr ((Some False, Some ''-''), [[''jls'', ''-j'', ''ioc-tmpl'']],
          Some (ex_down ''tmpl'' ''template'')) \<and>
   jail_type (ex_down ''tmpl'' ''template'') = ''template'' \<and>
   get_dataset_origin ex_host (name (ex_jail ''tmpl'') @ ''/root'') =
     OriginProperty (Some ''zroot/iocage/templates/tpl/root@tmpl'') \<and>
   template (ex_down ''tmpl'' ''template'') = ''-'' \<and>
   jail_fields ex_world ex_list (None, None) (ex_jail ''plug'') =
     Inr ((Some True, Some ''9''),
        [[''jls'', ''-j'', ''ioc-plug''],
         [''jexec'', ''ioc-plug'', ''ifconfig'', ''epair0b'', ''inet'']], Some ex_plug) \<and>
   jail_type ex_plug \<noteq> ''template'' \<and>
   get_dataset_origin ex_world (name (ex_jail ''plug'') @ ''/root'') = OriginProperty None \<and>
   template ex_plug = ''-''"
proof -
  have jt: "jail_type ex_web \<noteq> ''template''" "jail_type ex_dh \<noteq> ''template''"
    "jail_type ex_plug \<noteq> ''template''" "jail_type (ex_down ''tmpl'' ''template'') = ''template''"
    by (simp_all add: ex_web_def ex_dh_def ex_plug_def ex_down_def)
  have o: "get_dataset_origin ex_world (name (ex_jail ''web.1'') @ ''/root'') =
     OriginProperty (Some (''zroot/iocage/templates/tpl'' @ ''/root@'' @ ''web.1''))"
    "get_dataset_origin ex_host (name (ex_jail ''dh'') @ ''/root'') =
     OriginProperty (Some (''zroot/iocage/releases/11.2-RELEASE'' @ ''/root@'' @ ''dh''))"
    "get_dataset_origin ex_host (name (ex_jail ''tmpl'') @ ''/root'') =
     OriginProperty (Some ''zroot/iocage/templates/tpl/root@tmpl'')"
    "get_dataset_origin ex_world (name (ex_jail ''plug'') @ ''/root'') = OriginProperty None"
    by (simp_all add: ex_host_def ex_defs)
  have sl: "CHR ''/'' \<notin> set ''web.1''" "CHR ''/'' \<notin> set ''dh''" by simp_all
  have n: "final_segment ''zroot/iocage/templates/tpl'' = ''tpl''" "\<not> base_image_name ''tpl''"
    "final_segment ''zroot/iocage/releases/11.2-RELEASE'' = ''11.2-RELEASE''"
    "base_image_name ''11.2-RELEASE''"
    by (simp_all add: final_segment_def base_image_name_def)
  have "template ex_web =
     (if base_image_name (final_segment ''zroot/iocage/templates/tpl'') then ''-''
      else final_segment ''zroot/iocage/templates/tpl'')"
    using template_origin_resolution[OF ex_web_fields] jt(1) o(1) sl(1) by blast
  then have 1: "template ex_web = ''tpl''" by (simp only: n if_False)
  have "template ex_dh =
     (if base_image_name (final_segment ''zroot/iocage/releases/11.2-RELEASE'') then ''-''
      else final_segment ''zroot/iocage/releases/11.2-RELEASE'')"
    using template_origin_resolution[OF ex_host_fields(1)] jt(2) o(2) sl(2) by blast
  then have 2: "template ex_dh = ''-''" by (simp only: n if_True)
  have 3: "template (ex_down ''tmpl'' ''template'') = ''-''"
    using template_origin_resolution[OF ex_host_fields(2)] jt(4) by blast
  have 4: "template ex_plug = ''-''"
    using template_origin_resolution[OF ex_plug_fields] jt(3) o(4) by blast
  show ?thesis
    using ex_web_fields ex_host_fields ex_plug_fields jt o sl n 1 2 3 4 by (intro conjI) 
qed

section \<open>The run state\<close>

lemma run_state_loaded:
  assumes "run_state w [] uuid_full loc = Inr (loc', calls1, state1)"
  shows "calls1 = [list_get_jid_argv uuid_full] \<and>
    (\<forall>out. check_output w (list_get_jid_argv uuid_full) = Exit0 out \<longrightarrow>
       state1 = ''up'' \<and> 5 < length (str_split out) \<and> loc' = (Some True, Some (str_split out ! 5))) \<and>
    (\<forall>e. check_output w (list_get_jid_argv uuid_full) = CalledProcessError e \<longrightarrow>
       state1 = ''down'' \<and> loc' = (Some False, Some ''-'')) \<and>
    (\<forall>e. check_output w (list_get_jid_argv uuid_full) \<noteq> Raises e)"
  using assms
  by (auto simp: run_state_def list_get_jid_def bind_def index_def
      split: proc_result.splits sum.splits if_splits)

text \<open>
  C7. For every record of a configuration that loaded, the first command run is
  \<^verbatim>\<open>jls -j ioc-NAME\<close>, where \<^verbatim>\<open>NAME\<close> is the whole \<^verbatim>\<open>host_hostuuid\<close> with every \<^verbatim>\<open>.\<close> replaced by
  \<^verbatim>\<open>_\<close>. On a zero exit the state is \<^verbatim>\<open>up\<close> and the jail id is the sixth whitespace-delimited
  field of the output; on a non-zero exit the state is \<^verbatim>\<open>down\<close> and the jail id is \<^verbatim>\<open>-\<close>.
\<close>

theorem run_state_resolution:
  assumes "jail_fields w l loc jail = Inr (loc', calls, Some f)"
    and "json_get_value_all w (mountpoint jail) = Some conf"
  shows "\<exists>uuid_full. conf ''host_hostuuid'' = Some uuid_full \<and> calls \<noteq> [] \<and>
    hd calls = [''jls'', ''-j'',
                ''ioc-'' @ map (\<lambda>c. if c = CHR ''.'' then CHR ''_'' else c) uuid_full] \<and>
    (\<forall>out. check_output w (hd calls) = Exit0 out \<longrightarrow>
       state f = ''up'' \<and> 5 < length (str_split out) \<and> jid f = str_split out ! 5) \<and>
    (\<forall>e. check_output w (hd calls) = CalledProcessError e \<longrightarrow>
       state f = ''down'' \<and> jid f = ''-'')"
proof -
  from assms(1) obtain c state0 jid0 uuid_full calls1 calls2 state1 j where
    lc: "load_conf w jail (snd loc) = (c, state0, jid0)"
    and u: "c ''host_hostuuid'' = Some uuid_full"
    and rs: "run_state w state0 uuid_full (fst loc, jid0) = Inr (loc', calls1, state1)"
    and j: "snd loc' = Some j" and calls: "calls = calls1 @ calls2"
    and f: "jid f = j" "state f = state1"
    by (elim jail_fields_SomeE) simp
  from lc assms(2) have c: "c = conf" "state0 = []" by (simp_all add: load_conf_loaded)
  note r = run_state_loaded[OF rs[unfolded c]]
  have h: "hd calls = list_get_jid_argv uuid_full" "calls \<noteq> []" using r calls by simp_all
  have a: "list_get_jid_argv uuid_full =
    [''jls'', ''-j'', ''ioc-'' @ map (\<lambda>c. if c = CHR ''.'' then CHR ''_'' else c) uuid_full]"
    by (simp add: list_get_jid_argv_def replace_chr_chr)
  have "conf ''host_hostuuid'' = Some uuid_full" using u c by simp
  moreover have "\<forall>out. check_output w (hd calls) = Exit0 out \<longrightarrow>
       state f = ''up'' \<and> 5 < length (str_split out) \<and> jid f = str_split out ! 5"
    using r j f h(1) by auto
  moreover have "\<forall>e. check_output w (hd calls) = CalledProcessError e \<longrightarrow>
       state f = ''down'' \<and> jid f = ''-''"
    using r j f h(1) by auto
  ultimately show ?thesis using h a by (intro exI[of _ uuid_full]) simp
qed

theorem run_state_resolution_witness:
  "jail_fields ex_world ex_list (None, None) (ex_jail ''web.1'') =
     Inr ((Some True, Some ''7''), [[''jls'', ''-j'', ''ioc-web_1'']], Some ex_web) \<and>
   json_get_value_all ex_world (mountpoint (ex_jail ''web.1'')) = Some ex_conf \<and>
   ex_conf ''host_hostuuid'' = Some ''web.1'' \<and>
   check_output ex_world [''jls'', ''-j'', ''ioc-web_1''] =
     Exit0 ''   JID  IP Address      Hostname      Path     7  10.0.0.5  web.1  /iocage/jails/web.1/root'' \<and>
   state ex_web = ''up'' \<and>
   jid ex_web =
     str_split ''   JID  IP Address      Hostname      Path     7  10.0.0.5  web.1  /iocage/jails/web.1/root'' ! 5"
proof -
  have c: "json_get_value_all ex_world (mountpoint (ex_jail ''web.1'')) = Some ex_conf"
    by (simp add: ex_defs)
  have u: "ex_conf ''host_hostuuid'' = Some ''web.1''" by (simp add: ex_conf_def)
  have o: "check_output ex_world (hd [[''jls'', ''-j'', ''ioc-web_1'']]) =
     Exit0 ''   JID  IP Address      Hostname      Path     7  10.0.0.5  web.1  /iocage/jails/web.1/root''"
    by (simp add: ex_world_def)
  have "state ex_web = ''up'' \<and>
   jid ex_web =
     str_split ''   JID  IP Address      Hostname      Path     7  10.0.0.5  web.1  /iocage/jails/web.1/root'' ! 5"
    using run_state_resolution[OF ex_web_fields c] o by blast
  then show ?thesis using ex_web_fields c u o by simp
qed

section \<open>DHCP\<close>

lemma dhcp_resolve_on:
  assumes "dhcp_resolve w conf (Some st) uuid_full s0 f0 = Inr (calls2, short1, full1)"
    and "conf ''dhcp'' = Some ''on''"
  shows "(\<not> st \<longrightarrow> calls2 = [] \<and> short1 = ''DHCP'' \<and> full1 = ''DHCP (not running)'') \<and>
    (st \<and> geteuid w \<noteq> 0 \<longrightarrow>
       calls2 = [] \<and> short1 = ''DHCP'' \<and> full1 = ''DHCP (running -- address requires root)'') \<and>
    (st \<and> geteuid w = 0 \<longrightarrow>
       (\<exists>interfaces. conf ''interfaces'' = Some interfaces \<and>
          calls2 = [ifconfig_argv uuid_full (dhcp_interface interfaces)] \<and>
          (\<forall>out. check_output w (ifconfig_argv uuid_full (dhcp_interface interfaces)) = Exit0 out \<longrightarrow>
             short1 = ''DHCP'' \<and> 2 < length (splitlines out) \<and>
             1 < length (bytes_split (splitlines out ! 2)) \<and>
             (\<exists>addr. decode (bytes_split (splitlines out ! 2) ! 1) = Decoded addr \<and>
                full1 = dhcp_interface interfaces @ ''|'' @ addr)) \<and>
          (\<forall>e. check_output w (ifconfig_argv uuid_full (dhcp_interface interfaces)) =
                 CalledProcessError e \<longrightarrow>
             short1 = ''DHCP(Network Issue)'' \<and> full1 = ''DHCP - Network Issue:'' @ e)))"
  using assms
  by (auto simp: dhcp_resolve_def bind_def getitem_def index_def
      split: option.splits proc_result.splits sum.splits if_splits decoded.splits)

text \<open>
  C5. For every record whose configuration has \<^verbatim>\<open>dhcp\<close> set to \<^verbatim>\<open>on\<close>: if the jail is down,
  the full IPv4 form is \<^verbatim>\<open>DHCP (not running)\<close> and the short form \<^verbatim>\<open>DHCP\<close>, whatever address
  is stored; if it is up and the caller is not root, the full form is
  \<^verbatim>\<open>DHCP (running -- address requires root)\<close> and the short form \<^verbatim>\<open>DHCP\<close>; in both cases the
  only command run is the probe. Only if it is up and the caller is root is
  \<^verbatim>\<open>jexec ... ifconfig\<close> run, and on its zero exit the full form is the interface, \<^verbatim>\<open>|\<close> and
  the address read from the output: the second field of its third line, decoded.
\<close>

theorem dhcp_resolution:
  assumes "jail_fields w l loc jail = Inr (loc', calls, Some f)"
    and "json_get_value_all w (mountpoint jail) = Some conf"
    and "conf ''dhcp'' = Some ''on''"
  shows "\<exists>uuid_full. conf ''host_hostuuid'' = Some uuid_full \<and>
    (state f = ''up'' \<or> state f = ''down'') \<and>
    (state f = ''down'' \<longrightarrow>
       full_ip4 f = ''DHCP (not running)'' \<and> short_ip4 f = ''DHCP'' \<and>
       calls = [list_get_jid_argv uuid_full]) \<and>
    (state f = ''up'' \<and> geteuid w \<noteq> 0 \<longrightarrow>
       full_ip4 f = ''DHCP (running -- address requires root)'' \<and> short_ip4 f = ''DHCP'' \<and>
       calls = [list_get_jid_argv uuid_full]) \<and>
    (state f = ''up'' \<and> geteuid w = 0 \<longrightarrow>
       (\<exists>interfaces. conf ''interfaces'' = Some interfaces \<and>
          calls = [list_get_jid_argv uuid_full,
                   ifconfig_argv uuid_full (dhcp_interface interfaces)] \<and>
          (\<forall>out. check_output w (ifconfig_argv uuid_full (dhcp_interface interfaces)) = Exit0 out \<longrightarrow>
             short_ip4 f = ''DHCP'' \<and>
             (\<exists>addr. decode (bytes_split (splitlines out ! 2) ! 1) = Decoded addr \<and>
                full_ip4 f = dhcp_interface interfaces @ ''|'' @ addr)) \<and>
          (\<forall>e. check_output w (ifconfig_argv uuid_full (dhcp_interface interfaces)) =
                 CalledProcessError e \<longrightarrow>
             short_ip4 f = ''DHCP(Network Issue)'' \<and> full_ip4 f = ''DHCP - Network Issue:'' @ e)))"
proof -
  from assms(1) obtain c state0 jid0 uuid_full ip4_addr calls1 calls2 state1 short1 full1 where
    lc: "load_conf w jail (snd loc) = (c, state0, jid0)"
    and u: "c ''host_hostuuid'' = Some uuid_full"
    and rs: "run_state w state0 uuid_full (fst loc, jid0) = Inr (loc', calls1, state1)"
    and d: "dhcp_resolve w c (fst loc') uuid_full (short_ip4_of ip4_addr)
              (if ip4_addr = ''none'' then ''-'' else ip4_addr) = Inr (calls2, short1, full1)"
    and calls: "calls = calls1 @ calls2"
    and f: "state f = state1" "short_ip4 f = short1" "full_ip4 f = full1"
    by (elim jail_fields_SomeE) simp
  from lc assms(2) have c: "c = conf" "state0 = []" by (simp_all add: load_conf_loaded)
  note r = run_state_loaded[OF rs[unfolded c]]
  obtain st where st: "fst loc' = Some st" "state1 = (if st then ''up'' else ''down'')"
    using r by (cases "check_output w (list_get_jid_argv uuid_full)") auto
  note dr = dhcp_resolve_on[OF d[unfolded c st] assms(3)]
  have c1: "calls1 = [list_get_jid_argv uuid_full]" using r by simp
  have "conf ''host_hostuuid'' = Some uuid_full" using u c by simp
  then show ?thesis
    using dr by (intro exI[of _ uuid_full]) (cases st; auto simp add: f calls st c1)
qed

theorem dhcp_resolution_witness:
  "jail_fields ex_world ex_list (None, None) (ex_jail ''dh'') =
     Inr ((Some False, Some ''-''), [[''jls'', ''-j'', ''ioc-dh'']], Some ex_dh) \<and>
   json_get_value_all ex_world (mountpoint (ex_jail ''dh'')) =
     Some (ex_conf(''host_hostuuid'' \<mapsto> ''dh'', ''dhcp'' \<mapsto> ''on'', ''basejail'' \<mapsto> ''no'')) \<and>
   (ex_conf(''host_hostuuid'' \<mapsto> ''dh'', ''dhcp'' \<mapsto> ''on'', ''basejail'' \<mapsto> ''no'')) ''dhcp'' =
     Some ''on'' \<and>
   state ex_dh = ''down'' \<and>
   full_ip4 ex_dh = ''DHCP (not running)'' \<and> short_ip4 ex_dh = ''DHCP'' \<and>
   jail_fields ex_world ex_list (None, None) (ex_jail ''plug'') =
     Inr ((Some True, Some ''9''),
        [[''jls'', ''-j'', ''ioc-plug''],
         [''jexec'', ''ioc-plug'', ''ifconfig'', ''epair0b'', ''inet'']], Some ex_plug) \<and>
   state ex_plug = ''up'' \<and> geteuid ex_world = 0 \<and> full_ip4 ex_plug = ''epair0b|10.0.0.9''"
proof -
  have c: "json_get_value_all ex_world (mountpoint (ex_jail ''dh'')) =
     Some (ex_conf(''host_hostuuid'' \<mapsto> ''dh'', ''dhcp'' \<mapsto> ''on'', ''basejail'' \<mapsto> ''no''))"
    by (simp add: ex_world_def ex_jail_def)
  have d: "(ex_conf(''host_hostuuid'' \<mapsto> ''dh'', ''dhcp'' \<mapsto> ''on'', ''basejail'' \<mapsto> ''no'')) ''dhcp'' =
     Some ''on''"
    by simp
  have s: "state ex_dh = ''down''" by (simp add: ex_dh_def)
  have "full_ip4 ex_dh = ''DHCP (not running)'' \<and> short_ip4 ex_dh = ''DHCP''"
    using dhcp_resolution[OF ex_dh_fields c d] s by blast
  moreover have "state ex_plug = ''up''" "geteuid ex_world = 0" "full_ip4 ex_plug = ''epair0b|10.0.0.9''"
    by (simp_all add: ex_plug_def ex_world_def)
  ultimately show ?thesis using ex_dh_fields ex_plug_fields c d s by simp
qed

section \<open>Corrupt jails\<close>

lemma corrupt_conf_lookup:
  "corrupt_conf w jail ''host_hostuuid'' = Some (final_segment (name jail))"
  "corrupt_conf w jail ''release'' = Some ''N/A''"
  "k \<in> set (default_props w) \<Longrightarrow> k \<noteq> ''host_hostuuid'' \<Longrightarrow> k \<noteq> ''release'' \<Longrightarrow>
   corrupt_conf w jail k = Some ''N/A''"
  by (simp_all add: corrupt_conf_def last_split_chr_slash)

lemma corrupt_conf_values:
  "corrupt_conf w jail k = Some v \<Longrightarrow> k \<noteq> ''host_hostuuid'' \<Longrightarrow> v = ''N/A''"
  by (auto simp: corrupt_conf_def split: if_splits)

lemma template_of_total:
  "get_dataset_origin w (name jail @ ''/root'') \<noteq> NoSuchDataset \<Longrightarrow> \<exists>t. template_of w jail jt = Inr t"
  by (auto simp: template_of_def bind_def split: origin_lookup.splits option.splits)

lemma placeholder_forms:
  "short_ip4_of ''N/A'' = ''N/A''" "release_forms ''N/A'' = (''N/A'', ''N/A'')"
  by (simp_all add: short_ip4_of_def index_def release_forms_def)

lemma jail_fields_corrupt:
  assumes "json_get_value_all w (mountpoint jail) = None" "\<not> basejail_only l"
    "{''ip4_addr'', ''ip6_addr'', ''boot'', ''type'', ''dhcp''} \<subseteq> set (default_props w)"
    "get_dataset_origin w (name jail @ ''/root'') \<noteq> NoSuchDataset"
  shows "\<exists>tmpl. jail_fields w l loc jail =
    Inr ((fst loc, Some ''-''), [],
         Some \<lparr>jid = ''-'',
               uuid = (if \<not> full l then uuid_display (final_segment (name jail))
                       else final_segment (name jail)),
               boot = ''N/A'', state = ''CORRUPT'', jail_type = ''N/A'',
               full_release = ''N/A'', short_release = ''N/A'',
               full_ip4 = ''N/A'', short_ip4 = ''N/A'', ip6 = ''N/A'', template = tmpl\<rparr>)"
proof -
  obtain tmpl where t: "template_of w jail ''N/A'' = Inr tmpl"
    using template_of_total[OF assms(4)] by blast
  have k: "corrupt_conf w jail ''ip4_addr'' = Some ''N/A''"
    "corrupt_conf w jail ''ip6_addr'' = Some ''N/A''"
    "corrupt_conf w jail ''boot'' = Some ''N/A''"
    "corrupt_conf w jail ''type'' = Some ''N/A''"
    "corrupt_conf w jail ''dhcp'' = Some ''N/A''"
    using assms(3) by (simp_all add: corrupt_conf_lookup(3))
  show ?thesis
    by (rule exI[of _ tmpl])
      (simp add: jail_fields_def load_conf_corrupt[OF assms(1)] assms(2) bind_def getitem_def
        corrupt_conf_lookup(1,2) k run_state_def t dhcp_resolve_def placeholder_forms)
qed

text \<open>
  C1, as the code has it. Outside the basejail-only listing and the plugin view, when the
  default properties hold the keys the loop reads and the root dataset of the jail
  exists, a dataset whose configuration does not load gives a row with the state
  \<^verbatim>\<open>CORRUPT\<close>, the jail id \<^verbatim>\<open>-\<close>, \<^verbatim>\<open>N/A\<close> in every column that comes from the configuration,
  and the last segment of the dataset's name as its name (shortened like any other name
  outside the full view); no command is run for it.
\<close>

theorem corrupt_record:
  assumes "json_get_value_all w (mountpoint jail) = None" "\<not> basejail_only l" "\<not> plugin l"
    "{''ip4_addr'', ''ip6_addr'', ''boot'', ''type'', ''dhcp''} \<subseteq> set (default_props w)"
    "get_dataset_origin w (name jail @ ''/root'') \<noteq> NoSuchDataset"
  shows "\<exists>tmpl. list_all_jail w l loc jail =
    Inr ((fst loc, Some ''-''), [],
         Some (if full l
               then [''-'', final_segment (name jail), ''N/A'', ''CORRUPT'', ''N/A'', ''N/A'',
                     ''N/A'', ''N/A'', tmpl]
               else [''-'', uuid_display (final_segment (name jail)), ''CORRUPT'', ''N/A'',
                     ''N/A'']))"
proof -
  from jail_fields_corrupt[OF assms(1,2,4,5), of loc] obtain tmpl where
    "jail_fields w l loc jail =
    Inr ((fst loc, Some ''-''), [],
         Some \<lparr>jid = ''-'',
               uuid = (if \<not> full l then uuid_display (final_segment (name jail))
                       else final_segment (name jail)),
               boot = ''N/A'', state = ''CORRUPT'', jail_type = ''N/A'',
               full_release = ''N/A'', short_release = ''N/A'',
               full_ip4 = ''N/A'', short_ip4 = ''N/A'', ip6 = ''N/A'', template = tmpl\<rparr>)"
    by blast
  then show ?thesis using assms(3) by (intro exI[of _ tmpl]) (simp add: list_all_jail_def bind_def)
qed

theorem corrupt_record_witness:
  "json_get_value_all ex_world (mountpoint (ex_jail ''bad'')) = None \<and>
   \<not> basejail_only ex_list \<and> \<not> plugin ex_list \<and>
   {''ip4_addr'', ''ip6_addr'', ''boot'', ''type'', ''dhcp''} \<subseteq> set (default_props ex_world) \<and>
   get_dataset_origin ex_world (name (ex_jail ''bad'') @ ''/root'') \<noteq> NoSuchDataset \<and>
   list_all_jail ex_world ex_list (None, None) (ex_jail ''bad'') =
      Inr ((None, Some ''-''), [], Some [''-'', ''bad'', ''CORRUPT'', ''N/A'', ''N/A''])"
proof -
  have 1: "json_get_value_all ex_world (mountpoint (ex_jail ''bad'')) = None"
    by (simp add: ex_defs)
  have 2: "\<not> basejail_only ex_list" "\<not> plugin ex_list" by (simp_all add: ex_defs basejail_only_def)
  have 3: "{''ip4_addr'', ''ip6_addr'', ''boot'', ''type'', ''dhcp''} \<subseteq> set (default_props ex_world)"
    by (simp add: ex_defs)
  have 4: "get_dataset_origin ex_world (name (ex_jail ''bad'') @ ''/root'') \<noteq> NoSuchDataset"
    by (simp add: ex_defs)
  have 5: "final_segment (name (ex_jail ''bad'')) = ''bad''" by (simp add: ex_defs final_segment_def)
  have 6: "uuid_display ''bad'' = ''bad''"
    by (simp add: uuid_display_def UUID_def replace_def strip_def rstrip_def)
  have 7: "\<not> full ex_list" by (simp add: ex_defs)
  have "list_all_jail ex_world ex_list (None, None) (ex_jail ''bad'') =
      Inr ((None, Some ''-''), [], Some [''-'', ''bad'', ''CORRUPT'', ''N/A'', ''N/A''])"
    using corrupt_record[OF 1 2 3 4, of "(None, None)"] by (simp add: 5 6 7)
  then show ?thesis using 1 2 3 4 by blast
qed

text \<open>
  C1 as stated fails: in the basejail-only listing the row of a dataset whose
  configuration does not load is dropped.
\<close>

theorem corrupt_record_counterexample:
  "json_get_value_all ex_world (mountpoint (ex_jail ''bad'')) = None \<and>
   list_all_ioc ex_world (ex_list\<lparr>list_type := ''basejail''\<rparr>) (\<lambda>r. 0::nat) [ex_jail ''bad''] =
     Inr (Rows [])"
  by (simp add: ex_defs list_all_ioc_def list_all_jail_def jail_fields_def load_conf_def
      basejail_only_def get_def bind_def corrupt_conf_def)

section \<open>The portal of a plugin\<close>

lemma placeholders_resolvable:
  "resolvable w mp ph \<Longrightarrow> placeholders w mp url ph = Inr (resolved w mp url ph)"
  by (induction ph arbitrary: url)
    (auto simp: resolvable_def resolved_def split: plugin_value.splits)

lemma placeholders_stop:
  "resolvable w mp ph1 \<Longrightarrow>
   placeholders w mp url (ph1 @ (k, path) # ph2) =
     (case json_plugin_get_value w mp (split_chr CHR ''.'' path) of
        PluginValue v \<Rightarrow> placeholders w mp (replace k v (resolved w mp url ph1)) ph2
      | PluginKeyError \<Rightarrow> Inr (resolved w mp url ph1)
      | CommandFailed m \<Rightarrow>
          if geteuid w = 0
          then (case decode (join '' '' m) of
                  NotUtf8 \<Rightarrow> Inl UnicodeDecodeError
                | Beyond points \<Rightarrow> Inl (WideText points)
                | Decoded portal \<Rightarrow> Inr portal)
          else Inr ''Admin Portal requires root'')"
  by (induction ph1 arbitrary: url)
    (auto simp: resolvable_def resolved_def split: plugin_value.splits)

lemma prefix_spells: "prefix w s = spells w w s"
proof (induction w arbitrary: s)
  case Nil
  show ?case by simp
next
  case (Cons a as)
  show ?case using Cons[of "tl s"] by (cases s) auto
qed

lemma contains_mentions: "contains w t = mentions w w t"
proof (induction t)
  case Nil
  show ?case using prefix_spells[of w "[]"] by simp
next
  case (Cons c cs)
  then show ?case by (simp add: prefix_spells)
qed

lemma split1_chr_cut: "sep \<notin> set a \<Longrightarrow> split1_chr sep (a @ sep # b) = [a, b]"
  by (induction a) (auto simp: split1_chr_def)

lemma hd_split1_chr: "hd (split1_chr sep s) = takeWhile (\<lambda>c. c \<noteq> sep) s"
  by (simp add: split1_chr_def takeWhile_free)

lemma portal_ip_cases:
  "(mentions ''DHCP'' ''DHCP'' x \<longrightarrow> portal_ip x = ''DHCP'') \<and>
   (\<not> mentions ''DHCP'' ''DHCP'' x \<longrightarrow>
      (\<forall>iface rest. x = iface @ ''|'' @ rest \<and> CHR ''|'' \<notin> set iface \<longrightarrow>
         portal_ip x = takeWhile (\<lambda>c. c \<noteq> CHR ''/'') rest) \<and>
      (CHR ''|'' \<notin> set x \<longrightarrow> portal_ip x = takeWhile (\<lambda>c. c \<noteq> CHR ''/'') x))"
proof (intro conjI impI allI)
  assume "mentions ''DHCP'' ''DHCP'' x"
  then show "portal_ip x = ''DHCP''" by (simp add: portal_ip_def contains_mentions)
next
  fix iface rest
  assume n: "\<not> mentions ''DHCP'' ''DHCP'' x"
    and f: "x = iface @ ''|'' @ rest \<and> CHR ''|'' \<notin> set iface"
  have "split1_chr CHR ''|'' x = [iface, rest]" using f split1_chr_cut[of "CHR ''|''" iface rest] by simp
  then show "portal_ip x = takeWhile (\<lambda>c. c \<noteq> CHR ''/'') rest"
    using n by (simp add: portal_ip_def contains_mentions hd_split1_chr)
next
  assume n: "\<not> mentions ''DHCP'' ''DHCP'' x" and f: "CHR ''|'' \<notin> set x"
  have "split1_chr CHR ''|'' x = [x]" using f by (simp add: split1_chr_def)
  then show "portal_ip x = takeWhile (\<lambda>c. c \<noteq> CHR ''/'') x"
    using n by (simp add: portal_ip_def contains_mentions hd_split1_chr)
qed

text \<open>
  C9. In the plugin view a record whose type is neither \<^verbatim>\<open>plugin\<close> nor \<^verbatim>\<open>pluginv2\<close> gives
  no row; any other record gives a row whose last column is the portal. Without
  \<^verbatim>\<open>plugin/ui.json\<close> the portal is \<^verbatim>\<open>-\<close>. Otherwise \<^verbatim>\<open>%%IP%%\<close> in the declared URL is
  replaced by the address shown: \<^verbatim>\<open>DHCP\<close> when the full IPv4 form holds \<^verbatim>\<open>DHCP\<close>, and else
  what stands after the first \<^verbatim>\<open>|\<close> of the full form (the whole form when it has none) up
  to the first \<^verbatim>\<open>/\<close>. A missing \<^verbatim>\<open>adminportal_placeholders\<close> or a lookup that raises
  \<^verbatim>\<open>KeyError\<close> leaves the URL as resolved so far; a lookup that raises \<^verbatim>\<open>CommandFailed\<close> makes
  the portal the command's output (the words of its message joined by spaces, decoded)
  for root and \<^verbatim>\<open>Admin Portal requires root\<close> for anyone else.
\<close>

theorem plugin_portal_resolution:
  assumes "jail_fields w l loc jail = Inr (loc', calls, Some f)" "full l" "plugin l"
  shows
   "(jail_type f \<noteq> ''plugin'' \<and> jail_type f \<noteq> ''pluginv2'' \<longrightarrow>
       list_all_jail w l loc jail = Inr (loc', calls, None)) \<and>
    (jail_type f = ''plugin'' \<or> jail_type f = ''pluginv2'' \<longrightarrow>
       (\<forall>a. admin_portal_of w (mountpoint jail) (full_ip4 f) = Inr a \<longrightarrow>
          list_all_jail w l loc jail =
            Inr (loc', calls,
                 Some [jid f, uuid f, boot f, state f, jail_type f, full_release f,
                       full_ip4 f, ip6 f, template f, a]))) \<and>
    (open_ui_json w (mountpoint jail) = UiNotFound \<longrightarrow>
       admin_portal_of w (mountpoint jail) (full_ip4 f) = Inr ''-'') \<and>
    (mentions ''DHCP'' ''DHCP'' (full_ip4 f) \<longrightarrow> portal_ip (full_ip4 f) = ''DHCP'') \<and>
    (\<not> mentions ''DHCP'' ''DHCP'' (full_ip4 f) \<longrightarrow>
       (\<forall>iface rest. full_ip4 f = iface @ ''|'' @ rest \<and> CHR ''|'' \<notin> set iface \<longrightarrow>
          portal_ip (full_ip4 f) = takeWhile (\<lambda>c. c \<noteq> CHR ''/'') rest) \<and>
       (CHR ''|'' \<notin> set (full_ip4 f) \<longrightarrow>
          portal_ip (full_ip4 f) = takeWhile (\<lambda>c. c \<noteq> CHR ''/'') (full_ip4 f))) \<and>
    (\<forall>url. open_ui_json w (mountpoint jail) = UiData (Some url) None \<longrightarrow>
       admin_portal_of w (mountpoint jail) (full_ip4 f) =
         Inr (replace ''%%IP%%'' (portal_ip (full_ip4 f)) url)) \<and>
    (\<forall>url ph. open_ui_json w (mountpoint jail) = UiData (Some url) (Some ph) \<and>
        resolvable w (mountpoint jail) ph \<longrightarrow>
       admin_portal_of w (mountpoint jail) (full_ip4 f) =
         Inr (resolved w (mountpoint jail) (replace ''%%IP%%'' (portal_ip (full_ip4 f)) url) ph)) \<and>
    (\<forall>url ph1 k path ph2.
        open_ui_json w (mountpoint jail) = UiData (Some url) (Some (ph1 @ (k, path) # ph2)) \<and>
        resolvable w (mountpoint jail) ph1 \<longrightarrow>
       (json_plugin_get_value w (mountpoint jail) (split_chr CHR ''.'' path) = PluginKeyError \<longrightarrow>
          admin_portal_of w (mountpoint jail) (full_ip4 f) =
            Inr (resolved w (mountpoint jail)
                   (replace ''%%IP%%'' (portal_ip (full_ip4 f)) url) ph1)) \<and>
       (\<forall>m. json_plugin_get_value w (mountpoint jail) (split_chr CHR ''.'' path) =
               CommandFailed m \<longrightarrow>
          (geteuid w \<noteq> 0 \<longrightarrow>
             admin_portal_of w (mountpoint jail) (full_ip4 f) =
               Inr ''Admin Portal requires root'') \<and>
          (geteuid w = 0 \<longrightarrow>
             (\<forall>out. decode (join '' '' m) = Decoded out \<longrightarrow>
                admin_portal_of w (mountpoint jail) (full_ip4 f) = Inr out))))"
proof -
  have 1: "jail_type f \<noteq> ''plugin'' \<and> jail_type f \<noteq> ''pluginv2'' \<longrightarrow>
       list_all_jail w l loc jail = Inr (loc', calls, None)"
    using assms by (simp add: list_all_jail_def bind_def)
  have 2: "jail_type f = ''plugin'' \<or> jail_type f = ''pluginv2'' \<longrightarrow>
       (\<forall>a. admin_portal_of w (mountpoint jail) (full_ip4 f) = Inr a \<longrightarrow>
          list_all_jail w l loc jail =
            Inr (loc', calls,
                 Some [jid f, uuid f, boot f, state f, jail_type f, full_release f,
                       full_ip4 f, ip6 f, template f, a]))"
    using assms by (auto simp: list_all_jail_def bind_def)
  have 3: "open_ui_json w (mountpoint jail) = UiNotFound \<longrightarrow>
       admin_portal_of w (mountpoint jail) (full_ip4 f) = Inr ''-''"
    by (simp add: admin_portal_of_def)
  note 4 = portal_ip_cases[of "full_ip4 f"]
  have 5: "\<forall>url. open_ui_json w (mountpoint jail) = UiData (Some url) None \<longrightarrow>
       admin_portal_of w (mountpoint jail) (full_ip4 f) =
         Inr (replace ''%%IP%%'' (portal_ip (full_ip4 f)) url)"
    by (simp add: admin_portal_of_def)
  have 6: "\<forall>url ph. open_ui_json w (mountpoint jail) = UiData (Some url) (Some ph) \<and>
        resolvable w (mountpoint jail) ph \<longrightarrow>
       admin_portal_of w (mountpoint jail) (full_ip4 f) =
         Inr (resolved w (mountpoint jail) (replace ''%%IP%%'' (portal_ip (full_ip4 f)) url) ph)"
    by (simp add: admin_portal_of_def placeholders_resolvable)
  have 7: "\<forall>url ph1 k path ph2.
        open_ui_json w (mountpoint jail) = UiData (Some url) (Some (ph1 @ (k, path) # ph2)) \<and>
        resolvable w (mountpoint jail) ph1 \<longrightarrow>
       (json_plugin_get_value w (mountpoint jail) (split_chr CHR ''.'' path) = PluginKeyError \<longrightarrow>
          admin_portal_of w (mountpoint jail) (full_ip4 f) =
            Inr (resolved w (mountpoint jail)
                   (replace ''%%IP%%'' (portal_ip (full_ip4 f)) url) ph1)) \<and>
       (\<forall>m. json_plugin_get_value w (mountpoint jail) (split_chr CHR ''.'' path) =
               CommandFailed m \<longrightarrow>
          (geteuid w \<noteq> 0 \<longrightarrow>
             admin_portal_of w (mountpoint jail) (full_ip4 f) =
               Inr ''Admin Portal requires root'') \<and>
          (geteuid w = 0 \<longrightarrow>
             (\<forall>out. decode (join '' '' m) = Decoded out \<longrightarrow>
                admin_portal_of w (mountpoint jail) (full_ip4 f) = Inr out)))"
    by (simp add: admin_portal_of_def placeholders_stop)
  show ?thesis by (intro conjI 1 2 3 5 6 7 conjunct1[OF 4] conjunct2[OF 4])
qed

lemma ex_plug_fields_full:
  "jail_fields ex_world ex_plugin_view (None, None) (ex_jail ''plug'') =
   Inr ((Some True, Some ''9''),
      [[''jls'', ''-j'', ''ioc-plug''],
       [''jexec'', ''ioc-plug'', ''ifconfig'', ''epair0b'', ''inet'']], Some ex_plug)"
  by (simp add: ex_plugin_view_def ex_defs ex_plug_def eval_defs)

lemma ex_host_plugins:
  "jail_fields ex_host ex_plugin_view (None, None) (ex_jail ''pstat'') =
     Inr ((Some False, Some ''-''), [[''jls'', ''-j'', ''ioc-pstat'']],
          Some (ex_down ''pstat'' ''plugin''))"
  "jail_fields ex_host ex_plugin_view (None, None) (ex_jail ''pdown'') =
     Inr ((Some False, Some ''-''), [[''jls'', ''-j'', ''ioc-pdown'']],
          Some ex_pdown)"
  "jail_fields ex_host ex_plugin_view (None, None) (ex_jail ''pfail'') =
     Inr ((Some False, Some ''-''), [[''jls'', ''-j'', ''ioc-pfail'']],
          Some (ex_down ''pfail'' ''plugin''))"
  "jail_fields ex_host ex_plugin_view (None, None) (ex_jail ''pnone'') =
     Inr ((Some False, Some ''-''), [[''jls'', ''-j'', ''ioc-pnone'']],
          Some (ex_down ''pnone'' ''plugin''))"
  "jail_fields ex_host ex_plugin_view (None, None) (ex_jail ''web.1'') =
     Inr ((Some True, Some ''7''), [[''jls'', ''-j'', ''ioc-web_1'']], Some ex_web)"
  by (simp_all add: ex_host_def ex_plugin_view_def ex_defs ex_dh_def ex_web_def ex_down_def
      ex_pdown_def eval_defs char_of_small)

theorem plugin_portal_resolution_witness:
  "full ex_plugin_view \<and> plugin ex_plugin_view \<and>
   jail_fields ex_world ex_plugin_view (None, None) (ex_jail ''plug'') =
     Inr ((Some True, Some ''9''),
        [[''jls'', ''-j'', ''ioc-plug''],
         [''jexec'', ''ioc-plug'', ''ifconfig'', ''epair0b'', ''inet'']], Some ex_plug) \<and>
   list_all_jail ex_world ex_plugin_view (None, None) (ex_jail ''plug'') =
     Inr ((Some True, Some ''9''),
        [[''jls'', ''-j'', ''ioc-plug''],
         [''jexec'', ''ioc-plug'', ''ifconfig'', ''epair0b'', ''inet'']],
        Some [''9'', ''plug'', ''on'', ''up'', ''pluginv2'', ''11.2-RELEASE-p4'',
              ''epair0b|10.0.0.9'', ''-'', ''-'', ''http://10.0.0.9:8080/admin'']) \<and>
   jail_fields ex_host ex_plugin_view (None, None) (ex_jail ''web.1'') =
     Inr ((Some True, Some ''7''), [[''jls'', ''-j'', ''ioc-web_1'']], Some ex_web) \<and>
   list_all_jail ex_host ex_plugin_view (None, None) (ex_jail ''web.1'') =
     Inr ((Some True, Some ''7''), [[''jls'', ''-j'', ''ioc-web_1'']], None) \<and>
   open_ui_json ex_host (mountpoint (ex_jail ''pnone'')) = UiNotFound \<and>
   list_all_jail ex_host ex_plugin_view (None, None) (ex_jail ''pnone'') =
     Inr ((Some False, Some ''-''), [[''jls'', ''-j'', ''ioc-pnone'']],
        Some [''-'', ''pnone'', ''on'', ''down'', ''plugin'', ''11.2-RELEASE-p4'',
              ''vnet0|10.0.0.5/24'', ''-'', ''-'', ''-'']) \<and>
   json_plugin_get_value ex_host (mountpoint (ex_jail ''pstat'')) (split_chr CHR ''.'' ''web.path'') =
     PluginKeyError \<and>
   list_all_jail ex_host ex_plugin_view (None, None) (ex_jail ''pstat'') =
     Inr ((Some False, Some ''-''), [[''jls'', ''-j'', ''ioc-pstat'']],
        Some [''-'', ''pstat'', ''on'', ''down'', ''plugin'', ''11.2-RELEASE-p4'',
              ''vnet0|10.0.0.5/24'', ''-'', ''-'', ''http://10.0.0.5:8080/%%PATH%%'']) \<and>
   list_all_jail ex_host ex_plugin_view (None, None) (ex_jail ''pdown'') =
     Inr ((Some False, Some ''-''), [[''jls'', ''-j'', ''ioc-pdown'']],
        Some [''-'', ''pdown'', ''on'', ''down'', ''plugin'', ''11.2-RELEASE-p4'',
              ''DHCP (not running)'', ''-'', ''-'', ''http://DHCP/'']) \<and>
   json_plugin_get_value ex_host (mountpoint (ex_jail ''pfail'')) (split_chr CHR ''.'' ''svc.status'') =
     CommandFailed [''service'', ''failed''] \<and>
   geteuid ex_host = 0 \<and>
   list_all_jail ex_host ex_plugin_view (None, None) (ex_jail ''pfail'') =
     Inr ((Some False, Some ''-''), [[''jls'', ''-j'', ''ioc-pfail'']],
        Some [''-'', ''pfail'', ''on'', ''down'', ''plugin'', ''11.2-RELEASE-p4'',
              ''vnet0|10.0.0.5/24'', ''-'', ''-'', ''service failed''])"
proof -
  have v: "full ex_plugin_view" "plugin ex_plugin_view" by (simp_all add: ex_plugin_view_def)
  have t: "jail_type ex_plug = ''pluginv2''" "jail_type (ex_down n ''plugin'') = ''plugin''"
    "jail_type ex_pdown = ''plugin''"
    "jail_type ex_web \<noteq> ''plugin'' \<and> jail_type ex_web \<noteq> ''pluginv2''" for n
    by (simp_all add: ex_plug_def ex_down_def ex_web_def ex_pdown_def)
  have static: "full_ip4 (ex_down n ''plugin'') = ''vnet0'' @ ''|'' @ ''10.0.0.5/24'' \<and>
      CHR ''|'' \<notin> set ''vnet0''"
    "\<not> mentions ''DHCP'' ''DHCP'' (full_ip4 (ex_down n ''plugin''))" for n
    by (simp_all add: ex_down_def)
  have cut: "takeWhile (\<lambda>c. c \<noteq> CHR ''/'') ''10.0.0.5/24'' = ''10.0.0.5''" by simp
  note p = plugin_portal_resolution[OF ex_plug_fields_full v]
  have u: "open_ui_json ex_world (mountpoint (ex_jail ''plug'')) =
     UiData (Some ''http://%%IP%%:%%PORT%%/admin'') (Some [(''%%PORT%%'', ''net.port'')])"
    by (simp add: ex_defs)
  have r: "resolvable ex_world (mountpoint (ex_jail ''plug'')) [(''%%PORT%%'', ''net.port'')]"
    by (simp add: resolvable_def ex_defs)
  have pi: "full_ip4 ex_plug = ''epair0b'' @ ''|'' @ ''10.0.0.9'' \<and> CHR ''|'' \<notin> set ''epair0b''"
    "\<not> mentions ''DHCP'' ''DHCP'' (full_ip4 ex_plug)"
    by (simp_all add: ex_plug_def)
  have "portal_ip (full_ip4 ex_plug) = takeWhile (\<lambda>c. c \<noteq> CHR ''/'') ''10.0.0.9''"
    using p pi by blast
  then have ip: "portal_ip (full_ip4 ex_plug) = ''10.0.0.9''" by simp
  have "admin_portal_of ex_world (mountpoint (ex_jail ''plug'')) (full_ip4 ex_plug) =
        Inr (resolved ex_world (mountpoint (ex_jail ''plug''))
               (replace ''%%IP%%'' (portal_ip (full_ip4 ex_plug)) ''http://%%IP%%:%%PORT%%/admin'')
               [(''%%PORT%%'', ''net.port'')])"
    using p u r by blast
  then have "admin_portal_of ex_world (mountpoint (ex_jail ''plug'')) (full_ip4 ex_plug) =
        Inr ''http://10.0.0.9:8080/admin''"
    by (simp add: ip resolved_def ex_defs replace_def)
  then have plug: "list_all_jail ex_world ex_plugin_view (None, None) (ex_jail ''plug'') =
     Inr ((Some True, Some ''9''),
        [[''jls'', ''-j'', ''ioc-plug''],
         [''jexec'', ''ioc-plug'', ''ifconfig'', ''epair0b'', ''inet'']],
        Some [jid ex_plug, uuid ex_plug, boot ex_plug, state ex_plug, jail_type ex_plug,
              full_release ex_plug, full_ip4 ex_plug, ip6 ex_plug, template ex_plug,
              ''http://10.0.0.9:8080/admin''])"
    using p t(1) by blast
  have web: "list_all_jail ex_host ex_plugin_view (None, None) (ex_jail ''web.1'') =
     Inr ((Some True, Some ''7''), [[''jls'', ''-j'', ''ioc-web_1'']], None)"
    using plugin_portal_resolution[OF ex_host_plugins(5) v] t(4) by blast
  note q = plugin_portal_resolution[OF ex_host_plugins(4) v]
  have nu: "open_ui_json ex_host (mountpoint (ex_jail ''pnone'')) = UiNotFound"
    by (simp add: ex_host_def ex_defs)
  have "admin_portal_of ex_host (mountpoint (ex_jail ''pnone''))
          (full_ip4 (ex_down ''pnone'' ''plugin'')) = Inr ''-''"
    using q nu by blast
  then have pnone: "list_all_jail ex_host ex_plugin_view (None, None) (ex_jail ''pnone'') =
     Inr ((Some False, Some ''-''), [[''jls'', ''-j'', ''ioc-pnone'']],
        Some [jid (ex_down ''pnone'' ''plugin''), uuid (ex_down ''pnone'' ''plugin''),
              boot (ex_down ''pnone'' ''plugin''), state (ex_down ''pnone'' ''plugin''),
              jail_type (ex_down ''pnone'' ''plugin''), full_release (ex_down ''pnone'' ''plugin''),
              full_ip4 (ex_down ''pnone'' ''plugin''), ip6 (ex_down ''pnone'' ''plugin''),
              template (ex_down ''pnone'' ''plugin''), ''-''])"
    using q t(2) by blast
  note s = plugin_portal_resolution[OF ex_host_plugins(1) v]
  have su: "open_ui_json ex_host (mountpoint (ex_jail ''pstat'')) =
     UiData (Some ''http://%%IP%%:%%PORT%%/%%PATH%%'')
       (Some ([(''%%PORT%%'', ''net.port'')] @ (''%%PATH%%'', ''web.path'') # []))"
    by (simp add: ex_host_def ex_defs)
  have sr: "resolvable ex_host (mountpoint (ex_jail ''pstat'')) [(''%%PORT%%'', ''net.port'')]"
    by (simp add: resolvable_def ex_host_def ex_defs)
  have sk: "json_plugin_get_value ex_host (mountpoint (ex_jail ''pstat''))
      (split_chr CHR ''.'' ''web.path'') = PluginKeyError"
    by (simp add: ex_host_def ex_defs)
  have "portal_ip (full_ip4 (ex_down ''pstat'' ''plugin'')) =
      takeWhile (\<lambda>c. c \<noteq> CHR ''/'') ''10.0.0.5/24''"
    using s static[of "''pstat''"] by blast
  then have sip: "portal_ip (full_ip4 (ex_down ''pstat'' ''plugin'')) = ''10.0.0.5''"
    by (simp only: cut)
  have "admin_portal_of ex_host (mountpoint (ex_jail ''pstat''))
          (full_ip4 (ex_down ''pstat'' ''plugin'')) =
        Inr (resolved ex_host (mountpoint (ex_jail ''pstat''))
               (replace ''%%IP%%'' (portal_ip (full_ip4 (ex_down ''pstat'' ''plugin'')))
                  ''http://%%IP%%:%%PORT%%/%%PATH%%'')
               [(''%%PORT%%'', ''net.port'')])"
    using s su sr sk by blast
  then have "admin_portal_of ex_host (mountpoint (ex_jail ''pstat''))
          (full_ip4 (ex_down ''pstat'' ''plugin'')) = Inr ''http://10.0.0.5:8080/%%PATH%%''"
    by (simp add: sip resolved_def ex_host_def ex_defs replace_def)
  then have pstat: "list_all_jail ex_host ex_plugin_view (None, None) (ex_jail ''pstat'') =
     Inr ((Some False, Some ''-''), [[''jls'', ''-j'', ''ioc-pstat'']],
        Some [jid (ex_down ''pstat'' ''plugin''), uuid (ex_down ''pstat'' ''plugin''),
              boot (ex_down ''pstat'' ''plugin''), state (ex_down ''pstat'' ''plugin''),
              jail_type (ex_down ''pstat'' ''plugin''), full_release (ex_down ''pstat'' ''plugin''),
              full_ip4 (ex_down ''pstat'' ''plugin''), ip6 (ex_down ''pstat'' ''plugin''),
              template (ex_down ''pstat'' ''plugin''), ''http://10.0.0.5:8080/%%PATH%%''])"
    using s t(2) by blast
  note d = plugin_portal_resolution[OF ex_host_plugins(2) v]
  let ?fd = "ex_pdown"
  have du: "open_ui_json ex_host (mountpoint (ex_jail ''pdown'')) = UiData (Some ''http://%%IP%%/'') None"
    by (simp add: ex_host_def ex_defs)
  have dm: "mentions ''DHCP'' ''DHCP'' (full_ip4 ?fd)" by (simp add: ex_dh_def ex_pdown_def)
  have dip: "portal_ip (full_ip4 ?fd) = ''DHCP''" using d dm by blast
  have "admin_portal_of ex_host (mountpoint (ex_jail ''pdown'')) (full_ip4 ?fd) =
        Inr (replace ''%%IP%%'' (portal_ip (full_ip4 ?fd)) ''http://%%IP%%/'')"
    using d du by blast
  then have "admin_portal_of ex_host (mountpoint (ex_jail ''pdown'')) (full_ip4 ?fd) =
        Inr ''http://DHCP/''"
    by (simp add: dip replace_def)
  then have pdown: "list_all_jail ex_host ex_plugin_view (None, None) (ex_jail ''pdown'') =
     Inr ((Some False, Some ''-''), [[''jls'', ''-j'', ''ioc-pdown'']],
        Some [jid ?fd, uuid ?fd, boot ?fd, state ?fd, jail_type ?fd, full_release ?fd,
              full_ip4 ?fd, ip6 ?fd, template ?fd, ''http://DHCP/''])"
    using d t(3) by blast
  note c = plugin_portal_resolution[OF ex_host_plugins(3) v]
  have cu: "open_ui_json ex_host (mountpoint (ex_jail ''pfail'')) =
     UiData (Some ''http://%%IP%%/'') (Some ([] @ (''%%STATUS%%'', ''svc.status'') # []))"
    by (simp add: ex_host_def ex_defs)
  have cr: "resolvable ex_host (mountpoint (ex_jail ''pfail'')) []" by (simp add: resolvable_def)
  have ck: "json_plugin_get_value ex_host (mountpoint (ex_jail ''pfail''))
      (split_chr CHR ''.'' ''svc.status'') = CommandFailed [''service'', ''failed'']"
    by (simp add: ex_host_def ex_defs)
  have root: "geteuid ex_host = 0" by (simp add: ex_host_def ex_defs)
  have dec: "decode (join '' '' [''service'', ''failed'']) = Decoded ''service failed''"
    by (simp add: decode_ascii code_def)
  have "admin_portal_of ex_host (mountpoint (ex_jail ''pfail''))
          (full_ip4 (ex_down ''pfail'' ''plugin'')) = Inr ''service failed''"
    using c cu cr ck root dec by blast
  then have pfail: "list_all_jail ex_host ex_plugin_view (None, None) (ex_jail ''pfail'') =
     Inr ((Some False, Some ''-''), [[''jls'', ''-j'', ''ioc-pfail'']],
        Some [jid (ex_down ''pfail'' ''plugin''), uuid (ex_down ''pfail'' ''plugin''),
              boot (ex_down ''pfail'' ''plugin''), state (ex_down ''pfail'' ''plugin''),
              jail_type (ex_down ''pfail'' ''plugin''), full_release (ex_down ''pfail'' ''plugin''),
              full_ip4 (ex_down ''pfail'' ''plugin''), ip6 (ex_down ''pfail'' ''plugin''),
              template (ex_down ''pfail'' ''plugin''), ''service failed''])"
    using c t(2) by blast
  show ?thesis
    using v ex_plug_fields_full plug ex_host_plugins(5) web nu pnone sk pstat pdown ck root pfail
    by (simp add: ex_plug_def ex_down_def ex_dh_def ex_pdown_def)
qed

section \<open>The basejail-only listing\<close>

lemma list_all_jail_row:
  assumes "list_all_jail w l loc jail = Inr (loc1, calls, Some r)"
  shows "\<exists>f. jail_fields w l loc jail = Inr (loc1, calls, Some f) \<and> r ! 1 = uuid f"
proof -
  from assms obtain x where x: "jail_fields w l loc jail = Inr x"
    and k: "(case x of
         (loc1, calls, None) \<Rightarrow> Inr (loc1, calls, None)
       | (loc1, calls, Some f) \<Rightarrow>
           if full l \<and> plugin l then
             (if jail_type f \<noteq> ''plugin'' \<and> jail_type f \<noteq> ''pluginv2''
              then Inr (loc1, calls, None)
              else bind (admin_portal_of w (mountpoint jail) (full_ip4 f)) (\<lambda>admin_portal.
                     Inr (loc1, calls,
                          Some [jid f, uuid f, boot f, state f, jail_type f, full_release f,
                                full_ip4 f, ip6 f, template f, admin_portal])))
           else if full l then
             Inr (loc1, calls,
                  Some [jid f, uuid f, boot f, state f, jail_type f, full_release f,
                        full_ip4 f, ip6 f, template f])
           else Inr (loc1, calls, Some [jid f, uuid f, state f, short_release f, short_ip4 f])) =
       Inr (loc1, calls, Some r)"
    unfolding list_all_jail_def by (elim bindE)
  obtain a b c where xx: "x = (a, b, c)" by (cases x)
  show ?thesis
  proof (cases c)
    case None
    then show ?thesis using k xx by simp
  next
    case (Some f)
    then show ?thesis using k xx x
      by (auto simp: bind_Inr split: if_splits)
  qed
qed

lemma corrupt_conf_basejail: "get (corrupt_conf w jail) ''basejail'' ''no'' \<noteq> ''yes''"
  by (simp add: get_def corrupt_conf_def)

lemma jail_fields_basejail:
  assumes "jail_fields w l loc jail = Inr (loc1, calls, Some f)" "basejail_only l"
  shows "\<exists>conf u. json_get_value_all w (mountpoint jail) = Some conf \<and>
     conf ''basejail'' = Some ''yes'' \<and> conf ''host_hostuuid'' = Some u \<and>
     uuid f = (if full l then u else uuid_display u)"
proof -
  from assms(1) obtain c state0 jid0 uuid_full where
    lc: "load_conf w jail (snd loc) = (c, state0, jid0)"
    and nb: "\<not> (basejail_only l \<and> get c ''basejail'' ''no'' \<noteq> ''yes'')"
    and u: "c ''host_hostuuid'' = Some uuid_full"
    and f: "uuid f = (if \<not> full l then uuid_display uuid_full else uuid_full)"
    by (elim jail_fields_SomeE) simp
  have y: "get c ''basejail'' ''no'' = ''yes''" using nb assms(2) by simp
  have "json_get_value_all w (mountpoint jail) = Some c"
  proof (cases "json_get_value_all w (mountpoint jail)")
    case None
    then show ?thesis using lc y corrupt_conf_basejail[of w jail] by (simp add: load_conf_def)
  next
    case (Some a)
    then show ?thesis using lc by (simp add: load_conf_def)
  qed
  moreover have "c ''basejail'' = Some ''yes''" using y by (auto simp: get_def split: option.splits)
  ultimately show ?thesis using u f by auto
qed

lemma case_prod2E:
  assumes "(case x of (a, b) \<Rightarrow> F a b) = y"
  obtains a b where "x = (a, b)" "F a b = y"
  using assms by (cases x) auto

lemma list_all_loop_ConsE:
  assumes "list_all_loop w l loc (jail # jails) = Inr (rows, calls)"
  obtains loc1 c row rows' calls' where
    "list_all_jail w l loc jail = Inr (loc1, c, row)"
    "list_all_loop w l loc1 jails = Inr (rows', calls')"
    "rows = (case row of None \<Rightarrow> rows' | Some x \<Rightarrow> x # rows')"
    "calls = c @ calls'"
  using assms
  apply (simp only: list_all_loop.simps)
  apply (erule bindE)
  apply (erule case_prod3E)
  apply (erule bindE)
  apply (erule case_prod2E)
  apply (simp only: sum.inject prod.inject)
  done

lemma list_all_loop_rows:
  assumes "\<And>loc jail loc1 c r. jail \<in> set jails \<Longrightarrow>
             list_all_jail w l loc jail = Inr (loc1, c, Some r) \<Longrightarrow> P r"
    and "list_all_loop w l loc jails = Inr (rows, calls)"
  shows "\<forall>r\<in>set rows. P r"
  using assms
proof (induction jails arbitrary: loc rows calls)
  case Nil
  then show ?case by simp
next
  case (Cons jail jails)
  from Cons.prems(2) obtain loc1 c row rows' calls' where
    j: "list_all_jail w l loc jail = Inr (loc1, c, row)"
    and r: "list_all_loop w l loc1 jails = Inr (rows', calls')"
    and rows: "rows = (case row of None \<Rightarrow> rows' | Some x \<Rightarrow> x # rows')"
    by (rule list_all_loop_ConsE)
  have ih: "\<forall>r\<in>set rows'. P r"
  proof (rule Cons.IH[OF _ r])
    fix loc0 jail' loc2 c' r'
    assume "jail' \<in> set jails" "list_all_jail w l loc0 jail' = Inr (loc2, c', Some r')"
    then show "P r'" using Cons.prems(1)[of jail' loc0 loc2 c' r'] by simp
  qed
  show ?case
  proof (cases row)
    case None
    then show ?thesis using ih rows by simp
  next
    case (Some r)
    then have "P r" using Cons.prems(1)[of jail loc loc1 c r] j by simp
    then show ?thesis using ih rows Some by simp
  qed
qed


lemma list_all_ioc_loop:
  assumes "list_all_ioc w l0 key jails = Inr out"
  shows "\<exists>rows calls.
     list_all_loop w (l0\<lparr>full := (if plugin l0 then True else full l0)\<rparr>) (None, None) jails =
       Inr (rows, calls) \<and>
     set (records_of out) = set rows \<and> length (records_of out) = length rows"
proof -
  let ?l = "l0\<lparr>full := (if plugin l0 then True else full l0)\<rparr>"
  obtain r where r: "list_all_loop w ?l (None, None) jails = Inr r"
    using assms by (cases "list_all_loop w ?l (None, None) jails") (auto simp: list_all_ioc_def bind_def)
  obtain rows calls where rc: "r = (rows, calls)" by (cases r)
  have "set (records_of out) = set rows \<and> length (records_of out) = length rows"
    using assms r rc
    by (auto simp: list_all_ioc_def bind_def records_of_def split: if_splits)
  then show ?thesis using r rc by blast
qed

lemma list_all_quick_loop_ConsE:
  assumes "list_all_quick_loop w l conf0 (jail # jails) = Inr rows"
  obtains conf1 row rows' where
    "list_all_quick_jail w l conf0 jail = Inr (conf1, row)"
    "list_all_quick_loop w l conf1 jails = Inr rows'"
    "rows = (case row of None \<Rightarrow> rows' | Some x \<Rightarrow> x # rows')"
  using assms
  apply (simp only: list_all_quick_loop.simps)
  apply (erule bindE)
  apply (erule case_prod2E)
  apply (erule bindE)
  apply (simp only: sum.inject)
  done

lemma list_all_quick_jail_cases:
  assumes "list_all_quick_jail w l conf0 jail = Inr (conf1, row)"
  shows "\<exists>c. conf1 = Some c \<and>
     (open_config_json w (mountpoint jail) = ConfLoaded c \<or>
      open_config_json w (mountpoint jail) = ConfOtherError \<and> c = quick_corrupt_conf (mountpoint jail) \<or>
      open_config_json w (mountpoint jail) = ConfFileNotFound \<and> conf0 = Some c) \<and>
     (\<forall>r. row = Some r \<longrightarrow>
        (basejail_only l \<longrightarrow> get c ''basejail'' ''no'' = ''yes'') \<and>
        (\<exists>u. c ''host_hostuuid'' = Some u \<and> r ! 0 = u))"
  using assms
  by (auto simp: list_all_quick_jail_def bind_def getitem_def
      split: quick_conf.splits option.splits if_splits sum.splits)

lemma quick_corrupt_conf_basejail: "quick_corrupt_conf mp ''basejail'' = None"
  by (simp add: quick_corrupt_conf_def)

lemma get_yes: "get c ''basejail'' ''no'' = ''yes'' \<Longrightarrow> c ''basejail'' = Some ''yes''"
  by (auto simp: get_def split: option.splits)

lemma list_all_quick_loop_rows:
  assumes "basejail_only l"
    and "\<forall>c. conf0 = Some c \<longrightarrow> c ''basejail'' = Some ''yes'' \<longrightarrow>
           (\<exists>jail\<in>S. open_config_json w (mountpoint jail) = ConfLoaded c)"
    and "list_all_quick_loop w l conf0 jails = Inr rows"
  shows "\<forall>r\<in>set rows. \<exists>jail\<in>S \<union> set jails. \<exists>c u.
           open_config_json w (mountpoint jail) = ConfLoaded c \<and>
           c ''basejail'' = Some ''yes'' \<and> c ''host_hostuuid'' = Some u \<and> r ! 0 = u"
  using assms(2,3)
proof (induction jails arbitrary: conf0 S rows)
  case Nil
  then show ?case by simp
next
  case (Cons jail jails)
  from Cons.prems(2) obtain conf1 row rows' where
    j: "list_all_quick_jail w l conf0 jail = Inr (conf1, row)"
    and r: "list_all_quick_loop w l conf1 jails = Inr rows'"
    and rows: "rows = (case row of None \<Rightarrow> rows' | Some x \<Rightarrow> x # rows')"
    by (rule list_all_quick_loop_ConsE)
  from list_all_quick_jail_cases[OF j] obtain c where c: "conf1 = Some c"
    and src: "open_config_json w (mountpoint jail) = ConfLoaded c \<or>
      open_config_json w (mountpoint jail) = ConfOtherError \<and> c = quick_corrupt_conf (mountpoint jail) \<or>
      open_config_json w (mountpoint jail) = ConfFileNotFound \<and> conf0 = Some c"
    and row: "\<forall>r. row = Some r \<longrightarrow> get c ''basejail'' ''no'' = ''yes'' \<and>
        (\<exists>u. c ''host_hostuuid'' = Some u \<and> r ! 0 = u)"
    using assms(1) by blast
  have inv: "c ''basejail'' = Some ''yes'' \<longrightarrow>
           (\<exists>jail\<in>insert jail S. open_config_json w (mountpoint jail) = ConfLoaded c)"
    using src Cons.prems(1) by (auto simp: quick_corrupt_conf_basejail)
  have ih: "\<forall>r\<in>set rows'. \<exists>jail\<in>insert jail S \<union> set jails. \<exists>c u.
           open_config_json w (mountpoint jail) = ConfLoaded c \<and>
           c ''basejail'' = Some ''yes'' \<and> c ''host_hostuuid'' = Some u \<and> r ! 0 = u"
    using Cons.IH[OF _ r, of "insert jail S"] inv c by simp
  show ?case
  proof (cases row)
    case None
    then show ?thesis using ih rows by simp
  next
    case (Some x)
    then have y: "c ''basejail'' = Some ''yes''" and u: "\<exists>u. c ''host_hostuuid'' = Some u \<and> x ! 0 = u"
      using row get_yes by auto
    then have "\<exists>jail\<in>S \<union> set (jail # jails). \<exists>c u.
           open_config_json w (mountpoint jail) = ConfLoaded c \<and>
           c ''basejail'' = Some ''yes'' \<and> c ''host_hostuuid'' = Some u \<and> x ! 0 = u"
      using inv by auto
    then show ?thesis using ih rows Some by simp
  qed
qed

lemma list_all_quick_rows:
  assumes "list_all_quick w l jails = Inr out"
  shows "\<exists>rows. list_all_quick_loop w l None jails = Inr rows \<and> records_of out = rows"
  using assms
  by (cases "list_all_quick_loop w l None jails")
    (auto simp: list_all_quick_def bind_def records_of_def split: if_splits)

text \<open>
  C10. In the basejail-only listing every row of \<^verbatim>\<open>list_all\<close> and of \<^verbatim>\<open>list_all_quick\<close> carries
  the name of a configuration that loaded and has \<^verbatim>\<open>basejail\<close> set to \<^verbatim>\<open>yes\<close>; a dataset
  whose configuration is corrupt gives no row in either listing.
\<close>

theorem basejail_only_records:
  assumes "basejail_only l"
  shows "(\<forall>out. list_all_ioc w l key jails = Inr out \<longrightarrow>
      (\<forall>r\<in>set (records_of out). \<exists>jail\<in>set jails. \<exists>conf u.
         json_get_value_all w (mountpoint jail) = Some conf \<and>
         conf ''basejail'' = Some ''yes'' \<and> conf ''host_hostuuid'' = Some u \<and>
         r ! 1 = (if full l \<or> plugin l then u else uuid_display u))) \<and>
    (\<forall>out. list_all_quick w l jails = Inr out \<longrightarrow>
      (\<forall>r\<in>set (records_of out). \<exists>jail\<in>set jails. \<exists>conf u.
         open_config_json w (mountpoint jail) = ConfLoaded conf \<and>
         conf ''basejail'' = Some ''yes'' \<and> conf ''host_hostuuid'' = Some u \<and> r ! 0 = u)) \<and>
    (\<forall>jail loc. json_get_value_all w (mountpoint jail) = None \<longrightarrow>
       list_all_jail w l loc jail = Inr ((fst loc, Some ''-''), [], None)) \<and>
    (\<forall>jail conf0. open_config_json w (mountpoint jail) = ConfOtherError \<longrightarrow>
       list_all_quick_jail w l conf0 jail =
         Inr (Some (quick_corrupt_conf (mountpoint jail)), None))"
proof (intro conjI allI impI)
  fix out
  assume out: "list_all_ioc w l key jails = Inr out"
  let ?l = "l\<lparr>full := (if plugin l then True else full l)\<rparr>"
  from list_all_ioc_loop[OF out] obtain rows calls where
    lp: "list_all_loop w ?l (None, None) jails = Inr (rows, calls)"
    and rs: "set (records_of out) = set rows" by blast
  have b: "basejail_only ?l" using assms by (simp add: basejail_only_def)
  have "\<forall>r\<in>set rows. \<exists>jail\<in>set jails. \<exists>conf u.
         json_get_value_all w (mountpoint jail) = Some conf \<and>
         conf ''basejail'' = Some ''yes'' \<and> conf ''host_hostuuid'' = Some u \<and>
         r ! 1 = (if full l \<or> plugin l then u else uuid_display u)"
  proof (rule list_all_loop_rows[OF _ lp])
    fix loc jail loc1 c r
    assume jail: "jail \<in> set jails" and row: "list_all_jail w ?l loc jail = Inr (loc1, c, Some r)"
    from list_all_jail_row[OF row] obtain f where
      f: "jail_fields w ?l loc jail = Inr (loc1, c, Some f)" and r: "r ! 1 = uuid f" by blast
    from jail_fields_basejail[OF f b] jail r
    show "\<exists>jail\<in>set jails. \<exists>conf u.
         json_get_value_all w (mountpoint jail) = Some conf \<and>
         conf ''basejail'' = Some ''yes'' \<and> conf ''host_hostuuid'' = Some u \<and>
         r ! 1 = (if full l \<or> plugin l then u else uuid_display u)"
      by (auto split: if_splits)
  qed
  then show "\<forall>r\<in>set (records_of out). \<exists>jail\<in>set jails. \<exists>conf u.
         json_get_value_all w (mountpoint jail) = Some conf \<and>
         conf ''basejail'' = Some ''yes'' \<and> conf ''host_hostuuid'' = Some u \<and>
         r ! 1 = (if full l \<or> plugin l then u else uuid_display u)"
    using rs by simp
next
  fix out
  assume out: "list_all_quick w l jails = Inr out"
  from list_all_quick_rows[OF out] obtain rows where
    lp: "list_all_quick_loop w l None jails = Inr rows" and rs: "records_of out = rows" by blast
  show "\<forall>r\<in>set (records_of out). \<exists>jail\<in>set jails. \<exists>conf u.
         open_config_json w (mountpoint jail) = ConfLoaded conf \<and>
         conf ''basejail'' = Some ''yes'' \<and> conf ''host_hostuuid'' = Some u \<and> r ! 0 = u"
    using list_all_quick_loop_rows[OF assms _ lp, of "{}"] rs by simp
next
  fix jail :: dataset and loc :: locals
  assume "json_get_value_all w (mountpoint jail) = None"
  then show "list_all_jail w l loc jail = Inr ((fst loc, Some ''-''), [], None)"
    using assms corrupt_conf_basejail[of w jail]
    by (simp add: list_all_jail_def jail_fields_def load_conf_def bind_def)
next
  fix jail :: dataset and conf0 :: "conf option"
  assume "open_config_json w (mountpoint jail) = ConfOtherError"
  then show "list_all_quick_jail w l conf0 jail =
         Inr (Some (quick_corrupt_conf (mountpoint jail)), None)"
    using assms
    by (simp add: list_all_quick_jail_def bind_def getitem_def get_def quick_corrupt_conf_def)
qed

theorem basejail_only_records_witness:
  "basejail_only ex_basejail \<and>
   json_get_value_all ex_world (mountpoint (ex_jail ''bad'')) = None \<and>
   list_all_jail ex_world ex_basejail (None, None) (ex_jail ''bad'') =
     Inr ((None, Some ''-''), [], None) \<and>
   open_config_json ex_world (mountpoint (ex_jail ''bad'')) = ConfOtherError \<and>
   list_all_quick_jail ex_world ex_basejail None (ex_jail ''bad'') =
     Inr (Some (quick_corrupt_conf (mountpoint (ex_jail ''bad''))), None) \<and>
   list_all_ioc ex_world ex_basejail (\<lambda>r. 0::nat) [ex_jail ''web.1'', ex_jail ''bad'', ex_jail ''dh''] =
     Inr (Rows [[''7'', ''web.1'', ''up'', ''11.2-RELEASE'', ''10.0.0.5'']]) \<and>
   list_all_quick ex_world ex_basejail [ex_jail ''web.1'', ex_jail ''bad''] =
     Inr (Rows [[''web.1'', ''vnet0|10.0.0.5/24'']]) \<and>
   json_get_value_all ex_world (mountpoint (ex_jail ''web.1'')) = Some ex_conf \<and>
   open_config_json ex_world (mountpoint (ex_jail ''web.1'')) = ConfLoaded ex_conf \<and>
   ex_conf ''basejail'' = Some ''yes'' \<and> ex_conf ''host_hostuuid'' = Some ''web.1''"
proof -
  have b: "basejail_only ex_basejail" by (simp add: ex_basejail_def basejail_only_def)
  have 1: "json_get_value_all ex_world (mountpoint (ex_jail ''bad'')) = None"
    "open_config_json ex_world (mountpoint (ex_jail ''bad'')) = ConfOtherError"
    "json_get_value_all ex_world (mountpoint (ex_jail ''web.1'')) = Some ex_conf"
    "open_config_json ex_world (mountpoint (ex_jail ''web.1'')) = ConfLoaded ex_conf"
    "ex_conf ''basejail'' = Some ''yes''" "ex_conf ''host_hostuuid'' = Some ''web.1''"
    by (simp_all add: ex_defs)
  note t = basejail_only_records[OF b, of ex_world "\<lambda>r. 0::nat"
      "[ex_jail ''web.1'', ex_jail ''bad'', ex_jail ''dh'']"]
  have bad: "list_all_jail ex_world ex_basejail loc (ex_jail ''bad'') =
     Inr ((fst loc, Some ''-''), [], None)" for loc
    using t 1(1) by blast
  have badq: "list_all_quick_jail ex_world ex_basejail None (ex_jail ''bad'') =
     Inr (Some (quick_corrupt_conf (mountpoint (ex_jail ''bad''))), None)"
    using t 1(2) by blast
  have web: "list_all_jail ex_world ex_basejail loc (ex_jail ''web.1'') =
     Inr ((Some True, Some ''7''), [[''jls'', ''-j'', ''ioc-web_1'']],
          Some [''7'', ''web.1'', ''up'', ''11.2-RELEASE'', ''10.0.0.5''])" for loc
    by (simp add: list_all_jail_def ex_basejail_def ex_defs eval_defs)
  have dh: "list_all_jail ex_world ex_basejail loc (ex_jail ''dh'') =
     Inr ((fst loc, snd loc), [], None)" for loc
    by (simp add: list_all_jail_def ex_basejail_def ex_defs eval_defs)
  have l: "ex_basejail\<lparr>full := (if plugin ex_basejail then True else full ex_basejail)\<rparr> = ex_basejail"
    "\<not> header ex_basejail"
    by (simp_all add: ex_basejail_def ex_list_def)
  have full: "list_all_ioc ex_world ex_basejail (\<lambda>r. 0::nat)
       [ex_jail ''web.1'', ex_jail ''bad'', ex_jail ''dh''] =
     Inr (Rows [[''7'', ''web.1'', ''up'', ''11.2-RELEASE'', ''10.0.0.5'']])"
    unfolding list_all_ioc_def l(1) by (simp add: web bad dh bind_def l(2))
  have quick: "list_all_quick ex_world ex_basejail [ex_jail ''web.1'', ex_jail ''bad''] =
     Inr (Rows [[''web.1'', ''vnet0|10.0.0.5/24'']])"
    by (simp add: list_all_quick_def list_all_quick_jail_def bind_def getitem_def get_def ex_defs
      ex_basejail_def basejail_only_def quick_corrupt_conf_def rsplit1_def)
  show ?thesis using b 1 bad[of "(None, None)"] badq full quick by simp
qed

section \<open>Listings that succeed\<close>

lemma run_state_total:
  assumes "\<forall>out. check_output w (list_get_jid_argv u) = Exit0 out \<longrightarrow> 5 < length (str_split out)"
    "\<forall>e. check_output w (list_get_jid_argv u) \<noteq> Raises e"
  shows "\<exists>st j s1. run_state w [] u loc = Inr ((Some st, Some j), [list_get_jid_argv u], s1)"
  using assms
  by (cases "check_output w (list_get_jid_argv u)")
    (auto simp: run_state_def list_get_jid_def bind_def index_def)

lemma dhcp_resolve_total:
  assumes "conf ''dhcp'' = Some d" "conf ''interfaces'' = Some i"
    "\<forall>u i out. check_output w (ifconfig_argv u i) = Exit0 out \<longrightarrow>
         2 < length (splitlines out) \<and> 1 < length (bytes_split (splitlines out ! 2)) \<and>
         (\<exists>a. decode (bytes_split (splitlines out ! 2) ! 1) = Decoded a)"
    "\<forall>argv e. check_output w argv \<noteq> Raises e"
  shows "\<exists>r. dhcp_resolve w conf (Some st) u s0 f0 = Inr r"
proof (cases "check_output w (ifconfig_argv u (dhcp_interface i))")
  case (Exit0 out)
  then have "2 < length (splitlines out)" "1 < length (bytes_split (splitlines out ! 2))"
    "\<exists>addr. decode (bytes_split (splitlines out ! 2) ! 1) = Decoded addr"
    using assms(3) by auto
  then show ?thesis using assms(1,2) Exit0
    by (auto simp: dhcp_resolve_def bind_def getitem_def index_def)
next
  case (CalledProcessError e)
  then show ?thesis using assms(1,2)
    by (simp add: dhcp_resolve_def bind_def getitem_def)
next
  case (Raises e)
  then show ?thesis using assms(4) by simp
qed

lemma placeholders_total:
  assumes "geteuid w = 0 \<longrightarrow>
      (\<forall>path m. json_plugin_get_value w mp path = CommandFailed m \<longrightarrow>
         (\<exists>a. decode (join '' '' m) = Decoded a))"
  shows "\<exists>a. placeholders w mp url ph = Inr a"
proof (induction ph arbitrary: url)
  case Nil
  show ?case by simp
next
  case (Cons kp ph)
  obtain k p where kp: "kp = (k, p)" by (cases kp)
  show ?case
  proof (cases "json_plugin_get_value w mp (split_chr CHR ''.'' p)")
    case (PluginValue v)
    then show ?thesis using Cons kp by simp
  next
    case PluginKeyError
    then show ?thesis using kp by simp
  next
    case (CommandFailed m)
    show ?thesis
    proof (cases "geteuid w = 0")
      case True
      then have "(\<exists>a. decode (join '' '' m) = Decoded a)" using assms CommandFailed by blast
      then show ?thesis using CommandFailed kp True by auto
    next
      case False
      then show ?thesis using CommandFailed kp by simp
    qed
  qed
qed

lemma admin_portal_total:
  assumes "open_ui_json w mp \<noteq> UiNotJSON" "\<forall>p. open_ui_json w mp \<noteq> UiData None p"
    "geteuid w = 0 \<longrightarrow>
      (\<forall>path m. json_plugin_get_value w mp path = CommandFailed m \<longrightarrow>
         (\<exists>a. decode (join '' '' m) = Decoded a))"
  shows "\<exists>a. admin_portal_of w mp ip = Inr a"
  using assms(1,2) placeholders_total[OF assms(3)]
  by (cases "open_ui_json w mp")
    (auto simp: admin_portal_of_def split: option.splits)

lemma jail_fields_loaded:
  assumes ok: "full_inputs_ok w l jails" and jail: "jail \<in> set jails"
    and c: "json_get_value_all w (mountpoint jail) = Some conf"
    and nb: "\<not> (basejail_only l \<and> get conf ''basejail'' ''no'' \<noteq> ''yes'')"
  shows "\<exists>u a4 a6 b t r st j s1 tm c2 sh fu.
    conf ''host_hostuuid'' = Some u \<and>
    run_state w [] u loc = Inr ((Some st, Some j), [list_get_jid_argv u], s1) \<and>
    dhcp_resolve w conf (Some st) u (short_ip4_of a4) (if a4 = ''none'' then ''-'' else a4) =
       Inr (c2, sh, fu) \<and>
    jail_fields w l loc jail =
      Inr ((Some st, Some j), [list_get_jid_argv u] @ c2,
           Some \<lparr>jid = j, uuid = (if \<not> full l then uuid_display u else u),
                 boot = b, state = s1, jail_type = t,
                 full_release = fst (release_forms r), short_release = snd (release_forms r),
                 full_ip4 = fu, short_ip4 = sh,
                 ip6 = (if a6 = ''none'' then ''-'' else a6), template = tm\<rparr>)"
proof -
  have keys: "{''host_hostuuid'', ''ip4_addr'', ''ip6_addr'', ''boot'', ''type'', ''release'',
          ''dhcp'', ''interfaces''} \<subseteq> dom conf"
    by (rule ok[unfolded full_inputs_ok_def, THEN conjunct1, rule_format, OF jail c])
  have jls: "\<forall>u out. check_output w (list_get_jid_argv u) = Exit0 out \<longrightarrow>
         5 < length (str_split out)"
    by (rule ok[unfolded full_inputs_ok_def, THEN conjunct2, THEN conjunct2, THEN conjunct1])
  have ifc: "\<forall>u i out. check_output w (ifconfig_argv u i) = Exit0 out \<longrightarrow>
         2 < length (splitlines out) \<and> 1 < length (bytes_split (splitlines out ! 2)) \<and>
         (\<exists>a. decode (bytes_split (splitlines out ! 2) ! 1) = Decoded a)"
    by (rule ok[unfolded full_inputs_ok_def, THEN conjunct2, THEN conjunct2, THEN conjunct2,
          THEN conjunct1])
  have nr: "\<forall>argv e. check_output w argv \<noteq> Raises e"
    by (rule ok[unfolded full_inputs_ok_def, THEN conjunct2, THEN conjunct2, THEN conjunct2,
          THEN conjunct2, THEN conjunct1])
  have root: "get_dataset_origin w (name jail @ ''/root'') \<noteq> NoSuchDataset"
    by (rule ok[unfolded full_inputs_ok_def, THEN conjunct2, THEN conjunct2, THEN conjunct2,
          THEN conjunct2, THEN conjunct2, THEN conjunct1, rule_format, OF jail])
  from keys obtain u a4 a6 b t r d i where
    k: "conf ''host_hostuuid'' = Some u" "conf ''ip4_addr'' = Some a4" "conf ''ip6_addr'' = Some a6"
      "conf ''boot'' = Some b" "conf ''type'' = Some t" "conf ''release'' = Some r"
      "conf ''dhcp'' = Some d" "conf ''interfaces'' = Some i"
    by (auto simp: dom_def)
  from run_state_total[of w u loc] jls nr obtain st j s1 where
    rs: "run_state w [] u loc = Inr ((Some st, Some j), [list_get_jid_argv u], s1)"
    by blast
  from template_of_total[OF root] obtain tm where tm: "template_of w jail t = Inr tm" by blast
  from dhcp_resolve_total[OF k(7,8) ifc nr] obtain dr where
    dr: "dhcp_resolve w conf (Some st) u (short_ip4_of a4) (if a4 = ''none'' then ''-'' else a4) = Inr dr"
    by blast
  obtain c2 sh fu where drr: "dr = (c2, sh, fu)" by (cases dr)
  have "jail_fields w l loc jail =
      Inr ((Some st, Some j), [list_get_jid_argv u] @ c2,
           Some \<lparr>jid = j, uuid = (if \<not> full l then uuid_display u else u),
                 boot = b, state = s1, jail_type = t,
                 full_release = fst (release_forms r), short_release = snd (release_forms r),
                 full_ip4 = fu, short_ip4 = sh,
                 ip6 = (if a6 = ''none'' then ''-'' else a6), template = tm\<rparr>)"
    using nb
    by (simp add: jail_fields_def load_conf_loaded[OF c] bind_def getitem_def k rs tm dr drr)
  then show ?thesis using k(1) rs dr[unfolded drr] by blast
qed

lemma list_all_jail_total:
  assumes "full_inputs_ok w l jails" "jail \<in> set jails"
  shows "\<exists>loc1 calls row. list_all_jail w l loc jail = Inr (loc1, calls, row)"
proof -
  have root: "get_dataset_origin w (name jail @ ''/root'') \<noteq> NoSuchDataset"
    using assms by (simp add: full_inputs_ok_def)
  have "\<exists>loc1 calls fo. jail_fields w l loc jail = Inr (loc1, calls, fo)"
  proof (cases "json_get_value_all w (mountpoint jail)")
    case None
    show ?thesis
    proof (cases "basejail_only l")
      case True
      then show ?thesis
        using None corrupt_conf_basejail[of w jail]
        by (simp add: jail_fields_def load_conf_def)
    next
      case False
      have d: "{''ip4_addr'', ''ip6_addr'', ''boot'', ''type'', ''dhcp''} \<subseteq> set (default_props w)"
        using assms(1) by (simp add: full_inputs_ok_def)
      from jail_fields_corrupt[OF None False d root, of loc] show ?thesis by auto
    qed
  next
    case (Some conf)
    show ?thesis
    proof (cases "basejail_only l \<and> get conf ''basejail'' ''no'' \<noteq> ''yes''")
      case True
      then show ?thesis by (simp add: jail_fields_def load_conf_loaded[OF Some])
    next
      case False
      show ?thesis using jail_fields_loaded[OF assms Some False, of loc] by blast
    qed
  qed
  then obtain loc1 calls fo where jf: "jail_fields w l loc jail = Inr (loc1, calls, fo)" by blast
  show ?thesis
  proof (cases fo)
    case None
    then show ?thesis using jf by (simp add: list_all_jail_def bind_def)
  next
    case (Some f)
    show ?thesis
    proof (cases "plugin l")
      case False
      then show ?thesis using jf Some by (simp add: list_all_jail_def bind_def)
    next
      case True
      then obtain a where "admin_portal_of w (mountpoint jail) (full_ip4 f) = Inr a"
        using admin_portal_total[of w "mountpoint jail" "full_ip4 f"] assms
        by (auto simp: full_inputs_ok_def)
      then show ?thesis using jf Some True by (simp add: list_all_jail_def bind_def)
    qed
  qed
qed

lemma list_all_jail_absorbed:
  assumes ok: "full_inputs_ok w l jails" and jail: "jail \<in> set jails"
    and nb: "\<not> basejail_only l" and np: "\<not> plugin l"
  shows "\<exists>loc1 calls row. list_all_jail w l loc jail = Inr (loc1, calls, Some row) \<and>
           absorbed w l jail row"
proof -
  have root: "get_dataset_origin w (name jail @ ''/root'') \<noteq> NoSuchDataset"
    using ok jail by (simp add: full_inputs_ok_def)
  show ?thesis
  proof (cases "json_get_value_all w (mountpoint jail)")
    case None
    have d: "{''ip4_addr'', ''ip6_addr'', ''boot'', ''type'', ''dhcp''} \<subseteq> set (default_props w)"
      using ok by (simp add: full_inputs_ok_def)
    from jail_fields_corrupt[OF None nb d root, of loc] obtain tmpl where
      jf: "jail_fields w l loc jail =
        Inr ((fst loc, Some ''-''), [],
         Some \<lparr>jid = ''-'',
               uuid = (if \<not> full l then uuid_display (final_segment (name jail))
                       else final_segment (name jail)),
               boot = ''N/A'', state = ''CORRUPT'', jail_type = ''N/A'',
               full_release = ''N/A'', short_release = ''N/A'',
               full_ip4 = ''N/A'', short_ip4 = ''N/A'', ip6 = ''N/A'', template = tmpl\<rparr>)"
      by blast
    let ?row = "if full l
               then [''-'', final_segment (name jail), ''N/A'', ''CORRUPT'', ''N/A'', ''N/A'',
                     ''N/A'', ''N/A'', tmpl]
               else [''-'', uuid_display (final_segment (name jail)), ''CORRUPT'', ''N/A'',
                     ''N/A'']"
    have "list_all_jail w l loc jail = Inr ((fst loc, Some ''-''), [], Some ?row)"
      using jf np by (simp add: list_all_jail_def bind_def)
    moreover have "absorbed w l jail ?row" unfolding absorbed_def using None by auto
    ultimately show ?thesis by blast
  next
    case (Some conf)
    have nby: "\<not> (basejail_only l \<and> get conf ''basejail'' ''no'' \<noteq> ''yes'')" using nb by simp
    have "\<exists>u a4 a6 b t r st j s1 tm c2 sh fu.
      conf ''host_hostuuid'' = Some u \<and>
      run_state w [] u loc = Inr ((Some st, Some j), [list_get_jid_argv u], s1) \<and>
      dhcp_resolve w conf (Some st) u (short_ip4_of a4) (if a4 = ''none'' then ''-'' else a4) =
         Inr (c2, sh, fu) \<and>
      jail_fields w l loc jail =
        Inr ((Some st, Some j), [list_get_jid_argv u] @ c2,
           Some \<lparr>jid = j, uuid = (if \<not> full l then uuid_display u else u),
                 boot = b, state = s1, jail_type = t,
                 full_release = fst (release_forms r), short_release = snd (release_forms r),
                 full_ip4 = fu, short_ip4 = sh,
                 ip6 = (if a6 = ''none'' then ''-'' else a6), template = tm\<rparr>)"
      by (rule jail_fields_loaded[OF ok jail Some nby])
    then obtain u a4 a6 b t r st j s1 tm c2 sh fu where
      u: "conf ''host_hostuuid'' = Some u"
      and rs: "run_state w [] u loc = Inr ((Some st, Some j), [list_get_jid_argv u], s1)"
      and dr: "dhcp_resolve w conf (Some st) u (short_ip4_of a4)
                 (if a4 = ''none'' then ''-'' else a4) = Inr (c2, sh, fu)"
      and jf: "jail_fields w l loc jail =
        Inr ((Some st, Some j), [list_get_jid_argv u] @ c2,
           Some \<lparr>jid = j, uuid = (if \<not> full l then uuid_display u else u),
                 boot = b, state = s1, jail_type = t,
                 full_release = fst (release_forms r), short_release = snd (release_forms r),
                 full_ip4 = fu, short_ip4 = sh,
                 ip6 = (if a6 = ''none'' then ''-'' else a6), template = tm\<rparr>)"
      by blast
    let ?row = "if full l
      then [j, u, b, s1, t, fst (release_forms r), fu, (if a6 = ''none'' then ''-'' else a6), tm]
      else [j, uuid_display u, s1, snd (release_forms r), sh]"
    have row: "list_all_jail w l loc jail =
        Inr ((Some st, Some j), [list_get_jid_argv u] @ c2, Some ?row)"
      using jf np by (simp add: list_all_jail_def bind_def)
    note r = run_state_loaded[OF rs]
    have down: "\<forall>e. check_output w (list_get_jid_argv u) = CalledProcessError e \<longrightarrow>
        j = ''-'' \<and> s1 = ''down''"
      using r by auto
    have up: "\<forall>out. check_output w (list_get_jid_argv u) = Exit0 out \<longrightarrow> st" using r by auto
    have net: "\<forall>out i e. check_output w (list_get_jid_argv u) = Exit0 out \<and> geteuid w = 0 \<and>
          conf ''dhcp'' = Some ''on'' \<and> conf ''interfaces'' = Some i \<and>
          check_output w (ifconfig_argv u (dhcp_interface i)) = CalledProcessError e \<longrightarrow>
        sh = ''DHCP(Network Issue)'' \<and> fu = ''DHCP - Network Issue:'' @ e"
    proof (intro allI impI)
      fix out i e
      assume a: "check_output w (list_get_jid_argv u) = Exit0 out \<and> geteuid w = 0 \<and>
          conf ''dhcp'' = Some ''on'' \<and> conf ''interfaces'' = Some i \<and>
          check_output w (ifconfig_argv u (dhcp_interface i)) = CalledProcessError e"
      then have st: "st" using up by blast
      from dhcp_resolve_on[OF dr] a st show "sh = ''DHCP(Network Issue)'' \<and> fu = ''DHCP - Network Issue:'' @ e"
        by auto
    qed
    have "absorbed w l jail ?row"
      unfolding absorbed_def using Some u down net by (cases "full l") auto
    then show ?thesis using row by blast
  qed
qed

lemma list_all_loop_total:
  assumes "\<And>jail loc. jail \<in> set jails \<Longrightarrow>
      \<exists>loc1 calls row. list_all_jail w l loc jail = Inr (loc1, calls, row)"
  shows "\<exists>rows calls. list_all_loop w l loc jails = Inr (rows, calls)"
  using assms
proof (induction jails arbitrary: loc)
  case Nil
  then show ?case by simp
next
  case (Cons jail jails)
  from Cons.prems[of jail loc] obtain loc1 calls row where
    j: "list_all_jail w l loc jail = Inr (loc1, calls, row)" by auto
  have "\<exists>rows calls. list_all_loop w l loc1 jails = Inr (rows, calls)"
    by (rule Cons.IH) (rule Cons.prems, simp)
  then obtain rows calls' where l: "list_all_loop w l loc1 jails = Inr (rows, calls')" by blast
  show ?case using j l by (simp add: bind_def)
qed

lemma list_all_loop_all2:
  assumes "\<And>jail loc. jail \<in> set jails \<Longrightarrow>
      \<exists>loc1 calls row. list_all_jail w l loc jail = Inr (loc1, calls, Some row) \<and> P jail row"
  shows "\<exists>rows calls. list_all_loop w l loc jails = Inr (rows, calls) \<and> list_all2 P jails rows"
  using assms
proof (induction jails arbitrary: loc)
  case Nil
  then show ?case by simp
next
  case (Cons jail jails)
  from Cons.prems[of jail loc] obtain loc1 calls row where
    j: "list_all_jail w l loc jail = Inr (loc1, calls, Some row)" and p: "P jail row" by auto
  have "\<exists>rows calls. list_all_loop w l loc1 jails = Inr (rows, calls) \<and> list_all2 P jails rows"
    by (rule Cons.IH) (rule Cons.prems, simp)
  then obtain rows calls' where
    l: "list_all_loop w l loc1 jails = Inr (rows, calls')" and n: "list_all2 P jails rows"
    by blast
  show ?case using j p l n by (simp add: bind_def)
qed

lemma list_all_quick_jail_total:
  assumes "open_config_json w (mountpoint jail) \<noteq> ConfFileNotFound"
    "\<forall>c. open_config_json w (mountpoint jail) = ConfLoaded c \<longrightarrow> c ''host_hostuuid'' \<noteq> None"
  shows "\<exists>conf1 row. list_all_quick_jail w l conf0 jail = Inr (conf1, row) \<and>
           (\<not> basejail_only l \<longrightarrow> (\<exists>r. row = Some r \<and> absorbed_quick w jail r))"
  using assms
  by (cases "open_config_json w (mountpoint jail)")
    (auto simp: list_all_quick_jail_def bind_def getitem_def get_def quick_corrupt_conf_def
      absorbed_quick_def last_rsplit1_slash)

lemma list_all_quick_loop_total:
  assumes "\<And>jail conf0. jail \<in> set jails \<Longrightarrow>
      \<exists>conf1 row. list_all_quick_jail w l conf0 jail = Inr (conf1, row) \<and>
        (C \<longrightarrow> (\<exists>r. row = Some r \<and> P jail r))"
  shows "\<exists>rows. list_all_quick_loop w l conf0 jails = Inr rows \<and>
           (C \<longrightarrow> list_all2 P jails rows)"
  using assms
proof (induction jails arbitrary: conf0)
  case Nil
  then show ?case by simp
next
  case (Cons jail jails)
  from Cons.prems[of jail conf0] obtain conf1 row where
    j: "list_all_quick_jail w l conf0 jail = Inr (conf1, row)"
    and r: "C \<longrightarrow> (\<exists>r. row = Some r \<and> P jail r)" by auto
  have "\<exists>rows. list_all_quick_loop w l conf1 jails = Inr rows \<and>
           (C \<longrightarrow> list_all2 P jails rows)"
    by (rule Cons.IH) (rule Cons.prems, simp)
  then obtain rows where
    l: "list_all_quick_loop w l conf1 jails = Inr rows" and n: "C \<longrightarrow> list_all2 P jails rows"
    by blast
  show ?case using j r l n by (cases row) (auto simp: bind_def)
qed

text \<open>
  C2, as the code has it. \<^verbatim>\<open>list_all\<close> returns a result whichever configurations fail to
  load and whichever commands exit with a non-zero status, and \<^verbatim>\<open>list_all_quick\<close> returns a
  result whichever configuration files fail to parse, when the remaining inputs are
  as \<^verbatim>\<open>full_inputs_ok\<close> and \<^verbatim>\<open>quick_inputs_ok\<close> say. Outside the basejail-only listing
  (and, for \<^verbatim>\<open>list_all\<close>, the plugin view) the result has one row for each dataset, in
  the order of the datasets before \<^verbatim>\<open>list_all\<close> sorts them, and the failure of a dataset is
  in its own row as \<^verbatim>\<open>absorbed\<close> and \<^verbatim>\<open>absorbed_quick\<close> say.
\<close>

theorem listing_succeeds:
  "(full_inputs_ok w l jails \<longrightarrow>
      (\<exists>out. list_all_ioc w l key jails = Inr out \<and>
         (\<not> basejail_only l \<and> \<not> plugin l \<longrightarrow>
            (\<exists>rows. records_of out = sort_key key rows \<and> list_all2 (absorbed w l) jails rows)))) \<and>
   (quick_inputs_ok w jails \<longrightarrow>
      (\<exists>out. list_all_quick w l jails = Inr out \<and>
         (\<not> basejail_only l \<longrightarrow> list_all2 (absorbed_quick w) jails (records_of out))))"
proof (intro conjI impI)
  assume ok: "full_inputs_ok w l jails"
  let ?l = "l\<lparr>full := (if plugin l then True else full l)\<rparr>"
  have ok': "full_inputs_ok w ?l jails" using ok by (simp add: full_inputs_ok_def)
  have b: "basejail_only ?l = basejail_only l" "plugin ?l = plugin l"
    by (simp_all add: basejail_only_def)
  show "\<exists>out. list_all_ioc w l key jails = Inr out \<and>
         (\<not> basejail_only l \<and> \<not> plugin l \<longrightarrow>
            (\<exists>rows. records_of out = sort_key key rows \<and> list_all2 (absorbed w l) jails rows))"
  proof (cases "\<not> basejail_only l \<and> \<not> plugin l")
    case True
    then have l: "?l = l" by simp
    have "\<exists>rows calls. list_all_loop w l (None, None) jails = Inr (rows, calls) \<and>
            list_all2 (absorbed w l) jails rows"
    proof (rule list_all_loop_all2)
      fix jail loc
      assume "jail \<in> set jails"
      then show "\<exists>loc1 calls row. list_all_jail w l loc jail = Inr (loc1, calls, Some row) \<and>
           absorbed w l jail row"
        using list_all_jail_absorbed[OF ok _ _ _, of jail loc] True by blast
    qed
    then obtain rows calls where lp: "list_all_loop w l (None, None) jails = Inr (rows, calls)"
      and a: "list_all2 (absorbed w l) jails rows" by blast
    have "\<exists>out. list_all_ioc w l key jails = Inr out \<and> records_of out = sort_key key rows"
      using lp unfolding list_all_ioc_def l by (auto simp: bind_def records_of_def)
    then show ?thesis using a by blast
  next
    case False
    have "\<exists>rows calls. list_all_loop w ?l (None, None) jails = Inr (rows, calls)"
    proof (rule list_all_loop_total)
      fix jail loc
      assume "jail \<in> set jails"
      from list_all_jail_total[OF ok' this, of loc]
      show "\<exists>loc1 calls row. list_all_jail w ?l loc jail = Inr (loc1, calls, row)" .
    qed
    then obtain rows calls where lp: "list_all_loop w ?l (None, None) jails = Inr (rows, calls)"
      by blast
    have "\<exists>out. list_all_ioc w l key jails = Inr out"
      using lp by (auto simp: list_all_ioc_def bind_def)
    then show ?thesis using False by blast
  qed
next
  assume ok: "quick_inputs_ok w jails"
  have "\<exists>rows. list_all_quick_loop w l None jails = Inr rows \<and>
           (\<not> basejail_only l \<longrightarrow> list_all2 (absorbed_quick w) jails rows)"
  proof (rule list_all_quick_loop_total)
    fix jail conf0
    assume "jail \<in> set jails"
    then show "\<exists>conf1 row. list_all_quick_jail w l conf0 jail = Inr (conf1, row) \<and>
           (\<not> basejail_only l \<longrightarrow> (\<exists>r. row = Some r \<and> absorbed_quick w jail r))"
      using ok by (intro list_all_quick_jail_total) (auto simp: quick_inputs_ok_def)
  qed
  then show "\<exists>out. list_all_quick w l jails = Inr out \<and>
         (\<not> basejail_only l \<longrightarrow> list_all2 (absorbed_quick w) jails (records_of out))"
    by (cases "header l") (auto simp: list_all_quick_def bind_def records_of_def)
qed

lemma ex_web_row:
  "list_all_jail ex_world ex_list loc (ex_jail ''web.1'') =
     Inr ((Some True, Some ''7''), [[''jls'', ''-j'', ''ioc-web_1'']],
          Some [''7'', ''web.1'', ''up'', ''11.2-RELEASE'', ''10.0.0.5''])"
  by (simp add: list_all_jail_def ex_defs eval_defs)

lemma ex_bad_row:
  "list_all_jail ex_world ex_list loc (ex_jail ''bad'') =
     Inr ((fst loc, Some ''-''), [], Some [''-'', ''bad'', ''CORRUPT'', ''N/A'', ''N/A''])"
  by (simp add: list_all_jail_def ex_defs eval_defs corrupt_conf_def)

lemma ex_dh_row:
  "list_all_jail ex_world ex_list loc (ex_jail ''dh'') =
     Inr ((Some False, Some ''-''), [[''jls'', ''-j'', ''ioc-dh'']],
          Some [''-'', ''dh'', ''down'', ''11.2-RELEASE'', ''DHCP''])"
  by (simp add: list_all_jail_def ex_defs eval_defs)

lemma ex_plug_row:
  "list_all_jail ex_world ex_list loc (ex_jail ''plug'') =
     Inr ((Some True, Some ''9''),
          [[''jls'', ''-j'', ''ioc-plug''],
           [''jexec'', ''ioc-plug'', ''ifconfig'', ''epair0b'', ''inet'']],
          Some [''9'', ''plug'', ''up'', ''11.2-RELEASE'', ''DHCP''])"
  by (simp add: list_all_jail_def ex_defs eval_defs)

lemma ex_listing:
  "list_all_ioc ex_world ex_list (\<lambda>r. 0::nat) ex_jails =
     Inr (Rows [[''7'', ''web.1'', ''up'', ''11.2-RELEASE'', ''10.0.0.5''],
                [''-'', ''bad'', ''CORRUPT'', ''N/A'', ''N/A''],
                [''-'', ''dh'', ''down'', ''11.2-RELEASE'', ''DHCP''],
                [''9'', ''plug'', ''up'', ''11.2-RELEASE'', ''DHCP'']])"
proof -
  have l: "ex_list\<lparr>full := (if plugin ex_list then True else full ex_list)\<rparr> = ex_list"
    by (simp add: ex_list_def)
  have h: "\<not> header ex_list" by (simp add: ex_list_def)
  show ?thesis
    unfolding list_all_ioc_def l ex_jails_def
    by (simp add: ex_web_row ex_bad_row ex_dh_row ex_plug_row bind_def h)
qed

lemma ex_outputs:
  "str_split ''   JID  IP Address      Hostname      Path     7  10.0.0.5  web.1  /iocage/jails/web.1/root'' =
     [''JID'', ''IP'', ''Address'', ''Hostname'', ''Path'', ''7'', ''10.0.0.5'', ''web.1'',
      ''/iocage/jails/web.1/root'']"
  "str_split ''   JID  IP Address      Hostname      Path     9  -  plug  /iocage/jails/plug/root'' =
     [''JID'', ''IP'', ''Address'', ''Hostname'', ''Path'', ''9'', ''-'', ''plug'',
      ''/iocage/jails/plug/root'']"
  "splitlines ex_ifconfig =
     [''epair0b: flags=8843 metric 0 mtu 1500'', ''options=8'',
      ''inet 10.0.0.9 netmask 0xffffff00 broadcast 10.0.0.255'']"
  "bytes_split ''inet 10.0.0.9 netmask 0xffffff00 broadcast 10.0.0.255'' =
     [''inet'', ''10.0.0.9'', ''netmask'', ''0xffffff00'', ''broadcast'', ''10.0.0.255'']"
  by (simp_all add: str_split_def str_isspace_def splitlines_def bytes_split_def
      bytes_isspace_def code_def ex_ifconfig_def)

lemma ex_full_inputs_ok: "full_inputs_ok ex_world ex_list ex_jails"
proof -
  have 1: "\<forall>jail\<in>set ex_jails. \<forall>conf. json_get_value_all ex_world (mountpoint jail) = Some conf \<longrightarrow>
         {''host_hostuuid'', ''ip4_addr'', ''ip6_addr'', ''boot'', ''type'', ''release'',
          ''dhcp'', ''interfaces''} \<subseteq> dom conf"
    by (auto simp: ex_jails_def ex_defs)
  have 2: "{''ip4_addr'', ''ip6_addr'', ''boot'', ''type'', ''dhcp''} \<subseteq> set (default_props ex_world)"
    by (simp add: ex_defs)
  have 3: "\<forall>u out. check_output ex_world (list_get_jid_argv u) = Exit0 out \<longrightarrow>
         5 < length (str_split out)"
    by (auto simp: ex_world_def list_get_jid_argv_def ex_outputs split: if_splits)
  have 4: "\<forall>u i out. check_output ex_world (ifconfig_argv u i) = Exit0 out \<longrightarrow>
         2 < length (splitlines out) \<and> 1 < length (bytes_split (splitlines out ! 2)) \<and>
         (\<exists>a. decode (bytes_split (splitlines out ! 2) ! 1) = Decoded a)"
    by (auto simp: ex_world_def ifconfig_argv_def ex_outputs decode_ascii code_def split: if_splits)
  have 5: "\<forall>jail\<in>set ex_jails. get_dataset_origin ex_world (name jail @ ''/root'') \<noteq> NoSuchDataset"
    by (simp add: ex_jails_def ex_defs)
  have 6: "\<not> plugin ex_list" by (simp add: ex_list_def)
  have 7: "\<forall>argv e. check_output ex_world argv \<noteq> Raises e" by (simp add: ex_world_def)
  show ?thesis unfolding full_inputs_ok_def using 1 2 3 4 5 6 7 by blast
qed

lemma ex_quick_listing:
  "list_all_quick ex_world ex_list [ex_jail ''web.1'', ex_jail ''bad''] =
     Inr (Rows [[''web.1'', ''vnet0|10.0.0.5/24''], [''bad - CORRUPTED'', ''N/A'']])"
  by (simp add: list_all_quick_def list_all_quick_jail_def bind_def getitem_def get_def ex_defs
      basejail_only_def quick_corrupt_conf_def rsplit1_def)

lemma ex_no_net_ok: "full_inputs_ok ex_no_net ex_list [ex_jail ''plug'']"
proof -
  have 1: "\<forall>jail\<in>set [ex_jail ''plug'']. \<forall>conf.
         json_get_value_all ex_no_net (mountpoint jail) = Some conf \<longrightarrow>
         {''host_hostuuid'', ''ip4_addr'', ''ip6_addr'', ''boot'', ''type'', ''release'',
          ''dhcp'', ''interfaces''} \<subseteq> dom conf"
    by (auto simp: ex_no_net_def ex_defs)
  have 2: "{''ip4_addr'', ''ip6_addr'', ''boot'', ''type'', ''dhcp''} \<subseteq> set (default_props ex_no_net)"
    by (simp add: ex_no_net_def ex_defs)
  have 3: "\<forall>u out. check_output ex_no_net (list_get_jid_argv u) = Exit0 out \<longrightarrow>
         5 < length (str_split out)"
    by (auto simp: ex_no_net_def ex_world_def list_get_jid_argv_def ex_outputs split: if_splits)
  have 4: "\<forall>u i out. check_output ex_no_net (ifconfig_argv u i) = Exit0 out \<longrightarrow>
         2 < length (splitlines out) \<and> 1 < length (bytes_split (splitlines out ! 2)) \<and>
         (\<exists>a. decode (bytes_split (splitlines out ! 2) ! 1) = Decoded a)"
    by (simp add: ex_no_net_def ifconfig_argv_def)
  have 5: "\<forall>jail\<in>set [ex_jail ''plug''].
         get_dataset_origin ex_no_net (name jail @ ''/root'') \<noteq> NoSuchDataset"
    by (simp add: ex_no_net_def ex_defs)
  have 6: "\<not> plugin ex_list" by (simp add: ex_list_def)
  have 7: "\<forall>argv e. check_output ex_no_net argv \<noteq> Raises e"
    by (simp add: ex_no_net_def ex_world_def)
  show ?thesis unfolding full_inputs_ok_def using 1 2 3 4 5 6 7 by blast
qed

lemma ex_no_net_listing:
  "list_all_ioc ex_no_net ex_list (\<lambda>r. 0::nat) [ex_jail ''plug''] =
     Inr (Rows [[''9'', ''plug'', ''up'', ''11.2-RELEASE'', ''DHCP(Network Issue)'']])"
  by (simp add: list_all_ioc_def list_all_jail_def ex_no_net_def ex_defs eval_defs)

theorem listing_succeeds_witness:
  "full_inputs_ok ex_world ex_list ex_jails \<and>
   json_get_value_all ex_world (mountpoint (ex_jail ''bad'')) = None \<and>
   check_output ex_world (list_get_jid_argv ''dh'') =
     CalledProcessError ''Command returned non-zero exit status 1.'' \<and>
   \<not> basejail_only ex_list \<and> \<not> plugin ex_list \<and>
   list_all_ioc ex_world ex_list (\<lambda>r. 0::nat) ex_jails =
     Inr (Rows [[''7'', ''web.1'', ''up'', ''11.2-RELEASE'', ''10.0.0.5''],
                [''-'', ''bad'', ''CORRUPT'', ''N/A'', ''N/A''],
                [''-'', ''dh'', ''down'', ''11.2-RELEASE'', ''DHCP''],
                [''9'', ''plug'', ''up'', ''11.2-RELEASE'', ''DHCP'']]) \<and>
   (\<exists>rows. [[''7'', ''web.1'', ''up'', ''11.2-RELEASE'', ''10.0.0.5''],
            [''-'', ''bad'', ''CORRUPT'', ''N/A'', ''N/A''],
            [''-'', ''dh'', ''down'', ''11.2-RELEASE'', ''DHCP''],
            [''9'', ''plug'', ''up'', ''11.2-RELEASE'', ''DHCP'']] = sort_key (\<lambda>r. 0::nat) rows \<and>
      list_all2 (absorbed ex_world ex_list) ex_jails rows) \<and>
   full_inputs_ok ex_no_net ex_list [ex_jail ''plug''] \<and>
   check_output ex_no_net (ifconfig_argv ''plug'' (dhcp_interface ''vnet0:bridge0'')) =
     CalledProcessError ''Command returned non-zero exit status 1.'' \<and>
   list_all_ioc ex_no_net ex_list (\<lambda>r. 0::nat) [ex_jail ''plug''] =
     Inr (Rows [[''9'', ''plug'', ''up'', ''11.2-RELEASE'', ''DHCP(Network Issue)'']]) \<and>
   (\<exists>rows. [[''9'', ''plug'', ''up'', ''11.2-RELEASE'', ''DHCP(Network Issue)'']] =
            sort_key (\<lambda>r. 0::nat) rows \<and>
      list_all2 (absorbed ex_no_net ex_list) [ex_jail ''plug''] rows) \<and>
   quick_inputs_ok ex_world [ex_jail ''web.1'', ex_jail ''bad''] \<and>
   open_config_json ex_world (mountpoint (ex_jail ''bad'')) = ConfOtherError \<and>
   list_all_quick ex_world ex_list [ex_jail ''web.1'', ex_jail ''bad''] =
     Inr (Rows [[''web.1'', ''vnet0|10.0.0.5/24''], [''bad - CORRUPTED'', ''N/A'']]) \<and>
   list_all2 (absorbed_quick ex_world) [ex_jail ''web.1'', ex_jail ''bad'']
     [[''web.1'', ''vnet0|10.0.0.5/24''], [''bad - CORRUPTED'', ''N/A'']]"
proof -
  have 4: "check_output ex_no_net (ifconfig_argv ''plug'' (dhcp_interface ''vnet0:bridge0'')) =
     CalledProcessError ''Command returned non-zero exit status 1.''"
    by (simp add: ex_no_net_def ifconfig_argv_def)
  have "\<exists>out. list_all_ioc ex_no_net ex_list (\<lambda>r. 0::nat) [ex_jail ''plug''] = Inr out \<and>
      (\<exists>rows. records_of out = sort_key (\<lambda>r. 0::nat) rows \<and>
         list_all2 (absorbed ex_no_net ex_list) [ex_jail ''plug''] rows)"
    using listing_succeeds[of ex_no_net ex_list "[ex_jail ''plug'']" "\<lambda>r. 0::nat"] ex_no_net_ok
    by (simp add: ex_list_def basejail_only_def)
  then have net: "\<exists>rows. [[''9'', ''plug'', ''up'', ''11.2-RELEASE'', ''DHCP(Network Issue)'']] =
            sort_key (\<lambda>r. 0::nat) rows \<and>
      list_all2 (absorbed ex_no_net ex_list) [ex_jail ''plug''] rows"
    unfolding ex_no_net_listing by (simp add: records_of_def)
  have 1: "json_get_value_all ex_world (mountpoint (ex_jail ''bad'')) = None"
    "check_output ex_world (list_get_jid_argv ''dh'') =
       CalledProcessError ''Command returned non-zero exit status 1.''"
    "open_config_json ex_world (mountpoint (ex_jail ''bad'')) = ConfOtherError"
    by (simp_all add: ex_defs list_get_jid_argv_def replace_def)
  have 2: "\<not> basejail_only ex_list" "\<not> plugin ex_list"
    by (simp_all add: ex_list_def basejail_only_def)
  have 3: "quick_inputs_ok ex_world [ex_jail ''web.1'', ex_jail ''bad'']"
    by (simp add: quick_inputs_ok_def ex_defs)
  note t = listing_succeeds[of ex_world ex_list ex_jails "\<lambda>r. 0::nat"]
  note q = listing_succeeds[of ex_world ex_list "[ex_jail ''web.1'', ex_jail ''bad'']" "\<lambda>r. 0::nat"]
  have "\<exists>out. list_all_ioc ex_world ex_list (\<lambda>r. 0::nat) ex_jails = Inr out \<and>
      (\<exists>rows. records_of out = sort_key (\<lambda>r. 0::nat) rows \<and>
         list_all2 (absorbed ex_world ex_list) ex_jails rows)"
    using t ex_full_inputs_ok 2 by blast
  then have full: "\<exists>rows. [[''7'', ''web.1'', ''up'', ''11.2-RELEASE'', ''10.0.0.5''],
            [''-'', ''bad'', ''CORRUPT'', ''N/A'', ''N/A''],
            [''-'', ''dh'', ''down'', ''11.2-RELEASE'', ''DHCP''],
            [''9'', ''plug'', ''up'', ''11.2-RELEASE'', ''DHCP'']] = sort_key (\<lambda>r. 0::nat) rows \<and>
      list_all2 (absorbed ex_world ex_list) ex_jails rows"
    unfolding ex_listing by (simp add: records_of_def)
  have "\<exists>out. list_all_quick ex_world ex_list [ex_jail ''web.1'', ex_jail ''bad''] = Inr out \<and>
      list_all2 (absorbed_quick ex_world) [ex_jail ''web.1'', ex_jail ''bad''] (records_of out)"
    using q 3 2 by blast
  then have quick: "list_all2 (absorbed_quick ex_world) [ex_jail ''web.1'', ex_jail ''bad'']
     [[''web.1'', ''vnet0|10.0.0.5/24''], [''bad - CORRUPTED'', ''N/A'']]"
    unfolding ex_quick_listing by (simp add: records_of_def)
  show ?thesis
    using ex_full_inputs_ok 1 2 3 ex_listing full ex_no_net_ok 4 ex_no_net_listing net
      ex_quick_listing quick
    by (intro conjI)
qed

text \<open>
  C2 as stated fails. The quick listing of a dataset without \<^verbatim>\<open>config.json\<close> returns
  nothing, whether \<^verbatim>\<open>logit\<close> raises at the level \<^verbatim>\<open>EXCEPTION\<close> or returns. The full listing
  returns nothing when the probe raises anything but \<^verbatim>\<open>CalledProcessError\<close> (the program
  \<^verbatim>\<open>jls\<close> is not there), when the probe exits with zero and prints fewer than six fields,
  when the root dataset of a jail is not there, and when a configuration that loads
  lacks a key.
\<close>

theorem listing_succeeds_counterexample:
  "open_config_json ex_world (mountpoint (ex_jail ''dh'')) = ConfFileNotFound \<and>
   list_all_quick ex_world ex_list [ex_jail ''dh''] =
     Inl (Raised (missing_message ''/iocage/jails/dh'')) \<and>
   list_all_quick (ex_world\<lparr>logit := \<lambda>level message. True\<rparr>) ex_list [ex_jail ''dh''] =
     Inl (UnboundLocalError ''conf'') \<and>
   list_all_ioc (ex_world\<lparr>check_output := \<lambda>argv. Raises (FileNotFoundError ''jls'')\<rparr>) ex_list
       (\<lambda>r. 0::nat) [ex_jail ''web.1''] = Inl (FileNotFoundError ''jls'') \<and>
   list_all_ioc (ex_world\<lparr>check_output := \<lambda>argv. Exit0 ''JID IP Hostname Path 3''\<rparr>) ex_list
       (\<lambda>r. 0::nat) [ex_jail ''web.1''] = Inl IndexError \<and>
   list_all_ioc (ex_world\<lparr>get_dataset_origin := \<lambda>n. NoSuchDataset\<rparr>) ex_list
       (\<lambda>r. 0::nat) [ex_jail ''web.1''] = Inl (ZFSException ''zroot/iocage/jails/web.1/root'') \<and>
   list_all_ioc (ex_world\<lparr>json_get_value_all := \<lambda>mp. Some (ex_conf(''boot'' := None))\<rparr>) ex_list
       (\<lambda>r. 0::nat) [ex_jail ''web.1''] = Inl (KeyError ''boot'')"
  by (simp add: ex_defs list_all_quick_def list_all_quick_jail_def list_all_ioc_def
      list_all_jail_def eval_defs)

end
